(* ===== verification/Prelude.thy ===== *)
theory Prelude imports Main "HOL-Library.AList" "HOL-Library.Multiset" begin

text \<open>
  Shared ground of the development: the error values of the code (Go errors are values, so an
  operation that can fail returns \<open>goerr + 'a\<close> or \<open>goerr option\<close>), the parts of
  Go's standard library on strings and ordering that the sources use, and generic facts about
  association lists and sorting. Go strings are modelled as \<open>string\<close> (a list of bytes);
  \<open>map\<close> values are association lists, so that an iteration order exists where the code
  iterates, and lookups go through \<open>map_of\<close>.
\<close>

named_theorems go_defs "definitions that unfold to plain HOL"

section \<open>Errors\<close>

text \<open>
  The reasons the code distinguishes on an error of the Kubernetes API, the package level sentinel
  errors, and errors as the code builds them: \<open>WrapError pre e post\<close> is
  \<open>fmt.Errorf\<close> with one \<open>%w\<close> between two texts.
\<close>

datatype apiReason = NotFound | AlreadyExists | TooManyRequests | OtherReason

datatype sentinel = ErrUnmanagedPods | ErrImageNotFound | ErrUnknownTalosVersion

datatype goerr =
    ApiError apiReason string
  | TextError string
  | SentinelError sentinel
  | WrapError string goerr string

fun sentinelText :: "sentinel \<Rightarrow> string" where
  "sentinelText ErrUnmanagedPods = ''pods without a controller would be lost''"
| "sentinelText ErrImageNotFound = ''image not found''"
| "sentinelText ErrUnknownTalosVersion = ''talos version not in compatibility matrix''"

fun errText :: "goerr \<Rightarrow> string" where
  "errText (ApiError _ s) = s"
| "errText (TextError s) = s"
| "errText (SentinelError s) = sentinelText s"
| "errText (WrapError pre e post) = pre @ errText e @ post"

fun errIs :: "goerr \<Rightarrow> sentinel \<Rightarrow> bool" where
  "errIs (ApiError _ _) s = False"
| "errIs (TextError _) s = False"
| "errIs (SentinelError t) s = (t = s)"
| "errIs (WrapError _ e _) s = errIs e s"

fun errReason :: "goerr \<Rightarrow> apiReason" where
  "errReason (ApiError r _) = r"
| "errReason (WrapError _ e _) = errReason e"
| "errReason _ = OtherReason"

abbreviation isNotFound :: "goerr \<Rightarrow> bool" where
  "isNotFound e \<equiv> errReason e = NotFound"

abbreviation isAlreadyExists :: "goerr \<Rightarrow> bool" where
  "isAlreadyExists e \<equiv> errReason e = AlreadyExists"

abbreviation isTooManyRequests :: "goerr \<Rightarrow> bool" where
  "isTooManyRequests e \<equiv> errReason e = TooManyRequests"

text \<open>\<open>fmt.Errorf("text: %w", err)\<close>\<close>

definition wrapErr :: "string \<Rightarrow> goerr \<Rightarrow> goerr" where
  "wrapErr pre e = WrapError (pre @ '': '') e []"

lemma errIs_wrapErr [simp]: "errIs (wrapErr pre e) s = errIs e s"
  by (simp add: wrapErr_def)

lemma errReason_wrapErr [simp]: "errReason (wrapErr pre e) = errReason e"
  by (simp add: wrapErr_def)

section \<open>Strings\<close>

text \<open>\<open>strings.Compare\<close>: lexicographic on bytes, -1, 0 or 1.\<close>

definition byteVal :: "char \<Rightarrow> int" where
  "byteVal c = of_char c"

lemma byteVal_inj [simp]: "byteVal c = byteVal d \<longleftrightarrow> c = d"
  by (simp add: byteVal_def)

fun strCompare :: "string \<Rightarrow> string \<Rightarrow> int" where
  "strCompare [] [] = 0"
| "strCompare [] (_ # _) = -1"
| "strCompare (_ # _) [] = 1"
| "strCompare (x # xs) (y # ys) =
     (if byteVal x < byteVal y then -1
      else if byteVal y < byteVal x then 1
      else strCompare xs ys)"

lemma strCompare_refl [simp]: "strCompare xs xs = 0"
  by (induction xs) auto

lemma strCompare_eq_0: "strCompare xs ys = 0 \<longleftrightarrow> xs = ys"
  by (induction xs ys rule: strCompare.induct) (auto dest: le_antisym simp: not_less simp flip: byteVal_inj)

lemma strCompare_swap: "strCompare ys xs = - strCompare xs ys"
  by (induction xs ys rule: strCompare.induct) auto

lemma strCompare_cases: "strCompare xs ys = -1 \<or> strCompare xs ys = 0 \<or> strCompare xs ys = 1"
  by (induction xs ys rule: strCompare.induct) auto

lemma strCompare_trans:
  "strCompare xs ys \<le> 0 \<Longrightarrow> strCompare ys zs \<le> 0 \<Longrightarrow> strCompare xs zs \<le> 0"
proof (induction xs ys arbitrary: zs rule: strCompare.induct)
  case 1
  then show ?case by simp
next
  case (2 y ys)
  then show ?case by (cases zs) auto
next
  case (3 x xs)
  then show ?case by simp
next
  case (4 x xs y ys)
  show ?case
  proof (cases zs)
    case Nil
    then show ?thesis using "4.prems" by simp
  next
    case (Cons z zs')
    show ?thesis
    proof (cases "byteVal x < byteVal z")
      case True
      then show ?thesis using Cons by simp
    next
      case False
      have "byteVal x \<le> byteVal y" "byteVal y \<le> byteVal z"
        using "4.prems" Cons by (auto split: if_splits)
      then have eq: "byteVal x = byteVal y" "byteVal y = byteVal z" using False by linarith+
      then have "strCompare xs ys \<le> 0" "strCompare ys zs' \<le> 0"
        using "4.prems" Cons by auto
      then have "strCompare xs zs' \<le> 0" using "4.IH" eq by simp
      then show ?thesis using Cons eq by simp
    qed
  qed
qed

definition strLess :: "string \<Rightarrow> string \<Rightarrow> bool" where
  "strLess a b \<longleftrightarrow> strCompare a b < 0"

text \<open>\<open>strings.Join\<close>\<close>

fun joinStrings :: "string \<Rightarrow> string list \<Rightarrow> string" where
  "joinStrings sep [] = []"
| "joinStrings sep [x] = x"
| "joinStrings sep (x # xs) = x @ sep @ joinStrings sep xs"

text \<open>\<open>strings.HasPrefix\<close>\<close>

fun hasPrefix :: "string \<Rightarrow> string \<Rightarrow> bool" where
  "hasPrefix xs [] = True"
| "hasPrefix [] (_ # _) = False"
| "hasPrefix (x # xs) (p # ps) = (x = p \<and> hasPrefix xs ps)"

lemma hasPrefix_iff: "hasPrefix xs ps \<longleftrightarrow> (\<exists>rest. xs = ps @ rest)"
  by (induction xs ps rule: hasPrefix.induct) auto

text \<open>\<open>strings.EqualFold\<close> on ASCII text\<close>

definition asciiLower :: "char \<Rightarrow> char" where
  "asciiLower c =
     (let n = (of_char c :: int) in if 65 \<le> n \<and> n \<le> 90 then char_of (n + 32) else c)"

definition equalFold :: "string \<Rightarrow> string \<Rightarrow> bool" where
  "equalFold a b \<longleftrightarrow> map asciiLower a = map asciiLower b"

lemma equalFold_refl [simp]: "equalFold a a"
  by (simp add: equalFold_def)

text \<open>Decimal rendering (\<open>%d\<close>) and quoting (\<open>%q\<close>, printable ASCII).\<close>

function showPos :: "int \<Rightarrow> string" where
  "showPos n = (if n < 10 then [char_of (48 + n)] else showPos (n div 10) @ [char_of (48 + n mod 10)])"
  by pat_completeness auto
termination
  by (relation "measure nat") auto

declare showPos.simps [simp del]

definition showInt :: "int \<Rightarrow> string" where
  "showInt i = (if i < 0 then CHR ''-'' # showPos (- i) else showPos i)"

definition quoteChar :: "char \<Rightarrow> string" where
  "quoteChar c = (if c = CHR 0x22 then [CHR 0x5C, CHR 0x22]
                  else if c = CHR 0x5C then [CHR 0x5C, CHR 0x5C] else [c])"

definition quoted :: "string \<Rightarrow> string" where
  "quoted s = [CHR 0x22] @ concat (map quoteChar s) @ [CHR 0x22]"

section \<open>Sorting by a comparator\<close>

text \<open>
  \<open>slices.SortFunc\<close> rearranges a slice so that it is sorted by the comparator. The library
  does not promise where equal elements end up; the model is insertion sort. Inside the locale the
  result is shown to be the only sorted rearrangement, so the choice of algorithm does not matter
  for a comparator that tells all elements apart.
\<close>

fun insertBy :: "('a \<Rightarrow> 'a \<Rightarrow> int) \<Rightarrow> 'a \<Rightarrow> 'a list \<Rightarrow> 'a list" where
  "insertBy cmp x [] = [x]"
| "insertBy cmp x (y # ys) = (if cmp x y \<le> 0 then x # y # ys else y # insertBy cmp x ys)"

fun sortFunc :: "('a \<Rightarrow> 'a \<Rightarrow> int) \<Rightarrow> 'a list \<Rightarrow> 'a list" where
  "sortFunc cmp [] = []"
| "sortFunc cmp (x # xs) = insertBy cmp x (sortFunc cmp xs)"

definition sortedBy :: "('a \<Rightarrow> 'a \<Rightarrow> int) \<Rightarrow> 'a list \<Rightarrow> bool" where
  "sortedBy cmp xs \<longleftrightarrow> sorted_wrt (\<lambda>a b. cmp a b \<le> 0) xs"

lemma set_insertBy [simp]: "set (insertBy cmp x xs) = insert x (set xs)"
  by (induction xs) auto

lemma set_sortFunc [simp]: "set (sortFunc cmp xs) = set xs"
  by (induction xs) auto

lemma mset_insertBy [simp]: "mset (insertBy cmp x xs) = add_mset x (mset xs)"
  by (induction xs) auto

lemma mset_sortFunc [simp]: "mset (sortFunc cmp xs) = mset xs"
  by (induction xs) auto

lemma length_sortFunc [simp]: "length (sortFunc cmp xs) = length xs"
  by (metis mset_sortFunc size_mset)

locale comparator =
  fixes cmp :: "'a \<Rightarrow> 'a \<Rightarrow> int"
  assumes cmp_total: "cmp a b \<le> 0 \<or> cmp b a \<le> 0"
    and cmp_trans: "cmp a b \<le> 0 \<Longrightarrow> cmp b c \<le> 0 \<Longrightarrow> cmp a c \<le> 0"
begin

lemma sortedBy_insertBy: "sortedBy cmp xs \<Longrightarrow> sortedBy cmp (insertBy cmp x xs)"
proof (induction xs)
  case Nil
  then show ?case by (simp add: sortedBy_def)
next
  case (Cons y ys)
  show ?case
  proof (cases "cmp x y \<le> 0")
    case True
    then show ?thesis using Cons.prems cmp_trans [OF True] by (auto simp: sortedBy_def)
  next
    case False
    then have "cmp y x \<le> 0" using cmp_total by blast
    then show ?thesis using False Cons by (auto simp: sortedBy_def)
  qed
qed

lemma sortedBy_sortFunc: "sortedBy cmp (sortFunc cmp xs)"
  by (induction xs) (auto simp: sortedBy_insertBy, simp add: sortedBy_def)

lemma sortFunc_unique:
  assumes "mset ys = mset xs" and "sortedBy cmp ys"
    and anti: "\<And>a b. a \<in> set xs \<Longrightarrow> b \<in> set xs \<Longrightarrow> cmp a b \<le> 0 \<Longrightarrow> cmp b a \<le> 0 \<Longrightarrow> a = b"
  shows "ys = sortFunc cmp xs"
proof -
  have "sorted_wrt (\<lambda>a b. cmp a b \<le> 0) zs \<Longrightarrow> sorted_wrt (\<lambda>a b. cmp a b \<le> 0) ws \<Longrightarrow>
        mset zs = mset ws \<Longrightarrow> set zs \<subseteq> set xs \<Longrightarrow> zs = ws" for zs ws
  proof (induction zs arbitrary: ws)
    case Nil
    then show ?case by simp
  next
    case (Cons z zs)
    then obtain v vs where ws: "ws = v # vs" by (cases ws) auto
    have "set (v # vs) = set (z # zs)" using Cons.prems ws by (metis mset_eq_setD)
    then have "cmp z v \<le> 0 \<or> z = v" "cmp v z \<le> 0 \<or> z = v" "v \<in> set xs" "z \<in> set xs"
      using Cons.prems ws by (auto simp: set_eq_iff)
    then have "z = v" using anti by blast
    then show ?case using Cons ws by auto
  qed
  then show ?thesis
    using assms sortedBy_sortFunc [of xs] by (metis mset_eq_setD mset_sortFunc order_refl sortedBy_def)
qed

end

interpretation strOrder: comparator strCompare
proof
  show "strCompare a b \<le> 0 \<or> strCompare b a \<le> 0" for a b
    using strCompare_swap [of a b] by linarith
qed (rule strCompare_trans)

section \<open>Lists and maps\<close>

lemma map_of_update [simp]: "map_of (AList.update k v m) = (map_of m)(k \<mapsto> v)"
  by (rule update_conv')

lemma map_of_delete [simp]: "map_of (AList.delete k m) = (map_of m)(k := None)"
  by (rule delete_conv')

lemma list_all2_ex_left: "list_all2 P xs ys \<Longrightarrow> y \<in> set ys \<Longrightarrow> \<exists>x\<in>set xs. P x y"
  by (induction rule: list_all2_induct) auto

lemma mset_filter_split:
  "mset (filter (\<lambda>x. P x \<and> Q x) xs) + mset (filter (\<lambda>x. P x \<and> \<not> Q x) xs) = mset (filter P xs)"
  by (induction xs) auto

lemma distinct_map_filter: "distinct (map f xs) \<Longrightarrow> distinct (map f (filter P xs))"
  by (induction xs) auto

lemma distinct_map_eqD: "distinct (map f xs) \<Longrightarrow> x \<in> set xs \<Longrightarrow> y \<in> set xs \<Longrightarrow> f x = f y \<Longrightarrow> x = y"
  by (simp add: distinct_map inj_on_def)

lemma sortedBy_filter: "sortedBy cmp xs \<Longrightarrow> sortedBy cmp (filter P xs)"
  by (simp add: sortedBy_def sorted_wrt_filter)

end
