(* ===== verification/GoTime.thy ===== *)
theory GoTime imports Prelude begin

text \<open>
  Go's \<open>time\<close> package as far as the sources use it. An instant (\<open>time.Time\<close>) and a
  \<open>time.Duration\<close> are nanosecond counts, an instant counted from the Unix epoch; the container
  image has no time zone database, so every location is UTC. Both are unbounded here. A Go duration has
  64 bits: \<open>ParseDuration\<close>, which reads the fields of the specs, refuses longer ones (about
  292 years), sums are of an instant and a duration only, and a difference of instants that is longer
  saturates in Go where it is exact here; the code compares differences with durations, so the
  comparison has the same outcome.
  The calendar is the proleptic Gregorian one, computed from the day number.
\<close>

type_synonym time = int
type_synonym duration = int

definition millisecond :: duration where "millisecond = 1000000"
definition second :: duration where "second = 1000000000"
definition minute :: duration where "minute = 60 * second"
definition hour :: duration where "hour = 60 * minute"
definition day :: duration where "day = 24 * hour"

lemmas duration_units = millisecond_def second_def minute_def hour_def day_def

lemma day_pos [simp]: "0 < day" and minute_pos [simp]: "0 < minute" and second_pos [simp]: "0 < second"
  and hour_pos [simp]: "0 < hour" and millisecond_pos [simp]: "0 < millisecond"
  by (simp_all add: duration_units)

lemma day_neq_0 [simp]: "day \<noteq> 0"
  using day_pos by linarith

text \<open>The zero \<open>time.Time\<close>: January 1 of year 1, 00:00 UTC.\<close>

definition zeroTime :: time where
  "zeroTime = - 62135596800 * second"

definition isZero :: "time \<Rightarrow> bool" where
  "isZero t \<longleftrightarrow> t = zeroTime"

section \<open>Calendar\<close>

definition dayNumber :: "time \<Rightarrow> int" where
  "dayNumber t = t div day"

definition startOfDay :: "time \<Rightarrow> time" where
  "startOfDay t = dayNumber t * day"

text \<open>\<open>t.AddDate(0, 0, n)\<close>: the same time of day \<open>n\<close> days later.\<close>

definition addDays :: "int \<Rightarrow> time \<Rightarrow> time" where
  "addDays n t = t + n * day"

text \<open>
  \<open>time.Date(year, month, day, hour, min, 0, 0, loc)\<close> for the calendar day of a reference
  instant: hours and minutes outside their ranges carry over into the next units.
\<close>

definition dateAt :: "time \<Rightarrow> int \<Rightarrow> int \<Rightarrow> time" where
  "dateAt ref h m = startOfDay ref + h * hour + m * minute"

datatype weekday = Sunday | Monday | Tuesday | Wednesday | Thursday | Friday | Saturday

definition weekdayOfDay :: "int \<Rightarrow> weekday" where
  "weekdayOfDay d = [Sunday, Monday, Tuesday, Wednesday, Thursday, Friday, Saturday] ! nat ((d + 4) mod 7)"

definition weekday :: "time \<Rightarrow> weekday" where
  "weekday t = weekdayOfDay (dayNumber t)"

fun weekdayString :: "weekday \<Rightarrow> string" where
  "weekdayString Sunday = ''Sunday''"
| "weekdayString Monday = ''Monday''"
| "weekdayString Tuesday = ''Tuesday''"
| "weekdayString Wednesday = ''Wednesday''"
| "weekdayString Thursday = ''Thursday''"
| "weekdayString Friday = ''Friday''"
| "weekdayString Saturday = ''Saturday''"

text \<open>Year, month and day of a day number (days since 1970-01-01).\<close>

definition civilOfDay :: "int \<Rightarrow> int \<times> int \<times> int" where
  "civilOfDay d =
     (let z = d + 719468;
          era = z div 146097;
          doe = z mod 146097;
          yoe = (doe - doe div 1460 + doe div 36524 - doe div 146096) div 365;
          doy = doe - (365 * yoe + yoe div 4 - yoe div 100);
          mp = (5 * doy + 2) div 153;
          dd = doy - (153 * mp + 2) div 5 + 1;
          mm = (if mp < 10 then mp + 3 else mp - 9);
          yy = yoe + era * 400 + (if mm \<le> 2 then 1 else 0)
      in (yy, mm, dd))"

definition pad :: "nat \<Rightarrow> int \<Rightarrow> string" where
  "pad n i = (let s = showInt i in replicate (n - length s) (CHR ''0'') @ s)"

text \<open>\<open>t.UTC().Format("2006-01-02")\<close> and \<open>t.UTC().Format(time.RFC3339)\<close>\<close>

definition formatDate :: "time \<Rightarrow> string" where
  "formatDate t = (case civilOfDay (dayNumber t) of (y, m, d) \<Rightarrow> pad 4 y @ ''-'' @ pad 2 m @ ''-'' @ pad 2 d)"

definition formatRFC3339 :: "time \<Rightarrow> string" where
  "formatRFC3339 t =
     (let s = (t - startOfDay t) div second
      in formatDate t @ ''T'' @ pad 2 (s div 3600) @ '':'' @ pad 2 (s div 60 mod 60) @ '':'' @ pad 2 (s mod 60) @ ''Z'')"

section \<open>Durations as text\<close>

definition fracDigits :: "nat \<Rightarrow> int \<Rightarrow> string" where
  "fracDigits n v =
     (let ds = rev (dropWhile (\<lambda>c. c = CHR ''0'') (rev (pad n v)))
      in if ds = [] then [] else CHR ''.'' # ds)"

text \<open>\<open>Duration.String()\<close>\<close>

definition durString :: "duration \<Rightarrow> string" where
  "durString d =
     (let u = \<bar>d\<bar>; sign = (if d < 0 then ''-'' else '''') in
      if u = 0 then ''0s''
      else if u < 1000 then sign @ showInt u @ ''ns''
      else if u < 1000000 then sign @ showInt (u div 1000) @ fracDigits 3 (u mod 1000) @ [CHR 0xC2, CHR 0xB5] @ ''s''
      else if u < second then sign @ showInt (u div 1000000) @ fracDigits 6 (u mod 1000000) @ ''ms''
      else (let s = u div second; m = s div 60; h = m div 60 in
        sign @ (if h > 0 then showInt h @ ''h'' else '''')
             @ (if m > 0 then showInt (m mod 60) @ ''m'' else '''')
             @ showInt (s mod 60) @ fracDigits 9 (u mod second) @ ''s''))"

section \<open>Facts about days\<close>

lemma dayNumber_addDays [simp]: "dayNumber (addDays n t) = dayNumber t + n"
  by (simp add: dayNumber_def addDays_def add.commute)

lemma startOfDay_le [simp]: "startOfDay t \<le> t"
  by (simp add: startOfDay_def dayNumber_def) (simp add: div_mult2_eq minus_mod_eq_div_mult [symmetric])

lemma less_startOfDay_day: "t < startOfDay t + day"
proof -
  have "t mod day < day" by simp
  moreover have "startOfDay t = t - t mod day"
    by (simp add: startOfDay_def dayNumber_def minus_mod_eq_div_mult)
  ultimately show ?thesis by linarith
qed

lemma dayNumber_eqI:
  assumes "d * day \<le> t" and "t < d * day + day"
  shows "dayNumber t = d"
proof -
  have "(d * day) div day \<le> t div day" using assms(1) by (rule zdiv_mono1) simp
  then have "d \<le> t div day" by simp
  moreover have "t div day < d + 1"
  proof (rule ccontr)
    assume "\<not> t div day < d + 1"
    then have "(d + 1) * day \<le> t div day * day" by (intro mult_right_mono) (auto intro: less_imp_le)
    also have "\<dots> \<le> t" using startOfDay_le [of t] by (simp add: startOfDay_def dayNumber_def)
    finally show False using assms(2) by (simp add: algebra_simps)
  qed
  ultimately show ?thesis by (simp add: dayNumber_def)
qed

lemma dayNumber_dateAt:
  assumes "0 \<le> h" "h < 24" "0 \<le> m" "m < 60"
  shows "dayNumber (dateAt ref h m) = dayNumber ref"
proof (rule dayNumber_eqI)
  show "dayNumber ref * day \<le> dateAt ref h m"
    using assms by (simp add: dateAt_def startOfDay_def duration_units)
  have "h * hour + m * minute < day" using assms by (simp add: duration_units)
  then show "dateAt ref h m < dayNumber ref * day + day"
    by (simp add: dateAt_def startOfDay_def)
qed

lemma startOfDay_eq_dayNumber: "startOfDay t = startOfDay u \<longleftrightarrow> dayNumber t = dayNumber u"
  by (simp add: startOfDay_def duration_units)

lemma weekdayOfDay_add7 [simp]: "weekdayOfDay (d + 7) = weekdayOfDay d"
proof -
  have "(d + 7 + 4) mod 7 = (d + 4) mod 7"
    by (metis add.assoc add.commute mod_add_self2)
  then show ?thesis by (simp add: weekdayOfDay_def)
qed

lemma formatDate_cong: "dayNumber t = dayNumber u \<Longrightarrow> formatDate t = formatDate u"
  by (simp add: formatDate_def)

lemma weekday_cong: "dayNumber t = dayNumber u \<Longrightarrow> weekday t = weekday u"
  by (simp add: weekday_def)

end
