(* ===== verification/ApiTypes.thy ===== *)
theory ApiTypes imports GoTime begin

text \<open>
  The data of the operator: the custom resources of \<open>api/v1alpha1\<close> (\<open>PatchPlan\<close>,
  \<open>PatchJob\<close>) with their helper methods, and the fields of the Kubernetes objects (nodes,
  pods, leases, the kube-proxy DaemonSet) that the controllers read or write. Structs are records
  with the source's field names (prefixed where two structs share a name), pointers that may be nil
  are \<open>option\<close>, enumerated string types are datatypes with one constructor per constant and one
  for the empty string. Values the CRD schema rejects (other phase strings) are left out.
\<close>

type_synonym strmap = "(string \<times> string) list"

section \<open>Kubernetes objects\<close>

record labelSelector =
  MatchLabels :: strmap
  MatchExpressions :: "(string \<times> string \<times> string list) list"

record node =
  node_Name :: string
  node_Labels :: strmap
  node_Annotations :: strmap
  Unschedulable :: bool
  Addresses :: "(string \<times> string) list"
  node_Conditions :: "(string \<times> string) list"
  KubeletVersion :: string
  BootID :: string

record ownerRef =
  owner_Kind :: string
  owner_Controller :: bool

record pod =
  pod_Namespace :: string
  pod_Name :: string
  pod_Labels :: strmap
  pod_Annotations :: strmap
  pod_DeletionTimestamp :: "time option"
  OwnerReferences :: "ownerRef list"
  pod_Phase :: string
  ContainerStatuses :: "(string \<times> bool) list"

record lease =
  lease_Name :: string
  lease_Namespace :: string
  lease_Labels :: strmap
  HolderIdentity :: string
  AcquireTime :: time
  lease_Owner :: "string option"

record daemonSet =
  ContainerImages :: "string list"
  ds_Generation :: int
  ObservedGeneration :: int
  UpdatedNumberScheduled :: int
  DesiredNumberScheduled :: int
  NumberReady :: int

record condition =
  cond_Type :: string
  cond_Status :: bool
  cond_Reason :: string
  cond_Message :: string
  cond_ObservedGeneration :: int

section \<open>PatchPlan: specification\<close>

record autoUpdateSpec =
  Enabled :: bool
  Allow :: string
  CheckInterval :: duration
  MinReleaseAge :: duration

record targetSpec =
  AutoUpdate :: "autoUpdateSpec option"
  TalosVersion :: string
  KubernetesVersion :: string
  AllowTalosDowngrade :: bool
  Source :: string
  Installer :: string
  SchematicID :: string
  SecureBoot :: bool

record groupSpec =
  Selector :: "labelSelector option"
  group_Concurrency :: int

datatype failurePolicyType = FailurePolicyUnset | FailurePolicyHalt | FailurePolicyPause

record failurePolicySpec =
  policy_Type :: failurePolicyType
  MaxFailures :: int

record maintenanceWindow =
  Days :: "string list"
  StartTime :: string
  EndTime :: string
  Disabled :: bool

record maintenanceSpec =
  ExcludeDates :: "string list"
  Windows :: "maintenanceWindow list"

record secretReference =
  secret_Name :: string
  secret_Namespace :: string

record talosConfigSpec =
  Endpoints :: "string list"
  SecretRef :: "secretReference option"

record strategySpec =
  strategy_Order :: "string list"

record retentionSpec =
  History :: duration

record planSpec =
  Target :: targetSpec
  NodeSelector :: "labelSelector option"
  Groups :: "(string \<times> groupSpec) list"
  Strategy :: strategySpec
  FailurePolicy :: failurePolicySpec
  Retention :: retentionSpec
  DelayBetweenNodes :: duration
  RespectPDBs :: bool
  EvictUnmanagedPods :: bool
  DrainTimeout :: duration
  RebootTimeout :: duration
  KubernetesUpgradeTimeout :: duration
  Paused :: bool
  Cancelled :: bool
  TalosConfig :: talosConfigSpec
  Maintenance :: "maintenanceSpec option"

definition GroupWorkers :: string where "GroupWorkers = ''workers''"
definition GroupControlPlane :: string where "GroupControlPlane = ''controlPlane''"

lemma builtin_groups_differ [simp]: "GroupWorkers \<noteq> GroupControlPlane" "GroupControlPlane \<noteq> GroupWorkers"
  by (simp_all add: GroupWorkers_def GroupControlPlane_def)

text \<open>\<open>FailurePolicySpec.Exceeded\<close>\<close>

definition Exceeded :: "failurePolicySpec \<Rightarrow> int \<Rightarrow> bool" where
  "Exceeded f newFailures \<longleftrightarrow> newFailures \<ge> max (MaxFailures f) 1"

lemma Exceeded_pos: "Exceeded f n \<Longrightarrow> 0 < n"
  by (simp add: Exceeded_def)

section \<open>PatchPlan: status\<close>

datatype patchPhase =
    PatchPhaseNone
  | PatchPhasePending
  | PatchPhasePreflighting
  | PatchPhaseInProgress
  | PatchPhasePaused
  | PatchPhaseCancelled
  | PatchPhaseCompleted
  | PatchPhaseFailed
  | PatchPhaseWatching

fun patchPhaseString :: "patchPhase \<Rightarrow> string" where
  "patchPhaseString PatchPhaseNone = ''''"
| "patchPhaseString PatchPhasePending = ''Pending''"
| "patchPhaseString PatchPhasePreflighting = ''Preflighting''"
| "patchPhaseString PatchPhaseInProgress = ''InProgress''"
| "patchPhaseString PatchPhasePaused = ''Paused''"
| "patchPhaseString PatchPhaseCancelled = ''Cancelled''"
| "patchPhaseString PatchPhaseCompleted = ''Completed''"
| "patchPhaseString PatchPhaseFailed = ''Failed''"
| "patchPhaseString PatchPhaseWatching = ''Watching''"

record autoUpdateStatus =
  LastCheckTime :: "time option"
  CurrentVersion :: string
  LatestVersion :: string
  PendingVersion :: string
  LastCreatedPlan :: string

record groupStatus =
  gs_Name :: string
  gs_Concurrency :: int
  gs_Active :: int
  gs_Total :: int
  gs_Pending :: int
  gs_Running :: int
  gs_Completed :: int
  gs_Failed :: int

record planStatus =
  ps_Phase :: patchPhase
  ps_AutoUpdate :: "autoUpdateStatus option"
  ps_TargetTalosVersion :: string
  ps_TargetKubernetesVersion :: string
  KubeProxyUpgraded :: bool
  TotalNodes :: int
  PendingNodes :: int
  RunningNodes :: int
  CompletedNodes :: int
  FailedNodes :: int
  ps_Groups :: "groupStatus list"
  FailuresAcknowledged :: int
  HistoryPurged :: bool
  LastNodeScheduledAt :: "time option"
  ps_Message :: string
  ps_StartTime :: "time option"
  ps_CompletionTime :: "time option"
  ps_Conditions :: "condition list"

record patchPlan =
  plan_Name :: string
  plan_Labels :: strmap
  plan_Generation :: int
  plan_CreationTimestamp :: time
  plan_DeletionTimestamp :: "time option"
  plan_Owner :: "string option"
  plan_Spec :: planSpec
  plan_Status :: planStatus

definition DefaultHistoryRetention :: duration where
  "DefaultHistoryRetention = 7 * 24 * hour"

definition HistoryRetention :: "patchPlan \<Rightarrow> duration" where
  "HistoryRetention p =
     (if History (Retention (plan_Spec p)) \<le> 0 then DefaultHistoryRetention
      else History (Retention (plan_Spec p)))"

lemma HistoryRetention_pos: "0 < HistoryRetention p"
  by (simp add: HistoryRetention_def DefaultHistoryRetention_def)

definition IsAutoUpdateTemplate :: "patchPlan \<Rightarrow> bool" where
  "IsAutoUpdateTemplate p =
     (case AutoUpdate (Target (plan_Spec p)) of None \<Rightarrow> False | Some a \<Rightarrow> Enabled a)"

definition ConditionPreflightPassed :: string where
  "ConditionPreflightPassed = ''PreflightPassed''"

definition LabelParentPlan :: string where "LabelParentPlan = ''kangalpatch.ozalp.dk/parent''"
definition LabelPatchPlan :: string where "LabelPatchPlan = ''kangalpatch.ozalp.dk/patchplan''"
definition LabelGroup :: string where "LabelGroup = ''kangalpatch.ozalp.dk/group''"
definition LabelNode :: string where "LabelNode = ''kangalpatch.ozalp.dk/node''"

section \<open>PatchJob\<close>

datatype patchJobPhase =
    PatchJobPhaseNone
  | PatchJobPhasePending
  | PatchJobPhaseDraining
  | PatchJobPhaseUpgrading
  | PatchJobPhaseRebooting
  | PatchJobPhaseUpgradingKubernetes
  | PatchJobPhaseValidatingKubernetes
  | PatchJobPhaseCompleted
  | PatchJobPhaseFailed

definition IsTerminal :: "patchJobPhase \<Rightarrow> bool" where
  "IsTerminal p \<longleftrightarrow> p = PatchJobPhaseCompleted \<or> p = PatchJobPhaseFailed"

lemma IsTerminal_simps [simp]:
  "\<not> IsTerminal PatchJobPhaseNone" "\<not> IsTerminal PatchJobPhasePending"
  "\<not> IsTerminal PatchJobPhaseDraining" "\<not> IsTerminal PatchJobPhaseUpgrading"
  "\<not> IsTerminal PatchJobPhaseRebooting" "\<not> IsTerminal PatchJobPhaseUpgradingKubernetes"
  "\<not> IsTerminal PatchJobPhaseValidatingKubernetes"
  "IsTerminal PatchJobPhaseCompleted" "IsTerminal PatchJobPhaseFailed"
  by (simp_all add: IsTerminal_def)

record jobSpec =
  NodeName :: string
  job_Target :: targetSpec
  PatchPlanRef :: string
  job_Group :: string

record jobStatus =
  js_Phase :: patchJobPhase
  js_Message :: string
  js_StartTime :: "time option"
  js_CompletionTime :: "time option"
  DrainStartTime :: "time option"
  RebootStartTime :: "time option"
  KubernetesUpgradeStartTime :: "time option"
  PreUpgradeBootID :: string
  CurrentTalosVersion :: string
  TargetTalosVersion :: string
  CurrentKubernetesVersion :: string
  TargetKubernetesVersion :: string

record patchJob =
  job_Name :: string
  job_Labels :: strmap
  job_DeletionTimestamp :: "time option"
  job_Owner :: "string option"
  job_Spec :: jobSpec
  job_Status :: jobStatus

abbreviation jobPhase :: "patchJob \<Rightarrow> patchJobPhase" where
  "jobPhase j \<equiv> js_Phase (job_Status j)"

abbreviation planPhase :: "patchPlan \<Rightarrow> patchPhase" where
  "planPhase p \<equiv> ps_Phase (plan_Status p)"

text \<open>
  The phases of a job in the order a job goes through them; \<open>Failed\<close> comes last because every
  other phase can end there.
\<close>

fun phaseRank :: "patchJobPhase \<Rightarrow> nat" where
  "phaseRank PatchJobPhaseNone = 0"
| "phaseRank PatchJobPhasePending = 1"
| "phaseRank PatchJobPhaseDraining = 2"
| "phaseRank PatchJobPhaseUpgrading = 3"
| "phaseRank PatchJobPhaseRebooting = 4"
| "phaseRank PatchJobPhaseUpgradingKubernetes = 5"
| "phaseRank PatchJobPhaseValidatingKubernetes = 6"
| "phaseRank PatchJobPhaseCompleted = 7"
| "phaseRank PatchJobPhaseFailed = 8"

lemma phaseRank_inj: "phaseRank p = phaseRank q \<longleftrightarrow> p = q"
  by (cases p; cases q) simp_all

instantiation patchJobPhase :: linorder
begin

definition less_eq_patchJobPhase :: "patchJobPhase \<Rightarrow> patchJobPhase \<Rightarrow> bool" where
  "less_eq_patchJobPhase p q \<longleftrightarrow> phaseRank p \<le> phaseRank q"

definition less_patchJobPhase :: "patchJobPhase \<Rightarrow> patchJobPhase \<Rightarrow> bool" where
  "less_patchJobPhase p q \<longleftrightarrow> phaseRank p < phaseRank q"

instance
  by standard (auto simp: less_eq_patchJobPhase_def less_patchJobPhase_def phaseRank_inj)

end

lemmas jobPhase_order = less_eq_patchJobPhase_def less_patchJobPhase_def

section \<open>Talos connection data\<close>

record talosConfig =
  cfg_Endpoints :: "string list"
  CACert :: string
  ClientCert :: string
  ClientKey :: string

end
