(* ===== verification/Effects.thy ===== *)
theory Effects imports ApiTypes "HOL-Library.State_Monad" begin

text \<open>
  How the controllers act on the world. Everything outside the process (the Kubernetes API server,
  the Talos API of the nodes, image registries, the release feed, the clock) is code that is not in
  the repository: an arbitrary state \<open>'s\<close> together with one operation per call the sources
  make, the fields of \<open>env\<close>. An operation may change that state in any way and give any answer,
  so other writers, lagging caches, failures and time passing between two calls are all included.
  The pure library functions the sources call (label selectors, version parsing, status conditions,
  owner references, certificates, machine config patches, URL and JSON decoding) are the fields of
  \<open>klib\<close>, over an arbitrary type \<open>'v\<close> of parsed versions.

  A step of a controller is a state monad over \<open>world\<close>: the outside state, the sequence of
  calls made so far with their answers (a history variable the code never reads), and the only
  state the process itself keeps between reconciles, \<open>transientSince\<close>.
\<close>

section \<open>Data exchanged with the outside\<close>

text \<open>
  The TLS settings of a Talos connection (the PEM texts handed to \<open>crypto/tls\<close>), the options of
  the machine API's upgrade call, the mode of its configuration call, and a release of the GitHub API.
\<close>

record tlsConfig =
  RootCAs :: string
  Certificates :: "string \<times> string"
  MinVersionTLS12 :: bool

record upgradeOptions =
  UpgradeImage :: string
  UpgradePreserve :: bool
  UpgradeStage :: bool
  UpgradeForce :: bool

datatype applyMode = ApplyNoReboot | ApplyOther

record githubRelease =
  TagName :: string
  Draft :: bool
  Prerelease :: bool
  raw_PublishedAt :: time

section \<open>Calls and their answers\<close>

datatype (plugins only: code size) event =
    EvNow time
  | EvGetJob string "goerr + patchJob"
  | EvGetPlan string "goerr + patchPlan"
  | EvGetNode string "goerr + node"
  | EvGetSecret string string "goerr + strmap"
  | EvGetDaemonSet string string "goerr + daemonSet"
  | EvListNodes "labelSelector" "goerr + node list"
  | EvListPods string "goerr + pod list"
  | EvListNamespacedPods string string "goerr + pod list"
  | EvListJobs string "goerr + patchJob list"
  | EvListLeases string string "goerr + lease list"
  | EvListPlans "goerr + patchPlan list"
  | EvListChildPlans string "goerr + patchPlan list"
  | EvPatchNode node node "goerr option"
  | EvEvictPod pod "goerr option"
  | EvDeletePod pod "goerr option"
  | EvPatchJobStatus patchJob patchJob "goerr + patchJob"
  | EvPatchPlanStatus patchPlan patchPlan "goerr + patchPlan"
  | EvPatchPlan patchPlan patchPlan "goerr + patchPlan"
  | EvPatchDaemonSet daemonSet daemonSet "goerr option"
  | EvCreateJob patchJob "goerr + patchJob"
  | EvDeleteJob patchJob "goerr option"
  | EvCreateLease lease "goerr option"
  | EvDeleteLease lease "goerr option"
  | EvCreatePlan patchPlan "goerr option"
  | EvTalosDial "string list" tlsConfig "goerr option"
  | EvTalosClose "goerr option"
  | EvTalosVersion "string option" "goerr + string option list"
  | EvTalosExtensions string "goerr + (string \<times> string) option list"
  | EvTalosUpgrade string upgradeOptions "goerr + nat"
  | EvTalosGetConfig string "goerr + string option"
  | EvTalosApplyConfig string string applyMode "goerr option"
  | EvServerVersion "goerr + string"
  | EvReadyz "goerr option"
  | EvHttpHead string string "goerr + nat \<times> string"
  | EvHttpGet string "goerr + nat \<times> (goerr + string)"

section \<open>The environment\<close>

record 'v klib =
  asSelector :: "labelSelector \<Rightarrow> goerr + (strmap \<Rightarrow> bool)"
  labelValueErrors :: "string \<Rightarrow> string list"
  formatSelector :: "labelSelector option \<Rightarrow> string"
  controllerOf :: "ownerRef list \<Rightarrow> ownerRef option"
  setCondition :: "condition list \<Rightarrow> condition \<Rightarrow> condition list"
  findCondition :: "condition list \<Rightarrow> string \<Rightarrow> condition option"
  setOwnerOfJob :: "patchPlan \<Rightarrow> patchJob \<Rightarrow> goerr + patchJob"
  setOwnerOfLease :: "patchJob \<Rightarrow> lease \<Rightarrow> goerr + lease"
  setOwnerOfPlan :: "patchPlan \<Rightarrow> patchPlan \<Rightarrow> goerr + patchPlan"
  parseSemantic :: "string \<Rightarrow> goerr + 'v"
  parseGeneric :: "string \<Rightarrow> goerr + 'v"
  verLess :: "'v \<Rightarrow> 'v \<Rightarrow> bool"
  verGreater :: "'v \<Rightarrow> 'v \<Rightarrow> bool"
  verMajor :: "'v \<Rightarrow> nat"
  verMinor :: "'v \<Rightarrow> nat"
  verPreRelease :: "'v \<Rightarrow> string"
  verString :: "'v \<Rightarrow> string"
  appendCertsFromPEM :: "string \<Rightarrow> bool"
  x509KeyPair :: "string \<Rightarrow> string \<Rightarrow> goerr option"
  providerBytes :: "string \<Rightarrow> goerr + string"
  loadPatches :: "string list \<Rightarrow> goerr + string"
  applyPatches :: "string \<Rightarrow> string \<Rightarrow> goerr + string"
  outputBytes :: "string \<Rightarrow> goerr + string"
  parseURL :: "string \<Rightarrow> goerr + string \<times> string"
  withQuery :: "string \<Rightarrow> (string \<times> string) list \<Rightarrow> string"
  decodeReleases :: "string \<Rightarrow> goerr + githubRelease list"
  decodeToken :: "string \<Rightarrow> goerr + string \<times> string"

record ('v, 's) env = "'v klib" +
  op_now :: "'s \<Rightarrow> time \<times> 's"
  op_getJob :: "string \<Rightarrow> 's \<Rightarrow> (goerr + patchJob) \<times> 's"
  op_getPlan :: "string \<Rightarrow> 's \<Rightarrow> (goerr + patchPlan) \<times> 's"
  op_getNode :: "string \<Rightarrow> 's \<Rightarrow> (goerr + node) \<times> 's"
  op_getSecret :: "string \<Rightarrow> string \<Rightarrow> 's \<Rightarrow> (goerr + strmap) \<times> 's"
  op_getDaemonSet :: "string \<Rightarrow> string \<Rightarrow> 's \<Rightarrow> (goerr + daemonSet) \<times> 's"
  op_listNodes :: "labelSelector \<Rightarrow> 's \<Rightarrow> (goerr + node list) \<times> 's"
  op_listPods :: "string \<Rightarrow> 's \<Rightarrow> (goerr + pod list) \<times> 's"
  op_listNamespacedPods :: "string \<Rightarrow> string \<Rightarrow> 's \<Rightarrow> (goerr + pod list) \<times> 's"
  op_listJobs :: "string \<Rightarrow> 's \<Rightarrow> (goerr + patchJob list) \<times> 's"
  op_listLeases :: "string \<Rightarrow> string \<Rightarrow> 's \<Rightarrow> (goerr + lease list) \<times> 's"
  op_listPlans :: "'s \<Rightarrow> (goerr + patchPlan list) \<times> 's"
  op_listChildPlans :: "string \<Rightarrow> 's \<Rightarrow> (goerr + patchPlan list) \<times> 's"
  op_patchNode :: "node \<Rightarrow> node \<Rightarrow> 's \<Rightarrow> goerr option \<times> 's"
  op_evictPod :: "pod \<Rightarrow> 's \<Rightarrow> goerr option \<times> 's"
  op_deletePod :: "pod \<Rightarrow> 's \<Rightarrow> goerr option \<times> 's"
  op_patchJobStatus :: "patchJob \<Rightarrow> patchJob \<Rightarrow> 's \<Rightarrow> (goerr + patchJob) \<times> 's"
  op_patchPlanStatus :: "patchPlan \<Rightarrow> patchPlan \<Rightarrow> 's \<Rightarrow> (goerr + patchPlan) \<times> 's"
  op_patchPlan :: "patchPlan \<Rightarrow> patchPlan \<Rightarrow> 's \<Rightarrow> (goerr + patchPlan) \<times> 's"
  op_patchDaemonSet :: "daemonSet \<Rightarrow> daemonSet \<Rightarrow> 's \<Rightarrow> goerr option \<times> 's"
  op_createJob :: "patchJob \<Rightarrow> 's \<Rightarrow> (goerr + patchJob) \<times> 's"
  op_deleteJob :: "patchJob \<Rightarrow> 's \<Rightarrow> goerr option \<times> 's"
  op_createLease :: "lease \<Rightarrow> 's \<Rightarrow> goerr option \<times> 's"
  op_deleteLease :: "lease \<Rightarrow> 's \<Rightarrow> goerr option \<times> 's"
  op_createPlan :: "patchPlan \<Rightarrow> 's \<Rightarrow> goerr option \<times> 's"
  op_talosDial :: "string list \<Rightarrow> tlsConfig \<Rightarrow> 's \<Rightarrow> goerr option \<times> 's"
  op_talosClose :: "'s \<Rightarrow> goerr option \<times> 's"
  op_talosVersion :: "string option \<Rightarrow> 's \<Rightarrow> (goerr + string option list) \<times> 's"
  op_talosExtensions :: "string \<Rightarrow> 's \<Rightarrow> (goerr + (string \<times> string) option list) \<times> 's"
  op_talosUpgrade :: "string \<Rightarrow> upgradeOptions \<Rightarrow> 's \<Rightarrow> (goerr + nat) \<times> 's"
  op_talosGetConfig :: "string \<Rightarrow> 's \<Rightarrow> (goerr + string option) \<times> 's"
  op_talosApplyConfig :: "string \<Rightarrow> string \<Rightarrow> applyMode \<Rightarrow> 's \<Rightarrow> goerr option \<times> 's"
  op_serverVersion :: "'s \<Rightarrow> (goerr + string) \<times> 's"
  op_readyz :: "'s \<Rightarrow> goerr option \<times> 's"
  op_httpHead :: "string \<Rightarrow> string \<Rightarrow> 's \<Rightarrow> (goerr + nat \<times> string) \<times> 's"
  op_httpGet :: "string \<Rightarrow> 's \<Rightarrow> (goerr + nat \<times> (goerr + string)) \<times> 's"
  hasDiscovery :: bool
  retrySteps :: nat
  operatorNamespace :: string

record 's world =
  server :: 's
  calls :: "event list"
  transientSince :: "string \<Rightarrow> time option"

type_synonym ('s, 'a) io = "('s world, 'a) state"

definition perform :: "('s \<Rightarrow> 'a \<times> 's) \<Rightarrow> ('a \<Rightarrow> event) \<Rightarrow> ('s, 'a) io" where
  "perform f ev = State (\<lambda>w. case f (server w) of
     (a, s) \<Rightarrow> (a, w\<lparr>server := s, calls := calls w @ [ev a]\<rparr>))"

text \<open>\<open>sync.Map.LoadOrStore\<close> and \<open>sync.Map.Delete\<close> on \<open>transientSince\<close>\<close>

definition loadOrStoreSince :: "string \<Rightarrow> time \<Rightarrow> ('s, time) io" where
  "loadOrStoreSince key now = State (\<lambda>w. case transientSince w key of
     Some t \<Rightarrow> (t, w)
   | None \<Rightarrow> (now, w\<lparr>transientSince := (transientSince w)(key \<mapsto> now)\<rparr>))"

definition deleteSince :: "string \<Rightarrow> ('s, unit) io" where
  "deleteSince key = State (\<lambda>w. ((), w\<lparr>transientSince := (transientSince w)(key := None)\<rparr>))"

abbreviation "timeNow E \<equiv> perform (op_now E) EvNow"
abbreviation "getJob E n \<equiv> perform (op_getJob E n) (EvGetJob n)"
abbreviation "getPlan E n \<equiv> perform (op_getPlan E n) (EvGetPlan n)"
abbreviation "getNode E n \<equiv> perform (op_getNode E n) (EvGetNode n)"
abbreviation "getSecret E ns n \<equiv> perform (op_getSecret E ns n) (EvGetSecret ns n)"
abbreviation "getDaemonSet E ns n \<equiv> perform (op_getDaemonSet E ns n) (EvGetDaemonSet ns n)"
abbreviation "listNodes E sel \<equiv> perform (op_listNodes E sel) (EvListNodes sel)"
abbreviation "listNodePods E n \<equiv> perform (op_listPods E n) (EvListPods n)"
abbreviation "listNamespacedPods E ns n \<equiv> perform (op_listNamespacedPods E ns n) (EvListNamespacedPods ns n)"
abbreviation "listJobs E p \<equiv> perform (op_listJobs E p) (EvListJobs p)"
abbreviation "listLeases E ns p \<equiv> perform (op_listLeases E ns p) (EvListLeases ns p)"
abbreviation "listPlans E \<equiv> perform (op_listPlans E) EvListPlans"
abbreviation "listChildPlans E p \<equiv> perform (op_listChildPlans E p) (EvListChildPlans p)"
abbreviation "patchNode E base n \<equiv> perform (op_patchNode E base n) (EvPatchNode base n)"
abbreviation "createEviction E p \<equiv> perform (op_evictPod E p) (EvEvictPod p)"
abbreviation "deletePodCall E p \<equiv> perform (op_deletePod E p) (EvDeletePod p)"
abbreviation "patchJobStatus E base j \<equiv> perform (op_patchJobStatus E base j) (EvPatchJobStatus base j)"
abbreviation "patchPlanStatus E base p \<equiv> perform (op_patchPlanStatus E base p) (EvPatchPlanStatus base p)"
abbreviation "patchPlanObject E base p \<equiv> perform (op_patchPlan E base p) (EvPatchPlan base p)"
abbreviation "patchDaemonSet E base d \<equiv> perform (op_patchDaemonSet E base d) (EvPatchDaemonSet base d)"
abbreviation "createJob E j \<equiv> perform (op_createJob E j) (EvCreateJob j)"
abbreviation "deleteJob E j \<equiv> perform (op_deleteJob E j) (EvDeleteJob j)"
abbreviation "createLease E l \<equiv> perform (op_createLease E l) (EvCreateLease l)"
abbreviation "deleteLease E l \<equiv> perform (op_deleteLease E l) (EvDeleteLease l)"
abbreviation "createPlan E p \<equiv> perform (op_createPlan E p) (EvCreatePlan p)"
abbreviation "talosDial E es t \<equiv> perform (op_talosDial E es t) (EvTalosDial es t)"
abbreviation "talosClose E \<equiv> perform (op_talosClose E) EvTalosClose"
abbreviation "talosVersion E n \<equiv> perform (op_talosVersion E n) (EvTalosVersion n)"
abbreviation "talosExtensions E n \<equiv> perform (op_talosExtensions E n) (EvTalosExtensions n)"
abbreviation "talosUpgrade E n opts \<equiv> perform (op_talosUpgrade E n opts) (EvTalosUpgrade n opts)"
abbreviation "talosGetConfig E n \<equiv> perform (op_talosGetConfig E n) (EvTalosGetConfig n)"
abbreviation "talosApplyConfig E n d md \<equiv> perform (op_talosApplyConfig E n d md) (EvTalosApplyConfig n d md)"
abbreviation "serverVersion E \<equiv> perform (op_serverVersion E) EvServerVersion"
abbreviation "readyz E \<equiv> perform (op_readyz E) EvReadyz"
abbreviation "httpHead E u t \<equiv> perform (op_httpHead E u t) (EvHttpHead u t)"
abbreviation "httpGet E u \<equiv> perform (op_httpGet E u) (EvHttpGet u)"

abbreviation "return \<equiv> State_Monad.return"

lemma run_state_perform [simp]:
  "run_state (perform f ev) w =
     (fst (f (server w)), w\<lparr>server := snd (f (server w)), calls := calls w @ [ev (fst (f (server w)))]\<rparr>)"
  by (simp add: perform_def split: prod.splits)

section \<open>Reasoning about every environment\<close>

text \<open>
  \<open>runs h m Q\<close>: from any world, \<open>m\<close> only appends to the call history, and when
  \<open>h\<close> stands for the calls already made, its result and the extended history satisfy
  \<open>Q\<close>. Nothing is assumed about the answers, so a fact proved with \<open>runs\<close> holds for
  every behaviour of the outside. The rules below reduce \<open>runs\<close> to its continuation.
\<close>

definition runs :: "event list \<Rightarrow> ('s, 'a) io \<Rightarrow> ('a \<Rightarrow> event list \<Rightarrow> bool) \<Rightarrow> bool" where
  "runs h m Q \<longleftrightarrow>
     (\<forall>w. \<exists>es. calls (snd (run_state m w)) = calls w @ es \<and> Q (fst (run_state m w)) (h @ es))"

named_theorems runs_rules "backward rules for runs"

lemma runsI:
  assumes "\<And>w. \<exists>es. calls (snd (run_state m w)) = calls w @ es \<and> Q (fst (run_state m w)) (h @ es)"
  shows "runs h m Q"
  using assms by (simp add: runs_def)

lemma runsE:
  assumes "runs h m Q"
  obtains es where "calls (snd (run_state m w)) = calls w @ es" and "Q (fst (run_state m w)) (h @ es)"
  using assms by (auto simp: runs_def)

lemma runs_return [runs_rules]: "Q a h \<Longrightarrow> runs h (return a) Q"
  by (simp add: runs_def)

lemma runs_bind [runs_rules]:
  assumes "runs h m (\<lambda>a h'. runs h' (f a) Q)"
  shows "runs h (State_Monad.bind m f) Q"
proof (rule runsI)
  fix w
  obtain a w' where m: "run_state m w = (a, w')" by fastforce
  obtain es where es: "calls w' = calls w @ es" and f: "runs (h @ es) (f a) Q"
    using runsE [OF assms, of w] m by (metis fst_conv snd_conv)
  obtain es' where "calls (snd (run_state (f a) w')) = calls w' @ es'"
    and "Q (fst (run_state (f a) w')) ((h @ es) @ es')"
    by (rule runsE [OF f])
  then show "\<exists>es. calls (snd (run_state (State_Monad.bind m f) w)) = calls w @ es
                \<and> Q (fst (run_state (State_Monad.bind m f) w)) (h @ es)"
    using m es by (intro exI [of _ "es @ es'"]) simp
qed

lemma runs_perform [runs_rules]: "(\<And>a. Q a (h @ [ev a])) \<Longrightarrow> runs h (perform f ev) Q"
  by (simp add: runs_def)

lemma runs_loadOrStoreSince [runs_rules]: "(\<And>t. Q t h) \<Longrightarrow> runs h (loadOrStoreSince k now) Q"
  by (simp add: runs_def loadOrStoreSince_def split: option.splits)

lemma runs_deleteSince [runs_rules]: "Q () h \<Longrightarrow> runs h (deleteSince k) Q"
  by (simp add: runs_def deleteSince_def)

lemma runs_if [runs_rules]:
  "(b \<Longrightarrow> runs h m Q) \<Longrightarrow> (\<not> b \<Longrightarrow> runs h n Q) \<Longrightarrow> runs h (if b then m else n) Q"
  by simp

lemma runs_sum [runs_rules]:
  "(\<And>e. x = Inl e \<Longrightarrow> runs h (f e) Q) \<Longrightarrow> (\<And>a. x = Inr a \<Longrightarrow> runs h (g a) Q) \<Longrightarrow>
   runs h (case x of Inl e \<Rightarrow> f e | Inr a \<Rightarrow> g a) Q"
  by (cases x) simp_all

lemma runs_option [runs_rules]:
  "(x = None \<Longrightarrow> runs h m Q) \<Longrightarrow> (\<And>a. x = Some a \<Longrightarrow> runs h (f a) Q) \<Longrightarrow>
   runs h (case x of None \<Rightarrow> m | Some a \<Rightarrow> f a) Q"
  by (cases x) simp_all

lemma runs_prod [runs_rules]:
  "(\<And>a b. x = (a, b) \<Longrightarrow> runs h (f a b) Q) \<Longrightarrow> runs h (case x of (a, b) \<Rightarrow> f a b) Q"
  by (cases x) simp

lemma runs_Let [runs_rules]: "(\<And>a. a = x \<Longrightarrow> runs h (f a) Q) \<Longrightarrow> runs h (Let x f) Q"
  by (simp add: Let_def)

lemma runs_mono:
  assumes "runs h m P" and "\<And>a h'. P a h' \<Longrightarrow> Q a h'"
  shows "runs h m Q"
  using assms by (fastforce simp: runs_def)

lemma runs_conj: "runs h m P \<Longrightarrow> runs h m Q \<Longrightarrow> runs h m (\<lambda>a h'. P a h' \<and> Q a h')"
  unfolding runs_def by (metis same_append_eq)

text \<open>A fact about the calls alone, put behind the calls already made.\<close>

lemma runs_frame:
  assumes "runs [] m P" and "\<And>a es. P a es \<Longrightarrow> Q a (h @ es)"
  shows "runs h m Q"
  using assms unfolding runs_def by fastforce

text \<open>
  \<open>emits P m\<close>: every call \<open>m\<close> makes satisfies \<open>P\<close>. It composes without looking at
  the history, so it is the form in which safety of single calls is proved.
\<close>

definition emits :: "(event \<Rightarrow> bool) \<Rightarrow> ('s, 'a) io \<Rightarrow> bool" where
  "emits P m \<longleftrightarrow> (\<forall>h. runs h m (\<lambda>_ h'. \<exists>es. h' = h @ es \<and> list_all P es))"

named_theorems emits_rules "composition rules for emits"

lemma emits_runs: "emits P m \<Longrightarrow> runs h m (\<lambda>_ h'. \<exists>es. h' = h @ es \<and> list_all P es)"
  by (simp add: emits_def)

lemma runs_emits:
  assumes "emits P m" and "\<And>a es. list_all P es \<Longrightarrow> Q a (h @ es)"
  shows "runs h m Q"
  using assms(2) by (intro runs_mono [OF emits_runs [OF assms(1)]]) auto

lemma emitsD:
  assumes "emits P m"
  obtains es where "calls (snd (run_state m w)) = calls w @ es" and "list_all P es"
  using runsE [OF emits_runs [OF assms, of "[]"], of w] by auto

lemma emits_return [emits_rules]: "emits P (return a)"
  by (auto simp: emits_def intro: runs_return)

lemma emits_bind [emits_rules]:
  assumes "emits P m" and "\<And>a. emits P (f a)"
  shows "emits P (State_Monad.bind m f)"
proof -
  have "runs h (State_Monad.bind m f) (\<lambda>_ h'. \<exists>es. h' = h @ es \<and> list_all P es)" for h
  proof (rule runs_bind, rule runs_mono [OF emits_runs [OF assms(1)]])
    fix a h'
    assume "\<exists>es. h' = h @ es \<and> list_all P es"
    then obtain es where h': "h' = h @ es" "list_all P es" by blast
    show "runs h' (f a) (\<lambda>_ h'. \<exists>es. h' = h @ es \<and> list_all P es)"
      using h' by (intro runs_mono [OF emits_runs [OF assms(2)]]) auto
  qed
  then show ?thesis by (simp add: emits_def)
qed

text \<open>Composition that keeps a fact about the first result.\<close>

lemma emits_bind_post:
  assumes m: "emits P m" and R: "\<And>h. runs h m (\<lambda>a _. R a)" and f: "\<And>a. R a \<Longrightarrow> emits P (f a)"
  shows "emits P (State_Monad.bind m f)"
proof -
  have "runs h (State_Monad.bind m f) (\<lambda>_ h'. \<exists>es. h' = h @ es \<and> list_all P es)" for h
  proof (rule runs_bind, rule runs_mono [OF runs_conj [OF emits_runs [OF m] R]])
    fix a h'
    assume A: "(\<exists>es. h' = h @ es \<and> list_all P es) \<and> R a"
    then obtain es where h': "h' = h @ es" "list_all P es" by blast
    have "emits P (f a)" using A f by blast
    then show "runs h' (f a) (\<lambda>_ h'. \<exists>es. h' = h @ es \<and> list_all P es)"
      using h' by (intro runs_mono [OF emits_runs]) auto
  qed
  then show ?thesis by (simp add: emits_def)
qed

lemma emits_perform [emits_rules]: "(\<And>a. P (ev a)) \<Longrightarrow> emits P (perform f ev)"
  by (auto simp: emits_def intro: runs_perform)

lemma emits_loadOrStoreSince [emits_rules]: "emits P (loadOrStoreSince k now)"
  by (auto simp: emits_def intro: runs_loadOrStoreSince)

lemma emits_deleteSince [emits_rules]: "emits P (deleteSince k)"
  by (auto simp: emits_def intro: runs_deleteSince)

lemma emits_if [emits_rules]:
  "(b \<Longrightarrow> emits P m) \<Longrightarrow> (\<not> b \<Longrightarrow> emits P n) \<Longrightarrow> emits P (if b then m else n)"
  by simp

lemma emits_sum [emits_rules]:
  "(\<And>e. x = Inl e \<Longrightarrow> emits P (f e)) \<Longrightarrow> (\<And>a. x = Inr a \<Longrightarrow> emits P (g a)) \<Longrightarrow>
   emits P (case x of Inl e \<Rightarrow> f e | Inr a \<Rightarrow> g a)"
  by (cases x) simp_all

lemma emits_option [emits_rules]:
  "(x = None \<Longrightarrow> emits P m) \<Longrightarrow> (\<And>a. x = Some a \<Longrightarrow> emits P (f a)) \<Longrightarrow>
   emits P (case x of None \<Rightarrow> m | Some a \<Rightarrow> f a)"
  by (cases x) simp_all

lemma emits_prod [emits_rules]:
  "(\<And>a b. x = (a, b) \<Longrightarrow> emits P (f a b)) \<Longrightarrow> emits P (case x of (a, b) \<Rightarrow> f a b)"
  by (cases x) simp

lemma emits_Let [emits_rules]: "(\<And>a. a = x \<Longrightarrow> emits P (f a)) \<Longrightarrow> emits P (Let x f)"
  by (simp add: Let_def)

lemma emits_mono:
  assumes "emits P m" and "\<And>e. P e \<Longrightarrow> Q e"
  shows "emits Q m"
  unfolding emits_def
proof
  fix h
  show "runs h m (\<lambda>_ h'. \<exists>es. h' = h @ es \<and> list_all Q es)"
    using assms(2) by (intro runs_mono [OF emits_runs [OF assms(1), of h]]) (auto simp: list_all_iff)
qed

end
