(* ===== verification/NodeUtil.thy ===== *)
theory NodeUtil imports Effects begin

text \<open>
  \<open>internal/nodeutil\<close>: the address and the role of a node, and listing the nodes a plan selects.
\<close>

fun GetNodeInternalIP_loop :: "string \<Rightarrow> (string \<times> string) list \<Rightarrow> goerr + string" where
  "GetNodeInternalIP_loop name [] =
     Inl (TextError (''no InternalIP address found for node '' @ name))"
| "GetNodeInternalIP_loop name ((ty, addr) # rest) =
     (if ty = ''InternalIP'' then Inr addr else GetNodeInternalIP_loop name rest)"

definition GetNodeInternalIP :: "node \<Rightarrow> goerr + string" where
  "GetNodeInternalIP n = GetNodeInternalIP_loop (node_Name n) (Addresses n)"

definition IsControlPlane :: "node \<Rightarrow> bool" where
  "IsControlPlane n \<longleftrightarrow> map_of (node_Labels n) ''node-role.kubernetes.io/control-plane'' \<noteq> None"

definition emptySelector :: labelSelector where
  "emptySelector = \<lparr>MatchLabels = [], MatchExpressions = []\<rparr>"

definition ListMatchingNodes ::
  "('v, 's) env \<Rightarrow> labelSelector option \<Rightarrow> ('s, goerr + node list) io" where
  "ListMatchingNodes E nodeSelector =
     (let selector = (case nodeSelector of None \<Rightarrow> emptySelector | Some s \<Rightarrow> s)
      in case asSelector E selector of
           Inl err \<Rightarrow> return (Inl (wrapErr ''invalid nodeSelector'' err))
         | Inr _ \<Rightarrow> listNodes E selector)"

lemma GetNodeInternalIP_loop_Inr:
  "GetNodeInternalIP_loop name as = Inr a \<Longrightarrow> (''InternalIP'', a) \<in> set as"
  by (induction as rule: GetNodeInternalIP_loop.induct) (auto split: if_splits)

lemma emits_ListMatchingNodes [emits_rules]:
  "(\<And>sel r. P (EvListNodes sel r)) \<Longrightarrow> emits P (ListMatchingNodes E sel)"
  unfolding ListMatchingNodes_def by (intro emits_rules)

lemma runs_ListMatchingNodes [runs_rules]:
  assumes "\<And>e. Q (Inl e) h" and "\<And>sel r. Q r (h @ [EvListNodes sel r])"
  shows "runs h (ListMatchingNodes E sel) Q"
  unfolding ListMatchingNodes_def using assms by (intro runs_rules)

end
