(* ===== verification/Scheduling.thy ===== *)
theory Scheduling imports NodeUtil begin

text \<open>
  \<open>internal/scheduling\<close>: which group of \<open>strategy.order\<close> schedules each selected node, and the
  two checks on the resulting rollout (control plane before workers, etcd quorum).
\<close>

section \<open>Data\<close>

record rolloutGroup =
  grp_Name :: string
  grp_Concurrency :: int
  grp_Nodes :: "node list"

record rollout =
  rollout_Groups :: "rolloutGroup list"
  Selected :: nat
  Unassigned :: "string list"

record groupMatcher =
  m_name :: string
  m_concurrency :: int
  m_selector :: "(strmap \<Rightarrow> bool) option"

section \<open>Operations\<close>

definition DefaultOrder :: "string list" where
  "DefaultOrder = [GroupControlPlane, GroupWorkers]"

definition Order :: "planSpec \<Rightarrow> string list" where
  "Order spec = (if strategy_Order (Strategy spec) = [] then DefaultOrder else strategy_Order (Strategy spec))"

definition isBuiltin :: "string \<Rightarrow> bool" where
  "isBuiltin name \<longleftrightarrow> name = GroupControlPlane \<or> name = GroupWorkers"

text \<open>
  A matcher of a custom group always carries a selector (\<open>compileGroups_selectors\<close> below), so
  the last branch stands for a nil dereference that cannot happen.
\<close>

definition matches :: "groupMatcher \<Rightarrow> node \<Rightarrow> bool" where
  "matches m n =
     (if m_name m = GroupControlPlane then IsControlPlane n
      else if m_name m = GroupWorkers then \<not> IsControlPlane n
      else (case m_selector m of Some sel \<Rightarrow> sel (node_Labels n) | None \<Rightarrow> False))"

fun builtinErrors :: "(string \<times> groupSpec) list \<Rightarrow> goerr list" where
  "builtinErrors [] = []"
| "builtinErrors ((name, g) # rest) =
     (if isBuiltin name \<and> Selector g \<noteq> None
      then TextError (''group '' @ quoted name @ '' is built in and cannot have a selector'') # builtinErrors rest
      else builtinErrors rest)"

text \<open>Reading a missing key of \<open>groups\<close> gives the zero \<open>GroupSpec\<close>.\<close>

definition groupOrZero :: "(string \<times> groupSpec) list \<Rightarrow> string \<Rightarrow> groupSpec" where
  "groupOrZero groups name =
     (case map_of groups name of Some g \<Rightarrow> g | None \<Rightarrow> \<lparr>Selector = None, group_Concurrency = 0\<rparr>)"

definition compileGroup ::
  "('v, 'm) klib_scheme \<Rightarrow> (string \<times> groupSpec) list \<Rightarrow> string \<Rightarrow> goerr + groupMatcher" where
  "compileGroup K groups name =
     (let spec = groupOrZero groups name;
          m = \<lparr>m_name = name, m_concurrency = max (group_Concurrency spec) 1, m_selector = None\<rparr>
      in if \<not> isBuiltin name then
           if map_of groups name = None then
             Inl (TextError (''strategy.order lists group '' @ quoted name @ '' which is neither built in (''
               @ GroupControlPlane @ '', '' @ GroupWorkers @ '') nor declared under groups''))
           else if labelValueErrors K name \<noteq> [] then
             Inl (TextError (''group name '' @ quoted name @ '' is not usable as a label value: ''
               @ joinStrings ''; '' (labelValueErrors K name)))
           else (case Selector spec of
               None \<Rightarrow> Inl (TextError (''group '' @ quoted name @ '' needs a selector''))
             | Some s \<Rightarrow> (case asSelector K s of
                   Inl err \<Rightarrow> Inl (wrapErr (''group '' @ quoted name @ '' has an invalid selector'') err)
                 | Inr sel \<Rightarrow> Inr (m\<lparr>m_selector := Some sel\<rparr>)))
         else Inr m)"

fun compileOrder ::
  "('v, 'm) klib_scheme \<Rightarrow> (string \<times> groupSpec) list \<Rightarrow> string list \<Rightarrow> string list \<Rightarrow> goerr list \<times> groupMatcher list"
where
  "compileOrder K groups seen [] = ([], [])"
| "compileOrder K groups seen (name # rest) =
     (if name \<in> set seen then
        (case compileOrder K groups seen rest of (errs, ms) \<Rightarrow>
           (TextError (''strategy.order lists group '' @ quoted name @ '' more than once'') # errs, ms))
      else
        (case compileOrder K groups (name # seen) rest of (errs, ms) \<Rightarrow>
           (case compileGroup K groups name of
              Inl err \<Rightarrow> (err # errs, ms)
            | Inr m \<Rightarrow> (errs, m # ms))))"

definition compileGroups ::
  "('v, 'm) klib_scheme \<Rightarrow> string list \<Rightarrow> (string \<times> groupSpec) list \<Rightarrow> goerr + groupMatcher list" where
  "compileGroups K order groups =
     (case compileOrder K groups [] order of (errs, matchers) \<Rightarrow>
        let errs = builtinErrors groups @ errs
        in if errs \<noteq> [] then Inl (TextError (joinStrings [CHR 0x0A] (map errText errs)))
           else Inr matchers)"

fun uniqueNodes :: "string list \<Rightarrow> node list \<Rightarrow> node list" where
  "uniqueNodes seen [] = []"
| "uniqueNodes seen (n # ns) =
     (if node_Name n \<in> set seen then uniqueNodes seen ns
      else n # uniqueNodes (node_Name n # seen) ns)"

definition nodeCompare :: "node \<Rightarrow> node \<Rightarrow> int" where
  "nodeCompare a b =
     (if IsControlPlane a \<and> \<not> IsControlPlane b then -1
      else if \<not> IsControlPlane a \<and> IsControlPlane b then 1
      else strCompare (node_Name a) (node_Name b))"

text \<open>The inner loop of \<open>Resolve\<close>: the nodes one matcher takes, and the names claimed so far.\<close>

fun claimNodes :: "groupMatcher \<Rightarrow> string list \<Rightarrow> node list \<Rightarrow> node list \<times> string list" where
  "claimNodes m claimed [] = ([], claimed)"
| "claimNodes m claimed (n # ns) =
     (if node_Name n \<in> set claimed then claimNodes m claimed ns
      else if matches m n then
        (case claimNodes m (node_Name n # claimed) ns of (taken, claimed') \<Rightarrow> (n # taken, claimed'))
      else claimNodes m claimed ns)"

fun assignGroups :: "groupMatcher list \<Rightarrow> string list \<Rightarrow> node list \<Rightarrow> rolloutGroup list \<times> string list" where
  "assignGroups [] claimed unique = ([], claimed)"
| "assignGroups (m # ms) claimed unique =
     (case claimNodes m claimed unique of (taken, claimed') \<Rightarrow>
        (case assignGroups ms claimed' unique of (gs, claimed'') \<Rightarrow>
           (\<lparr>grp_Name = m_name m, grp_Concurrency = m_concurrency m, grp_Nodes = taken\<rparr> # gs, claimed'')))"

definition Resolve :: "('v, 'm) klib_scheme \<Rightarrow> node list \<Rightarrow> planSpec \<Rightarrow> goerr + rollout" where
  "Resolve K nodes spec =
     (case compileGroups K (Order spec) (Groups spec) of
        Inl err \<Rightarrow> Inl err
      | Inr matchers \<Rightarrow>
          (let unique = sortFunc nodeCompare (uniqueNodes [] nodes)
           in case assignGroups matchers [] unique of (groups, claimed) \<Rightarrow>
                Inr \<lparr>rollout_Groups = groups, Selected = length unique,
                     Unassigned = map node_Name (filter (\<lambda>n. node_Name n \<notin> set claimed) unique)\<rparr>))"

definition Nodes :: "rollout \<Rightarrow> node list" where
  "Nodes r = concat (map grp_Nodes (rollout_Groups r))"

definition Total :: "rollout \<Rightarrow> nat" where
  "Total r = sum_list (map (\<lambda>g. length (grp_Nodes g)) (rollout_Groups r))"

definition ControlPlaneNodes :: "rollout \<Rightarrow> node list" where
  "ControlPlaneNodes r = concat (map (\<lambda>g. filter IsControlPlane (grp_Nodes g)) (rollout_Groups r))"

fun quorumLoop :: "nat \<Rightarrow> int \<Rightarrow> rolloutGroup list \<Rightarrow> goerr option" where
  "quorumLoop n limit [] = None"
| "quorumLoop n limit (g # gs) =
     (let cp = int (length (filter IsControlPlane (grp_Nodes g)));
          at = min (grp_Concurrency g) cp
      in if at > 1 \<and> at \<ge> limit then
           Some (TextError (''group '' @ quoted (grp_Name g) @ '' upgrades '' @ showInt at @ '' of ''
             @ showInt (int n) @ '' control plane nodes at once, which can break etcd quorum; use concurrency below ''
             @ showInt limit))
         else quorumLoop n limit gs)"

definition CheckControlPlaneQuorum :: "rollout \<Rightarrow> goerr option" where
  "CheckControlPlaneQuorum r =
     (let n = length (ControlPlaneNodes r); limit = (int n + 1) div 2
      in quorumLoop n limit (rollout_Groups r))"

fun GroupOf_loop :: "string \<Rightarrow> rolloutGroup list \<Rightarrow> string \<times> bool" where
  "GroupOf_loop nodeName [] = ('''', False)"
| "GroupOf_loop nodeName (g # gs) =
     (if nodeName \<in> set (map node_Name (grp_Nodes g)) then (grp_Name g, True)
      else GroupOf_loop nodeName gs)"

definition GroupOf :: "rollout \<Rightarrow> string \<Rightarrow> string \<times> bool" where
  "GroupOf r nodeName = GroupOf_loop nodeName (rollout_Groups r)"

definition scanNode :: "int \<Rightarrow> int \<times> int \<Rightarrow> node \<Rightarrow> int \<times> int" where
  "scanNode i acc n =
     (case acc of (lastControlPlane, firstWorker) \<Rightarrow>
        if IsControlPlane n then (i, firstWorker)
        else if i < firstWorker then (lastControlPlane, i)
        else (lastControlPlane, firstWorker))"

fun scanGroups :: "int \<Rightarrow> int \<times> int \<Rightarrow> rolloutGroup list \<Rightarrow> int \<times> int" where
  "scanGroups i acc [] = acc"
| "scanGroups i acc (g # gs) = scanGroups (i + 1) (foldl (scanNode i) acc (grp_Nodes g)) gs"

definition CheckControlPlaneFirst :: "rollout \<Rightarrow> goerr option" where
  "CheckControlPlaneFirst r =
     (let n = int (length (rollout_Groups r))
      in case scanGroups 0 (-1, n) (rollout_Groups r) of (lastControlPlane, firstWorker) \<Rightarrow>
           if lastControlPlane < 0 \<or> firstWorker = n then None
           else if firstWorker < lastControlPlane then
             Some (TextError (''strategy.order schedules group ''
               @ quoted (grp_Name (rollout_Groups r ! nat firstWorker)) @ '' (worker nodes) before group ''
               @ quoted (grp_Name (rollout_Groups r ! nat lastControlPlane)) @ '' (control plane nodes)''))
           else if firstWorker = lastControlPlane then
             Some (TextError (''group '' @ quoted (grp_Name (rollout_Groups r ! nat firstWorker))
               @ '' schedules both control plane and worker nodes''))
           else None)"

section \<open>Node order\<close>

interpretation nodeOrder: comparator nodeCompare
proof
  show "nodeCompare a b \<le> 0 \<or> nodeCompare b a \<le> 0" for a b
    using strOrder.cmp_total [of "node_Name a" "node_Name b"] by (auto simp: nodeCompare_def)
next
  fix a b c
  assume "nodeCompare a b \<le> 0" "nodeCompare b c \<le> 0"
  then show "nodeCompare a c \<le> 0"
    using strOrder.cmp_trans [of "node_Name a" "node_Name b" "node_Name c"]
    by (auto simp: nodeCompare_def split: if_splits)
qed

lemma nodeCompare_antisym:
  "nodeCompare a b \<le> 0 \<Longrightarrow> nodeCompare b a \<le> 0 \<Longrightarrow> node_Name a = node_Name b"
  using strCompare_swap [of "node_Name a" "node_Name b"]
  by (auto simp: nodeCompare_def strCompare_eq_0 split: if_splits)

section \<open>Validation of the strategy\<close>

text \<open>What a valid \<open>strategy.order\<close> and \<open>groups\<close> are, without the order of the checks.\<close>

definition validGroup :: "('v, 'm) klib_scheme \<Rightarrow> (string \<times> groupSpec) list \<Rightarrow> string \<Rightarrow> bool" where
  "validGroup K groups name \<longleftrightarrow>
     isBuiltin name \<or>
     (case map_of groups name of None \<Rightarrow> False
      | Some g \<Rightarrow> labelValueErrors K name = [] \<and>
          (case Selector g of None \<Rightarrow> False | Some s \<Rightarrow> \<not> isl (asSelector K s)))"

definition validStrategy :: "('v, 'm) klib_scheme \<Rightarrow> string list \<Rightarrow> (string \<times> groupSpec) list \<Rightarrow> bool" where
  "validStrategy K order groups \<longleftrightarrow>
     distinct order \<and> list_all (validGroup K groups) order \<and>
     list_all (\<lambda>(name, g). isBuiltin name \<longrightarrow> Selector g = None) groups"

lemma builtinErrors_Nil:
  "builtinErrors groups = [] \<longleftrightarrow> list_all (\<lambda>(name, g). isBuiltin name \<longrightarrow> Selector g = None) groups"
  by (induction groups rule: builtinErrors.induct) auto

lemma compileGroup_valid: "(\<exists>m. compileGroup K groups name = Inr m) \<longleftrightarrow> validGroup K groups name"
  by (auto simp: compileGroup_def validGroup_def groupOrZero_def Let_def isl_def
      split: option.splits sum.splits)

lemma compileGroup_selector:
  "compileGroup K groups name = Inr m \<Longrightarrow> \<not> isBuiltin name \<Longrightarrow> m_selector m \<noteq> None"
  by (simp add: compileGroup_def Let_def split: option.splits sum.splits if_splits) auto

lemma compileGroup_name: "compileGroup K groups name = Inr m \<Longrightarrow> m_name m = name \<and> 1 \<le> m_concurrency m"
  by (auto simp: compileGroup_def Let_def split: option.splits sum.splits if_splits)

lemma compileOrder_errs:
  "fst (compileOrder K groups seen order) = [] \<longleftrightarrow>
     distinct order \<and> set order \<inter> set seen = {} \<and> list_all (validGroup K groups) order"
proof (induction order arbitrary: seen)
  case Nil
  then show ?case by simp
next
  case (Cons name rest)
  show ?case
  proof (cases "name \<in> set seen")
    case True
    then show ?thesis by (simp split: prod.splits)
  next
    case False
    then show ?thesis
      using Cons [of "name # seen"] compileGroup_valid [of K groups name]
      by (cases "compileGroup K groups name") (auto split: prod.splits)
  qed
qed

lemma compileOrder_matchers:
  "fst (compileOrder K groups seen order) = [] \<Longrightarrow>
     list_all2 (\<lambda>name m. compileGroup K groups name = Inr m) order (snd (compileOrder K groups seen order))"
proof (induction order arbitrary: seen)
  case (Cons name rest)
  obtain errs ms where rest: "compileOrder K groups (name # seen) rest = (errs, ms)" by fastforce
  show ?case
    using Cons.prems Cons.IH [of "name # seen"] rest
    by (cases "compileGroup K groups name") (auto split: prod.splits if_splits)
qed simp

lemma compileGroups_Inr:
  assumes "compileGroups K order groups = Inr ms"
  shows "validStrategy K order groups"
    and "list_all2 (\<lambda>name m. compileGroup K groups name = Inr m) order ms"
proof -
  obtain errs where c: "compileOrder K groups [] order = (errs, ms)" and "errs = []" "builtinErrors groups = []"
    using assms by (auto simp: compileGroups_def Let_def split: prod.splits if_splits)
  then show "validStrategy K order groups"
    using compileOrder_errs [of K groups "[]" order] by (simp add: validStrategy_def builtinErrors_Nil)
  show "list_all2 (\<lambda>name m. compileGroup K groups name = Inr m) order ms"
    using compileOrder_matchers [of K groups "[]" order] c \<open>errs = []\<close> by simp
qed

lemma compileGroups_isl: "isl (compileGroups K order groups) \<longleftrightarrow> \<not> validStrategy K order groups"
proof -
  obtain errs ms where c: "compileOrder K groups [] order = (errs, ms)" by fastforce
  then have "errs = [] \<longleftrightarrow> distinct order \<and> list_all (validGroup K groups) order"
    using compileOrder_errs [of K groups "[]" order] by simp
  then show ?thesis
    using c by (auto simp: compileGroups_def Let_def validStrategy_def builtinErrors_Nil)
qed

lemma compileGroups_selectors:
  assumes "compileGroups K order groups = Inr ms" and "m \<in> set ms" and "\<not> isBuiltin (m_name m)"
  shows "m_selector m \<noteq> None"
proof -
  obtain name where name: "compileGroup K groups name = Inr m"
    using list_all2_ex_left [OF compileGroups_Inr(2) [OF assms(1)] assms(2)] by blast
  then have "m_name m = name" by (simp add: compileGroup_name)
  with name show ?thesis using assms(3) compileGroup_selector by metis
qed

section \<open>The rollout\<close>

text \<open>Which nodes a group's entry in \<open>strategy.order\<close> stands for.\<close>

definition inGroup :: "('v, 'm) klib_scheme \<Rightarrow> (string \<times> groupSpec) list \<Rightarrow> string \<Rightarrow> node \<Rightarrow> bool" where
  "inGroup K groups name n =
     (if name = GroupControlPlane then IsControlPlane n
      else if name = GroupWorkers then \<not> IsControlPlane n
      else (case map_of groups name of None \<Rightarrow> False
            | Some g \<Rightarrow> (case Selector g of None \<Rightarrow> False
                | Some s \<Rightarrow> (case asSelector K s of Inl _ \<Rightarrow> False | Inr sel \<Rightarrow> sel (node_Labels n)))))"

lemma compileGroup_matches: "compileGroup K groups name = Inr m \<Longrightarrow> matches m n = inGroup K groups name n"
  by (simp add: compileGroup_def matches_def inGroup_def isBuiltin_def groupOrZero_def Let_def
      split: option.splits sum.splits if_splits) auto

lemma compileGroups_nth:
  assumes "compileGroups K order groups = Inr ms"
  shows "length ms = length order"
    and "i < length order \<Longrightarrow> m_name (ms ! i) = order ! i"
    and "i < length order \<Longrightarrow> 1 \<le> m_concurrency (ms ! i)"
    and "i < length order \<Longrightarrow> matches (ms ! i) n = inGroup K groups (order ! i) n"
proof -
  show len: "length ms = length order"
    using compileGroups_Inr(2) [OF assms] by (simp add: list_all2_conv_all_nth)
  assume i: "i < length order"
  then have c: "compileGroup K groups (order ! i) = Inr (ms ! i)"
    using compileGroups_Inr(2) [OF assms] by (simp add: list_all2_conv_all_nth)
  show "m_name (ms ! i) = order ! i" and "1 \<le> m_concurrency (ms ! i)"
    using compileGroup_name [OF c] by simp_all
  show "matches (ms ! i) n = inGroup K groups (order ! i) n" by (rule compileGroup_matches [OF c])
qed

lemma uniqueNodes_names:
  "distinct (map node_Name (uniqueNodes seen ns))"
  "node_Name ` set (uniqueNodes seen ns) = node_Name ` set ns - set seen"
  by (induction seen ns rule: uniqueNodes.induct) auto

lemma uniqueNodes_subset: "set (uniqueNodes seen ns) \<subseteq> set ns"
  by (induction seen ns rule: uniqueNodes.induct) auto

lemma uniqueNodes_id:
  "distinct (map node_Name ns) \<Longrightarrow> node_Name ` set ns \<inter> set seen = {} \<Longrightarrow> uniqueNodes seen ns = ns"
  by (induction seen ns rule: uniqueNodes.induct) auto

lemma claimNodes_filter:
  assumes "distinct (map node_Name ns)"
  shows "claimNodes m claimed ns =
    (let taken = filter (\<lambda>n. node_Name n \<notin> set claimed \<and> matches m n) ns
     in (taken, rev (map node_Name taken) @ claimed))"
  using assms
proof (induction m claimed ns rule: claimNodes.induct)
  case (2 m claimed n ns)
  have "filter (\<lambda>x. node_Name x \<noteq> node_Name n \<and> node_Name x \<notin> set claimed \<and> matches m x) ns
      = filter (\<lambda>x. node_Name x \<notin> set claimed \<and> matches m x) ns"
    using "2.prems" by (intro filter_cong) (auto simp: image_iff)
  then show ?case using 2 by (auto simp: Let_def)
qed simp

text \<open>The nodes group \<open>i\<close> schedules: its matcher accepts them and no earlier one does.\<close>

definition firstMatch :: "groupMatcher list \<Rightarrow> nat \<Rightarrow> node \<Rightarrow> bool" where
  "firstMatch ms i n \<longleftrightarrow> matches (ms ! i) n \<and> (\<forall>j<i. \<not> matches (ms ! j) n)"

lemma firstMatch_Cons:
  "firstMatch (m # ms) 0 n = matches m n"
  "firstMatch (m # ms) (Suc i) n = (\<not> matches m n \<and> firstMatch ms i n)"
  by (auto simp: firstMatch_def All_less_Suc2)

lemma assignGroups_Cons:
  assumes "distinct (map node_Name unique)" and "assignGroups (m # ms) claimed unique = (gs, claimed')"
  obtains claimed1 gs' where "assignGroups ms claimed1 unique = (gs', claimed')"
    and "gs = \<lparr>grp_Name = m_name m, grp_Concurrency = m_concurrency m,
           grp_Nodes = filter (\<lambda>n. node_Name n \<notin> set claimed \<and> matches m n) unique\<rparr> # gs'"
    and "\<forall>n\<in>set unique.
           node_Name n \<notin> set claimed1 \<longleftrightarrow> node_Name n \<notin> set claimed \<and> \<not> matches m n"
proof -
  define taken where "taken = filter (\<lambda>n. node_Name n \<notin> set claimed \<and> matches m n) unique"
  define claimed1 where "claimed1 = rev (map node_Name taken) @ claimed"
  have claim: "claimNodes m claimed unique = (taken, claimed1)"
    using claimNodes_filter [OF assms(1)] by (simp add: taken_def claimed1_def Let_def)
  obtain gs' c where gs': "assignGroups ms claimed1 unique = (gs', c)" by fastforce
  show ?thesis
  proof (rule that)
    show "assignGroups ms claimed1 unique = (gs', claimed')" using assms(2) claim gs' by simp
    show "gs = \<lparr>grp_Name = m_name m, grp_Concurrency = m_concurrency m,
           grp_Nodes = filter (\<lambda>n. node_Name n \<notin> set claimed \<and> matches m n) unique\<rparr> # gs'"
      using assms(2) claim gs' by (simp add: taken_def)
    show "\<forall>n\<in>set unique. node_Name n \<notin> set claimed1 \<longleftrightarrow> node_Name n \<notin> set claimed \<and> \<not> matches m n"
      using assms(1) by (auto simp: claimed1_def taken_def dest: distinct_map_eqD)
  qed
qed

lemma assignGroups_names:
  "distinct (map node_Name unique) \<Longrightarrow> assignGroups ms claimed unique = (gs, claimed') \<Longrightarrow>
   map grp_Name gs = map m_name ms \<and> map grp_Concurrency gs = map m_concurrency ms"
proof (induction ms arbitrary: claimed gs)
  case (Cons m ms)
  show ?case
    by (rule assignGroups_Cons [OF Cons.prems]) (use Cons in auto)
qed simp

lemma assignGroups_mset:
  "distinct (map node_Name unique) \<Longrightarrow> assignGroups ms claimed unique = (gs, claimed') \<Longrightarrow>
   mset (concat (map grp_Nodes gs)) + mset (filter (\<lambda>n. node_Name n \<notin> set claimed') unique)
   = mset (filter (\<lambda>n. node_Name n \<notin> set claimed) unique)"
proof (induction ms arbitrary: claimed gs)
  case (Cons m ms)
  obtain claimed1 gs' where A: "assignGroups ms claimed1 unique = (gs', claimed')"
    and gs: "gs = \<lparr>grp_Name = m_name m, grp_Concurrency = m_concurrency m,
           grp_Nodes = filter (\<lambda>n. node_Name n \<notin> set claimed \<and> matches m n) unique\<rparr> # gs'"
    and C: "\<forall>n\<in>set unique.
           node_Name n \<notin> set claimed1 \<longleftrightarrow> node_Name n \<notin> set claimed \<and> \<not> matches m n"
    by (rule assignGroups_Cons [OF Cons.prems])
  have "filter (\<lambda>n. node_Name n \<notin> set claimed1) unique
      = filter (\<lambda>n. node_Name n \<notin> set claimed \<and> \<not> matches m n) unique"
    using C by (intro filter_cong) auto
  then show ?case
    using gs Cons.IH [OF Cons.prems(1) A]
      mset_filter_split [of "\<lambda>n. node_Name n \<notin> set claimed" "matches m" unique]
    by (simp add: add.assoc)
qed simp

lemma assignGroups_nth:
  "distinct (map node_Name unique) \<Longrightarrow> assignGroups ms claimed unique = (gs, claimed') \<Longrightarrow> i < length ms \<Longrightarrow>
   grp_Nodes (gs ! i) = filter (\<lambda>n. node_Name n \<notin> set claimed \<and> firstMatch ms i n) unique"
proof (induction ms arbitrary: claimed gs i)
  case (Cons m ms)
  obtain claimed1 gs' where A: "assignGroups ms claimed1 unique = (gs', claimed')"
    and gs: "gs = \<lparr>grp_Name = m_name m, grp_Concurrency = m_concurrency m,
           grp_Nodes = filter (\<lambda>n. node_Name n \<notin> set claimed \<and> matches m n) unique\<rparr> # gs'"
    and C: "\<forall>n\<in>set unique.
           node_Name n \<notin> set claimed1 \<longleftrightarrow> node_Name n \<notin> set claimed \<and> \<not> matches m n"
    by (rule assignGroups_Cons [OF Cons.prems(1,2)])
  show ?case
  proof (cases i)
    case 0
    then show ?thesis using gs by (simp add: firstMatch_Cons)
  next
    case (Suc k)
    then have "grp_Nodes (gs' ! k) = filter (\<lambda>n. node_Name n \<notin> set claimed1 \<and> firstMatch ms k n) unique"
      using Cons.prems(3) Cons.IH [OF Cons.prems(1) A, of k] by simp
    also have "\<dots> = filter (\<lambda>n. node_Name n \<notin> set claimed \<and> firstMatch (m # ms) i n) unique"
      using C Suc by (intro filter_cong) (auto simp: firstMatch_Cons)
    finally show ?thesis using gs Suc by simp
  qed
qed simp

lemma assignGroups_unclaimed:
  "distinct (map node_Name unique) \<Longrightarrow> assignGroups ms claimed unique = (gs, claimed') \<Longrightarrow> n \<in> set unique \<Longrightarrow>
   node_Name n \<notin> set claimed' \<longleftrightarrow> node_Name n \<notin> set claimed \<and> (\<forall>i<length ms. \<not> matches (ms ! i) n)"
proof (induction ms arbitrary: claimed gs)
  case (Cons m ms)
  obtain claimed1 gs' where A: "assignGroups ms claimed1 unique = (gs', claimed')"
    and C: "node_Name n \<notin> set claimed1 \<longleftrightarrow> node_Name n \<notin> set claimed \<and> \<not> matches m n"
    using assignGroups_Cons [OF Cons.prems(1,2)] Cons.prems(3) by metis
  show ?case using Cons.IH [OF Cons.prems(1) A Cons.prems(3)] C by (auto simp: All_less_Suc2)
qed simp

section \<open>What Resolve returns\<close>

lemma Resolve_InrE:
  assumes "Resolve K nodes spec = Inr r"
  obtains ms gs claimed unique where
    "compileGroups K (Order spec) (Groups spec) = Inr ms"
    "unique = sortFunc nodeCompare (uniqueNodes [] nodes)"
    "assignGroups ms [] unique = (gs, claimed)"
    "r = \<lparr>rollout_Groups = gs, Selected = length unique,
          Unassigned = map node_Name (filter (\<lambda>n. node_Name n \<notin> set claimed) unique)\<rparr>"
    "distinct (map node_Name unique)"
proof -
  let ?u = "sortFunc nodeCompare (uniqueNodes [] nodes)"
  have "mset (map node_Name ?u) = mset (map node_Name (uniqueNodes [] nodes))" by simp
  then have "distinct (map node_Name ?u)"
    using uniqueNodes_names(1) [of "[]" nodes] by (metis mset_eq_imp_distinct_iff)
  then show ?thesis
    using assms that by (auto simp: Resolve_def Let_def split: sum.splits prod.splits)
qed

lemma Resolve_partition:
  assumes "Resolve K nodes spec = Inr r"
  shows "distinct (map node_Name (Nodes r) @ Unassigned r)"
    and "set (map node_Name (Nodes r) @ Unassigned r) = node_Name ` set nodes"
    and "Selected r = length (Nodes r) + length (Unassigned r)"
    and "set (Nodes r) \<subseteq> set (uniqueNodes [] nodes)"
proof -
  obtain ms gs claimed unique where A: "assignGroups ms [] unique = (gs, claimed)"
    and u: "unique = sortFunc nodeCompare (uniqueNodes [] nodes)"
    and r: "r = \<lparr>rollout_Groups = gs, Selected = length unique,
          Unassigned = map node_Name (filter (\<lambda>n. node_Name n \<notin> set claimed) unique)\<rparr>"
    and d: "distinct (map node_Name unique)"
    by (rule Resolve_InrE [OF assms])
  let ?rest = "filter (\<lambda>n. node_Name n \<notin> set claimed) unique"
  have m: "mset (Nodes r @ ?rest) = mset unique"
    using assignGroups_mset [OF d A] by (simp add: Nodes_def r)
  have names: "map node_Name (Nodes r) @ Unassigned r = map node_Name (Nodes r @ ?rest)"
    by (simp add: r)
  have m': "mset (map node_Name (Nodes r @ ?rest)) = mset (map node_Name unique)"
    using m by (metis mset_map)
  show "distinct (map node_Name (Nodes r) @ Unassigned r)"
    unfolding names using d m' by (metis mset_eq_imp_distinct_iff)
  have "set (map node_Name (Nodes r @ ?rest)) = set (map node_Name unique)"
    using m' by (metis set_mset_mset)
  also have "\<dots> = node_Name ` set nodes" using uniqueNodes_names(2) [of "[]" nodes] by (simp add: u)
  finally show "set (map node_Name (Nodes r) @ Unassigned r) = node_Name ` set nodes" unfolding names .
  have "length (Nodes r @ ?rest) = length unique" using m by (metis size_mset)
  then show "Selected r = length (Nodes r) + length (Unassigned r)" by (simp add: r)
  have "set (Nodes r @ ?rest) = set unique" using m by (metis set_mset_mset)
  then show "set (Nodes r) \<subseteq> set (uniqueNodes [] nodes)" by (auto simp: u)
qed

lemma Resolve_groups:
  assumes "Resolve K nodes spec = Inr r"
  shows "map grp_Name (rollout_Groups r) = Order spec"
    and "i < length (Order spec) \<Longrightarrow> 1 \<le> grp_Concurrency (rollout_Groups r ! i)"
    and "i < length (Order spec) \<Longrightarrow>
      set (grp_Nodes (rollout_Groups r ! i)) =
        {n \<in> set (uniqueNodes [] nodes). inGroup K (Groups spec) (Order spec ! i) n \<and>
           (\<forall>j<i. \<not> inGroup K (Groups spec) (Order spec ! j) n)}"
    and "i < length (Order spec) \<Longrightarrow> sortedBy nodeCompare (grp_Nodes (rollout_Groups r ! i))"
proof -
  obtain ms gs claimed unique where C: "compileGroups K (Order spec) (Groups spec) = Inr ms"
    and A: "assignGroups ms [] unique = (gs, claimed)"
    and u: "unique = sortFunc nodeCompare (uniqueNodes [] nodes)"
    and r: "r = \<lparr>rollout_Groups = gs, Selected = length unique,
          Unassigned = map node_Name (filter (\<lambda>n. node_Name n \<notin> set claimed) unique)\<rparr>"
    and d: "distinct (map node_Name unique)"
    by (rule Resolve_InrE [OF assms])
  note ms = compileGroups_nth [OF C]
  note names = assignGroups_names [OF d A]
  have len: "length gs = length ms" using names by (metis length_map)
  show "map grp_Name (rollout_Groups r) = Order spec"
    using names ms by (auto simp: r list_eq_iff_nth_eq)
  assume i: "i < length (Order spec)"
  have "grp_Concurrency (gs ! i) = m_concurrency (ms ! i)"
    using names i ms(1) len by (metis nth_map)
  then show "1 \<le> grp_Concurrency (rollout_Groups r ! i)" using ms(3) [OF i] by (simp add: r)
  have nodes: "grp_Nodes (gs ! i) = filter (firstMatch ms i) unique"
    using assignGroups_nth [OF d A, of i] i ms(1) by simp
  have "firstMatch ms i n \<longleftrightarrow> inGroup K (Groups spec) (Order spec ! i) n \<and>
           (\<forall>j<i. \<not> inGroup K (Groups spec) (Order spec ! j) n)" for n
    using ms(4) i by (auto simp: firstMatch_def)
  then show "set (grp_Nodes (rollout_Groups r ! i)) =
        {n \<in> set (uniqueNodes [] nodes). inGroup K (Groups spec) (Order spec ! i) n \<and>
           (\<forall>j<i. \<not> inGroup K (Groups spec) (Order spec ! j) n)}"
    using nodes by (auto simp: r u)
  show "sortedBy nodeCompare (grp_Nodes (rollout_Groups r ! i))"
    using nodes nodeOrder.sortedBy_sortFunc by (simp add: r u sortedBy_filter)
qed

lemma Resolve_isl: "isl (Resolve K nodes spec) \<longleftrightarrow> \<not> validStrategy K (Order spec) (Groups spec)"
proof -
  have "isl (Resolve K nodes spec) \<longleftrightarrow> isl (compileGroups K (Order spec) (Groups spec))"
    by (auto simp: Resolve_def Let_def split: sum.splits prod.splits)
  then show ?thesis by (simp add: compileGroups_isl)
qed

lemma Total_eq_length: "Total r = length (Nodes r)"
  by (simp add: Total_def Nodes_def length_concat comp_def)

lemma set_ControlPlaneNodes: "set (ControlPlaneNodes r) = {n \<in> set (Nodes r). IsControlPlane n}"
  by (auto simp: ControlPlaneNodes_def Nodes_def)

lemma ControlPlaneNodes_filter: "ControlPlaneNodes r = filter IsControlPlane (Nodes r)"
  by (simp add: ControlPlaneNodes_def Nodes_def filter_concat comp_def)

text \<open>The order in which the API lists the nodes has no influence on the rollout.\<close>

lemma Resolve_order_independent:
  assumes "distinct (map node_Name nodes)" and "mset nodes' = mset nodes"
  shows "Resolve K nodes' spec = Resolve K nodes spec"
proof -
  have d': "distinct (map node_Name nodes')"
    using assms by (metis mset_eq_imp_distinct_iff mset_map)
  have u: "uniqueNodes [] nodes = nodes" "uniqueNodes [] nodes' = nodes'"
    using assms(1) d' by (simp_all add: uniqueNodes_id)
  have "sortFunc nodeCompare nodes' = sortFunc nodeCompare nodes"
  proof (rule nodeOrder.sortFunc_unique)
    show "mset (sortFunc nodeCompare nodes') = mset nodes" using assms(2) by simp
    show "sortedBy nodeCompare (sortFunc nodeCompare nodes')" by (rule nodeOrder.sortedBy_sortFunc)
    fix a b
    assume "a \<in> set nodes" "b \<in> set nodes" "nodeCompare a b \<le> 0" "nodeCompare b a \<le> 0"
    then show "a = b" using nodeCompare_antisym distinct_map_eqD [OF assms(1)] by metis
  qed
  then have "sortFunc nodeCompare (uniqueNodes [] nodes') = sortFunc nodeCompare (uniqueNodes [] nodes)"
    unfolding u .
  then show ?thesis by (simp only: Resolve_def)
qed

section \<open>The contract clients rely on\<close>

text \<open>
  The controllers call \<open>Resolve\<close> and then index jobs and leases by node name. What they need is
  that no node is scheduled twice and that only selected nodes are scheduled.
\<close>

locale rollout_source =
  fixes resolve :: "'spec \<Rightarrow> node list \<Rightarrow> 'e + rollout"
  assumes resolve_distinct: "resolve spec ns = Inr r \<Longrightarrow> distinct (map node_Name (Nodes r))"
    and resolve_selected: "resolve spec ns = Inr r \<Longrightarrow> set (Nodes r) \<subseteq> set ns"
begin

lemma GroupOf_loop_hit:
  "distinct (map node_Name (concat (map grp_Nodes gs))) \<Longrightarrow> g \<in> set gs \<Longrightarrow> n \<in> set (grp_Nodes g) \<Longrightarrow>
   GroupOf_loop (node_Name n) gs = (grp_Name g, True)"
  by (induction gs) (auto simp: image_iff)

lemma GroupOf_scheduled:
  assumes "resolve spec ns = Inr r" and "g \<in> set (rollout_Groups r)" and "n \<in> set (grp_Nodes g)"
  shows "GroupOf r (node_Name n) = (grp_Name g, True)"
  using GroupOf_loop_hit [of "rollout_Groups r" g n] resolve_distinct [OF assms(1)] assms(2,3)
  by (simp add: GroupOf_def Nodes_def)

lemma GroupOf_loop_miss:
  "nodeName \<notin> node_Name ` set (concat (map grp_Nodes gs)) \<Longrightarrow> GroupOf_loop nodeName gs = ('''', False)"
  by (induction gs) auto

lemma GroupOf_not_scheduled: "nodeName \<notin> node_Name ` set (Nodes r) \<Longrightarrow> GroupOf r nodeName = ('''', False)"
  by (simp add: GroupOf_def Nodes_def GroupOf_loop_miss)

lemma group_distinct:
  assumes "resolve spec ns = Inr r" and "g \<in> set (rollout_Groups r)"
  shows "distinct (map node_Name (grp_Nodes g))"
proof -
  obtain xs ys where "rollout_Groups r = xs @ g # ys" using assms(2) by (metis split_list)
  then show ?thesis using resolve_distinct [OF assms(1)] by (simp add: Nodes_def)
qed

end

interpretation sched: rollout_source "\<lambda>spec ns. Resolve K ns spec" for K
proof
  fix spec ns r
  assume R: "Resolve K ns spec = Inr r"
  show "distinct (map node_Name (Nodes r))" using Resolve_partition(1) [OF R] by simp
  show "set (Nodes r) \<subseteq> set ns" using Resolve_partition(4) [OF R] uniqueNodes_subset by blast
qed

section \<open>Control plane before workers\<close>

definition hasControlPlane :: "rolloutGroup \<Rightarrow> bool" where
  "hasControlPlane g \<longleftrightarrow> list_ex IsControlPlane (grp_Nodes g)"

definition hasWorker :: "rolloutGroup \<Rightarrow> bool" where
  "hasWorker g \<longleftrightarrow> list_ex (\<lambda>n. \<not> IsControlPlane n) (grp_Nodes g)"

lemma foldl_scanNode:
  "foldl (scanNode i) (l, f) ns =
     (if list_ex IsControlPlane ns then i else l,
      if list_ex (\<lambda>n. \<not> IsControlPlane n) ns then min i f else f)"
  by (induction ns arbitrary: l f) (auto simp: scanNode_def)

lemma scanGroups_spec:
  assumes "scanGroups i (l, f) gs = (l', f')" and "l < i"
  shows "l \<le> l' \<and> f' \<le> f \<and>
    (\<forall>k<length gs. hasControlPlane (gs ! k) \<longrightarrow> i + int k \<le> l') \<and>
    (l' = l \<or> (\<exists>k<length gs. hasControlPlane (gs ! k) \<and> l' = i + int k)) \<and>
    (\<forall>k<length gs. hasWorker (gs ! k) \<longrightarrow> f' \<le> i + int k) \<and>
    (f' = f \<or> (\<exists>k<length gs. hasWorker (gs ! k) \<and> f' = i + int k))"
  using assms
proof (induction gs arbitrary: i l f)
  case Nil
  then show ?case by simp
next
  case (Cons g gs)
  define l1 where "l1 = (if hasControlPlane g then i else l)"
  define f1 where "f1 = (if hasWorker g then min i f else f)"
  have "scanGroups (i + 1) (l1, f1) gs = (l', f')"
    using Cons.prems by (simp add: foldl_scanNode l1_def f1_def hasControlPlane_def hasWorker_def)
  moreover have "l1 < i + 1" using Cons.prems(2) by (simp add: l1_def)
  ultimately have IH: "l1 \<le> l'" "f' \<le> f1"
    "\<forall>k<length gs. hasControlPlane (gs ! k) \<longrightarrow> (i + 1) + int k \<le> l'"
    "l' = l1 \<or> (\<exists>k<length gs. hasControlPlane (gs ! k) \<and> l' = (i + 1) + int k)"
    "\<forall>k<length gs. hasWorker (gs ! k) \<longrightarrow> f' \<le> (i + 1) + int k"
    "f' = f1 \<or> (\<exists>k<length gs. hasWorker (gs ! k) \<and> f' = (i + 1) + int k)"
    using Cons.IH [of "i + 1" l1 f1] by blast+
  show ?case
  proof (intro conjI)
    show "l \<le> l'" using IH(1) Cons.prems(2) by (simp add: l1_def split: if_splits)
    show "f' \<le> f" using IH(2) by (simp add: f1_def split: if_splits)
    show "\<forall>k<length (g # gs). hasControlPlane ((g # gs) ! k) \<longrightarrow> i + int k \<le> l'"
      using IH(1,3) by (auto simp: l1_def less_Suc_eq_0_disj)
    show "\<forall>k<length (g # gs). hasWorker ((g # gs) ! k) \<longrightarrow> f' \<le> i + int k"
      using IH(2,5) by (auto simp: f1_def less_Suc_eq_0_disj)
    show "l' = l \<or> (\<exists>k<length (g # gs). hasControlPlane ((g # gs) ! k) \<and> l' = i + int k)"
      using IH(4) by (auto simp: l1_def Ex_less_Suc2 split: if_splits)
    show "f' = f \<or> (\<exists>k<length (g # gs). hasWorker ((g # gs) ! k) \<and> f' = i + int k)"
      using IH(6) by (auto simp: f1_def Ex_less_Suc2 min_def split: if_splits)
  qed
qed

lemma CheckControlPlaneFirst_iff:
  "CheckControlPlaneFirst r = None \<longleftrightarrow>
     (\<forall>i j. i < length (rollout_Groups r) \<and> j < length (rollout_Groups r) \<and>
        hasControlPlane (rollout_Groups r ! i) \<and> hasWorker (rollout_Groups r ! j) \<longrightarrow> i < j)"
proof -
  let ?gs = "rollout_Groups r"
  obtain l f where S: "scanGroups 0 (-1, int (length ?gs)) ?gs = (l, f)" by fastforce
  have spec: "\<forall>k<length ?gs. hasControlPlane (?gs ! k) \<longrightarrow> int k \<le> l"
    "l = -1 \<or> (\<exists>k<length ?gs. hasControlPlane (?gs ! k) \<and> l = int k)"
    "\<forall>k<length ?gs. hasWorker (?gs ! k) \<longrightarrow> f \<le> int k"
    "f = int (length ?gs) \<or> (\<exists>k<length ?gs. hasWorker (?gs ! k) \<and> f = int k)"
    using scanGroups_spec [OF S] by simp_all
  have eq: "CheckControlPlaneFirst r = None \<longleftrightarrow> l < 0 \<or> f = int (length ?gs) \<or> l < f"
    using S by (auto simp: CheckControlPlaneFirst_def Let_def)
  show ?thesis
  proof
    assume "CheckControlPlaneFirst r = None"
    then show "\<forall>i j. i < length ?gs \<and> j < length ?gs \<and>
        hasControlPlane (?gs ! i) \<and> hasWorker (?gs ! j) \<longrightarrow> i < j"
      using spec(1,3) unfolding eq by fastforce
  next
    assume A: "\<forall>i j. i < length ?gs \<and> j < length ?gs \<and>
        hasControlPlane (?gs ! i) \<and> hasWorker (?gs ! j) \<longrightarrow> i < j"
    show "CheckControlPlaneFirst r = None"
      unfolding eq using spec(2,4) A by fastforce
  qed
qed

section \<open>Quorum\<close>

abbreviation controlPlaneCount :: "node list \<Rightarrow> int" where
  "controlPlaneCount ns \<equiv> int (length (filter IsControlPlane ns))"

lemma quorumLoop_None:
  "quorumLoop n limit gs = None \<longleftrightarrow>
     list_all (\<lambda>g. let at = min (grp_Concurrency g) (controlPlaneCount (grp_Nodes g)) in at \<le> 1 \<or> at < limit) gs"
  by (induction gs) (auto simp: Let_def)

lemma quorum_arith:
  fixes n d :: int
  assumes "0 \<le> n"
  shows "d < (n + 1) div 2 \<longleftrightarrow> 2 * d < n"
  using assms by presburger

lemma CheckControlPlaneQuorum_iff:
  "CheckControlPlaneQuorum r = None \<longleftrightarrow>
     list_all (\<lambda>g. let at = min (grp_Concurrency g) (controlPlaneCount (grp_Nodes g)); n = controlPlaneCount (Nodes r)
        in at \<le> 1 \<or> n < 2 * (n - at)) (rollout_Groups r)"
proof -
  have "n < 2 * (n - at) \<longleftrightarrow> 2 * at < n" for n at :: int by presburger
  then show ?thesis
    by (simp add: CheckControlPlaneQuorum_def Let_def quorumLoop_None ControlPlaneNodes_filter quorum_arith)
qed

lemma quorum_kept:
  assumes "CheckControlPlaneQuorum r = None" and "g \<in> set (rollout_Groups r)"
    and "mset down \<subseteq># mset (grp_Nodes g)" and "int (length down) \<le> grp_Concurrency g"
  shows "controlPlaneCount down \<le> 1 \<or>
         controlPlaneCount (Nodes r) < 2 * (controlPlaneCount (Nodes r) - controlPlaneCount down)"
proof -
  have "filter_mset IsControlPlane (mset down) \<subseteq># filter_mset IsControlPlane (mset (grp_Nodes g))"
    using assms(3) by (rule multiset_filter_mono)
  then have "length (filter IsControlPlane down) \<le> length (filter IsControlPlane (grp_Nodes g))"
    by (metis mset_filter size_mset size_mset_mono)
  moreover have "length (filter IsControlPlane down) \<le> length down" by simp
  ultimately have "controlPlaneCount down \<le> min (grp_Concurrency g) (controlPlaneCount (grp_Nodes g))"
    using assms(4) by linarith
  moreover have "(let at = min (grp_Concurrency g) (controlPlaneCount (grp_Nodes g)); n = controlPlaneCount (Nodes r)
        in at \<le> 1 \<or> n < 2 * (n - at))"
    using assms(1,2) by (simp add: CheckControlPlaneQuorum_iff list_all_iff)
  ultimately show ?thesis by (auto simp: Let_def)
qed

end
