(* ===== verification/Maintenance.thy ===== *)
theory Maintenance imports ApiTypes begin

text \<open>
  \<open>internal/maintenance\<close>: whether patching is allowed now, and when a window opens next. The
  specification of a window is the set of instants it covers (\<open>covers\<close>), day by day; the code
  looks at the current day only and splits a window that spans midnight in two. The last part compares
  the two operations with each other: what \<open>NextMaintenanceWindow\<close> promises, and where it
  promises too little.
\<close>

section \<open>Parsing a time of day\<close>

text \<open>
  \<open>fmt.Sscanf(s, "%d:%d")\<close> on ASCII text: each \<open>%d\<close> skips white space, takes an optional
  sign and at least one digit; input after the second number is ignored.
\<close>

definition isBlank :: "char \<Rightarrow> bool" where
  "isBlank c \<longleftrightarrow> c \<in> {CHR 0x20, CHR 0x09, CHR 0x0B, CHR 0x0C, CHR 0x0D}"

definition isDigit :: "char \<Rightarrow> bool" where
  "isDigit c \<longleftrightarrow> (let n = (of_char c :: int) in 48 \<le> n \<and> n \<le> 57)"

definition digitsValue :: "string \<Rightarrow> int" where
  "digitsValue ds = foldl (\<lambda>v c. v * 10 + (of_char c - 48)) 0 ds"

definition scanInt :: "string \<Rightarrow> goerr + int \<times> string" where
  "scanInt s =
     (let s1 = dropWhile isBlank s in
      if s1 = [] then Inl (TextError ''unexpected EOF'')
      else if hd s1 = CHR 0x0A then Inl (TextError ''unexpected newline'')
      else
        (let signed = hd s1 = CHR ''-'' \<or> hd s1 = CHR ''+'';
             s2 = (if signed then tl s1 else s1);
             ds = takeWhile isDigit s2;
             v = (if hd s1 = CHR ''-'' then - digitsValue ds else digitsValue ds)
         in if s2 = [] then Inl (TextError ''unexpected EOF'')
            else if ds = [] then Inl (TextError ''expected integer'')
            else if v < - (2 ^ 63) \<or> v \<ge> 2 ^ 63 then Inl (TextError ''value out of range'')
            else Inr (v, dropWhile isDigit s2)))"

definition scanTime :: "string \<Rightarrow> goerr + int \<times> int" where
  "scanTime s =
     (case scanInt s of
        Inl err \<Rightarrow> Inl err
      | Inr (h, rest) \<Rightarrow>
          if rest = [] then Inl (TextError ''unexpected EOF'')
          else if hd rest \<noteq> CHR '':'' then Inl (TextError ''input does not match format'')
          else (case scanInt (tl rest) of Inl err \<Rightarrow> Inl err | Inr (m, _) \<Rightarrow> Inr (h, m)))"

definition parseTimeOfDay :: "string \<Rightarrow> time \<Rightarrow> goerr + time" where
  "parseTimeOfDay timeStr referenceDate =
     (if length (filter (\<lambda>c. c = CHR '':'') timeStr) + 1 \<noteq> 2 then
        Inl (TextError (''invalid time format: '' @ timeStr))
      else (case scanTime timeStr of
          Inl err \<Rightarrow> Inl (wrapErr ''failed to parse time'' err)
        | Inr (h, m) \<Rightarrow> Inr (dateAt referenceDate h m)))"

section \<open>Windows\<close>

definition isExcludedDate :: "string list \<Rightarrow> time \<Rightarrow> bool" where
  "isExcludedDate excludeDates now = list_ex (\<lambda>excludeDate. excludeDate = formatDate now) excludeDates"

definition isDayMatch :: "string list \<Rightarrow> time \<Rightarrow> bool" where
  "isDayMatch days now =
     (if days = [] then True
      else if list_ex (\<lambda>d. equalFold d ''Any'' \<or> equalFold d ''All'') days then True
      else
        (let currentDay = weekdayString (weekday now); currentDayShort = take 3 currentDay
         in list_ex (\<lambda>d. equalFold d currentDay \<or> equalFold d currentDayShort) days))"

definition isInWindow :: "maintenanceWindow \<Rightarrow> time \<Rightarrow> goerr + bool" where
  "isInWindow window now =
     (case parseTimeOfDay (StartTime window) now of
        Inl err \<Rightarrow> Inl (wrapErr ''invalid start time'' err)
      | Inr startTime \<Rightarrow>
          (case parseTimeOfDay (EndTime window) now of
             Inl err \<Rightarrow> Inl (wrapErr ''invalid end time'' err)
           | Inr endTime \<Rightarrow>
               if endTime < startTime then
                 (let evening = \<not> now < startTime \<and> isDayMatch (Days window) now;
                      morning = now < endTime \<and> isDayMatch (Days window) (addDays (-1) now)
                  in Inr (evening \<or> morning))
               else Inr (\<not> now < startTime \<and> now < endTime \<and> isDayMatch (Days window) now)))"

fun anyWindowOpen :: "maintenanceWindow list \<Rightarrow> time \<Rightarrow> bool" where
  "anyWindowOpen [] now = False"
| "anyWindowOpen (w # ws) now =
     (if Disabled w then anyWindowOpen ws now
      else (case isInWindow w now of
          Inl _ \<Rightarrow> anyWindowOpen ws now
        | Inr open_now \<Rightarrow> if open_now then True else anyWindowOpen ws now))"

definition IsInMaintenanceWindow :: "maintenanceSpec option \<Rightarrow> time \<Rightarrow> bool \<times> string" where
  "IsInMaintenanceWindow spec now =
     (case spec of
        None \<Rightarrow> (True, '''')
      | Some m \<Rightarrow>
          if isExcludedDate (ExcludeDates m) now then
            (False, ''current date '' @ formatDate now @ '' is in excluded dates'')
          else if Windows m = [] then (True, '''')
          else if anyWindowOpen (Windows m) now then (True, '''')
          else (False, ''current time is not within any maintenance window''))"

fun nextFreeDay :: "string list \<Rightarrow> time \<Rightarrow> nat list \<Rightarrow> goerr + time" where
  "nextFreeDay dates now [] = Inl (TextError ''every day in the next year is excluded'')"
| "nextFreeDay dates now (i # is) =
     (let d = addDays (int i) now in
      if isExcludedDate dates d then nextFreeDay dates now is
      else if i = 0 then Inr now
      else Inr (startOfDay d))"

definition considerWindow :: "time \<Rightarrow> time \<Rightarrow> time option \<Rightarrow> maintenanceWindow \<Rightarrow> time option" where
  "considerWindow now checkDate best w =
     (if Disabled w then best
      else if \<not> isDayMatch (Days w) checkDate then best
      else (case parseTimeOfDay (StartTime w) checkDate of
          Inl _ \<Rightarrow> best
        | Inr startTime \<Rightarrow>
            if startTime \<ge> now \<and> (case best of None \<Rightarrow> True | Some b \<Rightarrow> startTime < b)
            then Some startTime else best))"

definition considerDay :: "maintenanceSpec \<Rightarrow> time \<Rightarrow> time option \<Rightarrow> nat \<Rightarrow> time option" where
  "considerDay m now best i =
     (let checkDate = addDays (int i) now in
      if isExcludedDate (ExcludeDates m) checkDate then best
      else foldl (considerWindow now checkDate) best (Windows m))"

definition NextMaintenanceWindow :: "maintenanceSpec option \<Rightarrow> time \<Rightarrow> goerr + time" where
  "NextMaintenanceWindow spec now =
     (case spec of
        None \<Rightarrow> Inr now
      | Some m \<Rightarrow>
          if Windows m = [] then nextFreeDay (ExcludeDates m) now [0..<366]
          else (case foldl (considerDay m now) None [0..<7] of
              None \<Rightarrow> Inl (TextError ''no maintenance window found in the next 7 days'')
            | Some nextWindow \<Rightarrow> Inr nextWindow))"

section \<open>What a window covers\<close>

text \<open>The offset from midnight a time of day stands for, and the window CRD patterns admit.\<close>

definition clock :: "string \<Rightarrow> duration option" where
  "clock s =
     (if length (filter (\<lambda>c. c = CHR '':'') s) + 1 \<noteq> 2 then None
      else (case scanTime s of Inl _ \<Rightarrow> None | Inr (h, m) \<Rightarrow> Some (h * hour + m * minute)))"

definition wellFormed :: "maintenanceWindow \<Rightarrow> bool" where
  "wellFormed w \<longleftrightarrow>
     (case (clock (StartTime w), clock (EndTime w)) of
        (Some a, Some b) \<Rightarrow> 0 \<le> a \<and> a < day \<and> 0 \<le> b \<and> b < day
      | _ \<Rightarrow> False)"

definition dayListed :: "string list \<Rightarrow> int \<Rightarrow> bool" where
  "dayListed days d = isDayMatch days (d * day)"

definition openingOn :: "maintenanceWindow \<Rightarrow> int \<Rightarrow> time" where
  "openingOn w d = d * day + the (clock (StartTime w))"

definition closingOn :: "maintenanceWindow \<Rightarrow> int \<Rightarrow> time" where
  "closingOn w d =
     d * day + the (clock (EndTime w)) + (if the (clock (EndTime w)) < the (clock (StartTime w)) then day else 0)"

definition covers :: "maintenanceWindow \<Rightarrow> time \<Rightarrow> bool" where
  "covers w t \<longleftrightarrow> (\<exists>d. dayListed (Days w) d \<and> openingOn w d \<le> t \<and> t < closingOn w d)"

lemma dayNumber_startOfDay [simp]: "dayNumber (n * day) = n"
  by (simp add: dayNumber_def)

lemma isDayMatch_listed: "isDayMatch days t \<longleftrightarrow> dayListed days (dayNumber t)"
  unfolding dayListed_def isDayMatch_def Let_def by (simp add: weekday_def)

lemma isExcludedDate_cong: "dayNumber t = dayNumber u \<Longrightarrow> isExcludedDate ds t = isExcludedDate ds u"
  using formatDate_cong [of t u] by (simp add: isExcludedDate_def)

lemma parseTimeOfDay_clock:
  "parseTimeOfDay s ref = Inr t \<longleftrightarrow> (\<exists>c. clock s = Some c \<and> t = startOfDay ref + c)"
  by (auto simp: parseTimeOfDay_def clock_def dateAt_def split: sum.splits)

lemma wellFormedE:
  assumes "wellFormed w"
  obtains a b where "clock (StartTime w) = Some a" "clock (EndTime w) = Some b"
    "0 \<le> a" "a < day" "0 \<le> b" "b < day"
  using assms by (auto simp: wellFormed_def split: option.splits)

lemma dayNumber_bounds: "dayNumber t * day \<le> t" "t < dayNumber t * day + day"
  using startOfDay_le [of t] less_startOfDay_day [of t] by (simp_all add: startOfDay_def)

lemma dayNumber_two:
  assumes "d * day \<le> t" and "t < d * day + 2 * day"
  shows "dayNumber t = d \<or> dayNumber t = d + 1"
proof (cases "t < d * day + day")
  case True
  then show ?thesis using assms(1) dayNumber_eqI by blast
next
  case False
  then have "dayNumber t = d + 1"
    using assms(2) by (intro dayNumber_eqI) (simp_all add: algebra_simps)
  then show ?thesis by simp
qed

text \<open>Which day's window covers an instant, when windows end on their own day and when they end on the next.\<close>

lemma covering_day:
  assumes "0 \<le> a" and "b < day"
  shows "(\<exists>d. L d \<and> d * day + a \<le> t \<and> t < d * day + b) \<longleftrightarrow>
    dayNumber t * day + a \<le> t \<and> t < dayNumber t * day + b \<and> L (dayNumber t)"
proof -
  have "dayNumber t = d" if "d * day + a \<le> t" "t < d * day + b" for d
    using that assms by (intro dayNumber_eqI) linarith+
  then show ?thesis by auto
qed

lemma covering_night:
  assumes ab: "0 \<le> a" "a < day" "0 \<le> b" "b < day"
  shows "(\<exists>d. L d \<and> d * day + a \<le> t \<and> t < d * day + b + day) \<longleftrightarrow>
    dayNumber t * day + a \<le> t \<and> L (dayNumber t) \<or> t < dayNumber t * day + b \<and> L (dayNumber t - 1)"
    (is "_ \<longleftrightarrow> ?today \<or> ?yesterday")
proof
  assume "\<exists>d. L d \<and> d * day + a \<le> t \<and> t < d * day + b + day"
  then obtain d where d: "L d" "d * day + a \<le> t" "t < d * day + b + day" by blast
  then have "dayNumber t = d \<or> dayNumber t = d + 1" using ab by (intro dayNumber_two) linarith+
  then show "?today \<or> ?yesterday" using d by (auto simp: algebra_simps)
next
  note bounds = dayNumber_bounds [of t]
  assume A: "?today \<or> ?yesterday"
  show "\<exists>d. L d \<and> d * day + a \<le> t \<and> t < d * day + b + day"
  proof (cases ?today)
    case True
    then show ?thesis using bounds ab by (intro exI [of _ "dayNumber t"]) simp
  next
    case False
    then have "t < dayNumber t * day + b" using A by blast
    then have "(dayNumber t - 1) * day + a \<le> t \<and> t < (dayNumber t - 1) * day + b + day"
      using bounds ab by (simp add: left_diff_distrib)
    then show ?thesis using A False by blast
  qed
qed

lemma isInWindow_covers:
  assumes "wellFormed w"
  shows "isInWindow w t = Inr (covers w t)"
proof -
  obtain a b where ab: "clock (StartTime w) = Some a" "clock (EndTime w) = Some b"
    and bounds: "0 \<le> a" "a < day" "0 \<le> b" "b < day"
    by (rule wellFormedE [OF assms])
  have parse: "parseTimeOfDay (StartTime w) t = Inr (dayNumber t * day + a)"
    "parseTimeOfDay (EndTime w) t = Inr (dayNumber t * day + b)"
    using ab by (simp_all add: parseTimeOfDay_clock startOfDay_def)
  show ?thesis
  proof (cases "b < a")
    case True
    then have "covers w t \<longleftrightarrow> (\<exists>d. dayListed (Days w) d \<and> d * day + a \<le> t \<and> t < d * day + b + day)"
      using ab by (simp add: covers_def openingOn_def closingOn_def)
    then show ?thesis
      using True by (auto simp: covering_night [OF bounds] isInWindow_def parse Let_def isDayMatch_listed not_less)
  next
    case False
    then have "covers w t \<longleftrightarrow> (\<exists>d. dayListed (Days w) d \<and> d * day + a \<le> t \<and> t < d * day + b)"
      using ab by (simp add: covers_def openingOn_def closingOn_def)
    then show ?thesis
      using False by (simp add: covering_day [OF bounds(1,4)] isInWindow_def parse Let_def isDayMatch_listed not_less)
  qed
qed

lemma anyWindowOpen_covers:
  "list_all wellFormed ws \<Longrightarrow> anyWindowOpen ws t \<longleftrightarrow> list_ex (\<lambda>w. \<not> Disabled w \<and> covers w t) ws"
  by (induction ws) (auto simp: isInWindow_covers)

lemma IsInMaintenanceWindow_iff:
  assumes "list_all wellFormed (Windows m)"
  shows "fst (IsInMaintenanceWindow (Some m) t) \<longleftrightarrow>
     \<not> isExcludedDate (ExcludeDates m) t \<and>
     (Windows m = [] \<or> list_ex (\<lambda>w. \<not> Disabled w \<and> covers w t) (Windows m))"
  using assms by (simp add: IsInMaintenanceWindow_def anyWindowOpen_covers)

section \<open>When the next window opens\<close>

text \<open>An opening \<open>NextMaintenanceWindow\<close> has to choose from.\<close>

definition opensAt :: "maintenanceSpec \<Rightarrow> time \<Rightarrow> nat \<Rightarrow> time \<Rightarrow> bool" where
  "opensAt m now i t \<longleftrightarrow>
     \<not> isExcludedDate (ExcludeDates m) (addDays (int i) now) \<and> now \<le> t \<and>
     (\<exists>w\<in>set (Windows m). \<not> Disabled w \<and> isDayMatch (Days w) (addDays (int i) now) \<and>
        parseTimeOfDay (StartTime w) (addDays (int i) now) = Inr t)"

definition leastOf :: "(time \<Rightarrow> bool) \<Rightarrow> time option \<Rightarrow> bool" where
  "leastOf C best \<longleftrightarrow> (case best of None \<Rightarrow> \<forall>t. \<not> C t | Some b \<Rightarrow> C b \<and> (\<forall>t. C t \<longrightarrow> b \<le> t))"

lemma leastOf_considerWindow:
  assumes "leastOf C best"
  shows "leastOf (\<lambda>t. C t \<or> now \<le> t \<and> \<not> Disabled w \<and> isDayMatch (Days w) cd \<and> parseTimeOfDay (StartTime w) cd = Inr t)
           (considerWindow now cd best w)"
  using assms
  by (cases best; cases "parseTimeOfDay (StartTime w) cd")
     (auto simp: leastOf_def considerWindow_def intro: order_trans)

lemma leastOf_foldl_windows:
  assumes "leastOf C best"
  shows "leastOf (\<lambda>t. C t \<or> (now \<le> t \<and> (\<exists>w\<in>set ws. \<not> Disabled w \<and> isDayMatch (Days w) cd \<and>
             parseTimeOfDay (StartTime w) cd = Inr t)))
           (foldl (considerWindow now cd) best ws)"
  using assms
proof (induction ws arbitrary: C best)
  case Nil
  then show ?case by (simp add: leastOf_def)
next
  case (Cons w ws)
  let ?O = "\<lambda>w t. \<not> Disabled w \<and> isDayMatch (Days w) cd \<and> parseTimeOfDay (StartTime w) cd = Inr t"
  have "(\<lambda>t. C t \<or> now \<le> t \<and> (\<exists>v\<in>set (w # ws). ?O v t)) =
      (\<lambda>t. (C t \<or> now \<le> t \<and> ?O w t) \<or> now \<le> t \<and> (\<exists>v\<in>set ws. ?O v t))" by auto
  then show ?case using Cons.IH [OF leastOf_considerWindow [OF Cons.prems, of now w cd]] by simp
qed

lemma leastOf_considerDay:
  assumes "leastOf C best"
  shows "leastOf (\<lambda>t. C t \<or> opensAt m now i t) (considerDay m now best i)"
proof (cases "isExcludedDate (ExcludeDates m) (addDays (int i) now)")
  case True
  then show ?thesis using assms by (simp add: considerDay_def opensAt_def)
next
  case False
  then show ?thesis
    using leastOf_foldl_windows [OF assms, of now "Windows m" "addDays (int i) now"]
    by (simp add: considerDay_def opensAt_def)
qed

lemma leastOf_foldl_days:
  "leastOf C best \<Longrightarrow>
   leastOf (\<lambda>t. C t \<or> (\<exists>i\<in>set days. opensAt m now i t)) (foldl (considerDay m now) best days)"
proof (induction days arbitrary: C best)
  case Nil
  then show ?case by simp
next
  case (Cons i days)
  have "(\<lambda>t. C t \<or> (\<exists>j\<in>set (i # days). opensAt m now j t)) =
      (\<lambda>t. (C t \<or> opensAt m now i t) \<or> (\<exists>j\<in>set days. opensAt m now j t))" by auto
  then show ?case using Cons.IH [OF leastOf_considerDay [OF Cons.prems, of m now i]] by simp
qed

text \<open>With windows, the result is the least opening of the coming seven days, today included.\<close>

lemma NextMaintenanceWindow_least:
  assumes "Windows m \<noteq> []"
  shows "leastOf (\<lambda>t. \<exists>i<7. opensAt m now i t)
           (case NextMaintenanceWindow (Some m) now of Inl _ \<Rightarrow> None | Inr t \<Rightarrow> Some t)"
proof -
  have "leastOf (\<lambda>_. False) None" by (simp add: leastOf_def)
  then have "leastOf (\<lambda>t. \<exists>i\<in>set [0..<7]. opensAt m now i t) (foldl (considerDay m now) None [0..<7])"
    using leastOf_foldl_days [where C = "\<lambda>_. False" and best = None and m = m and now = now and days = "[0..<7]"] by simp
  moreover have "(\<lambda>t. \<exists>i\<in>set [0..<7]. opensAt m now i t) = (\<lambda>t. \<exists>i<7. opensAt m now i t)"
    by (intro ext) auto
  moreover have "(case NextMaintenanceWindow (Some m) now of Inl _ \<Rightarrow> None | Inr t \<Rightarrow> Some t) =
      foldl (considerDay m now) None [0..<7]"
    using assms by (simp add: NextMaintenanceWindow_def split: option.splits)
  ultimately show ?thesis by simp
qed

text \<open>A window that does not open and close at the same minute covers the instant it opens at.\<close>

definition proper :: "maintenanceWindow \<Rightarrow> bool" where
  "proper w \<longleftrightarrow> wellFormed w \<and> clock (StartTime w) \<noteq> clock (EndTime w)"

lemma opensAt_in_window:
  assumes O: "opensAt m now i t" and W: "list_all proper (Windows m)"
  shows "dayNumber t = dayNumber now + int i" and "fst (IsInMaintenanceWindow (Some m) t)"
proof -
  obtain w where w: "w \<in> set (Windows m)" "\<not> Disabled w" "isDayMatch (Days w) (addDays (int i) now)"
    "parseTimeOfDay (StartTime w) (addDays (int i) now) = Inr t"
    using O by (auto simp: opensAt_def)
  have p: "wellFormed w" "clock (StartTime w) \<noteq> clock (EndTime w)"
    using W w(1) by (auto simp: list_all_iff proper_def)
  obtain a b where ab: "clock (StartTime w) = Some a" "clock (EndTime w) = Some b"
    "0 \<le> a" "a < day" "0 \<le> b" "b < day"
    by (rule wellFormedE [OF p(1)])
  let ?d = "dayNumber now + int i"
  have t: "t = ?d * day + a"
    using w(4) ab by (auto simp: parseTimeOfDay_clock startOfDay_def)
  show d: "dayNumber t = ?d" using ab by (intro dayNumber_eqI) (simp_all add: t)
  have "covers w t"
    unfolding covers_def
    using w(3) ab p(2) by (intro exI [of _ ?d]) (auto simp: t openingOn_def closingOn_def isDayMatch_listed)
  moreover have "\<not> isExcludedDate (ExcludeDates m) t"
    using O isExcludedDate_cong [of t "addDays (int i) now"] by (simp add: opensAt_def d)
  moreover have "list_all wellFormed (Windows m)" using W by (auto simp: list_all_iff proper_def)
  ultimately show "fst (IsInMaintenanceWindow (Some m) t)"
    using w(1,2) by (auto simp: IsInMaintenanceWindow_iff list_ex_iff)
qed

lemma nextFreeDay_sound:
  assumes "nextFreeDay dates now is = Inr t"
  shows "now \<le> t \<and> \<not> isExcludedDate dates t"
  using assms
proof (induction "is")
  case Nil
  then show ?case by simp
next
  case (Cons i "is")
  let ?d = "addDays (int i) now"
  show ?case
  proof (cases "isExcludedDate dates ?d")
    case True
    then show ?thesis using Cons by simp
  next
    case False
    show ?thesis
    proof (cases "i = 0")
      case True
      then show ?thesis using Cons.prems False by (simp add: addDays_def)
    next
      case i: False
      then have t: "t = startOfDay ?d" using Cons.prems False by (simp add: Let_def)
      have dn: "dayNumber t = dayNumber ?d" unfolding t startOfDay_def by simp
      have "day \<le> int i * day" using i mult_right_mono [of 1 "int i" day] by simp
      moreover have "t = startOfDay now + int i * day" by (simp add: t startOfDay_def distrib_right)
      ultimately have "now \<le> t" using less_startOfDay_day [of now] by linarith
      then show ?thesis using False isExcludedDate_cong [OF dn] by simp
    qed
  qed
qed

lemma NextMaintenanceWindow_allowed:
  assumes "NextMaintenanceWindow spec now = Inr t"
    and "case spec of None \<Rightarrow> True | Some m \<Rightarrow> list_all proper (Windows m)"
  shows "now \<le> t \<and> fst (IsInMaintenanceWindow spec t)"
proof (cases spec)
  case None
  then show ?thesis using assms(1) by (simp add: NextMaintenanceWindow_def IsInMaintenanceWindow_def)
next
  case (Some m)
  show ?thesis
  proof (cases "Windows m = []")
    case True
    then have "nextFreeDay (ExcludeDates m) now [0..<366] = Inr t"
      using assms(1) Some by (simp add: NextMaintenanceWindow_def)
    then show ?thesis
      using nextFreeDay_sound True Some by (simp add: IsInMaintenanceWindow_def)
  next
    case False
    then obtain i where O: "opensAt m now i t"
      using NextMaintenanceWindow_least [of m now] assms(1) Some by (auto simp: leastOf_def)
    moreover have "list_all proper (Windows m)" using assms(2) Some by simp
    ultimately show ?thesis
      using opensAt_in_window [OF O] Some by (auto simp: opensAt_def)
  qed
qed

end
