(* ===== verification/Versions.thy ===== *)
theory Versions imports Effects begin

text \<open>
  \<open>internal/release\<close> (which Talos release an auto-update rolls out), \<open>internal/supportmatrix\<close>
  and the downgrade test of \<open>controllers/preflight.go\<close>. Parsing and comparing versions is the
  library \<open>k8s.io/apimachinery/pkg/util/version\<close>, a parameter; its documented order is the
  hypothesis \<open>lawfulVersions\<close> where a statement needs it.
\<close>

section \<open>Versions\<close>

definition ParseVersion :: "('v, 'm) klib_scheme \<Rightarrow> string \<Rightarrow> goerr + 'v" where
  "ParseVersion K s = parseSemantic K s"

definition CompareVersion :: "('v, 'm) klib_scheme \<Rightarrow> 'v \<Rightarrow> 'v \<Rightarrow> int" where
  "CompareVersion K v w = (if verLess K v w then -1 else if verGreater K v w then 1 else 0)"

definition VersionString :: "('v, 'm) klib_scheme \<Rightarrow> 'v \<Rightarrow> string" where
  "VersionString K v = ''v'' @ verString K v"

definition isDowngrade :: "('v, 'm) klib_scheme \<Rightarrow> string \<Rightarrow> string \<Rightarrow> bool" where
  "isDowngrade K current tgt =
     (case ParseVersion K current of
        Inl _ \<Rightarrow> False
      | Inr c \<Rightarrow> (case ParseVersion K tgt of Inl _ \<Rightarrow> False | Inr t \<Rightarrow> CompareVersion K t c < 0))"

text \<open>
  What the version library documents about its comparison: \<open>LessThan\<close> orders versions (two
  versions neither of which is less are equivalent) and \<open>GreaterThan\<close> is its converse.
\<close>

definition lawfulVersions :: "('v, 'm) klib_scheme \<Rightarrow> bool" where
  "lawfulVersions K \<longleftrightarrow>
     (\<forall>a b. verGreater K a b \<longleftrightarrow> verLess K b a) \<and>
     (\<forall>a b. verLess K a b \<longrightarrow> \<not> verLess K b a) \<and>
     (\<forall>a b c. \<not> verLess K a b \<longrightarrow> \<not> verLess K b c \<longrightarrow> \<not> verLess K a c)"

lemma lawful_greater: "lawfulVersions K \<Longrightarrow> verGreater K a b \<longleftrightarrow> verLess K b a"
  unfolding lawfulVersions_def by blast

lemma lawful_asym: "lawfulVersions K \<Longrightarrow> verLess K a b \<Longrightarrow> \<not> verLess K b a"
  unfolding lawfulVersions_def by blast

lemma lawful_trans: "lawfulVersions K \<Longrightarrow> \<not> verLess K a b \<Longrightarrow> \<not> verLess K b c \<Longrightarrow> \<not> verLess K a c"
  unfolding lawfulVersions_def by blast

lemma CompareVersion_lawful:
  assumes "lawfulVersions K"
  shows "CompareVersion K a b = (if verLess K a b then -1 else if verLess K b a then 1 else 0)"
  by (simp only: CompareVersion_def lawful_greater [OF assms])

lemma CompareVersion_swap:
  assumes "lawfulVersions K"
  shows "CompareVersion K b a = - CompareVersion K a b"
  using lawful_asym [OF assms, of a b] by (simp add: CompareVersion_lawful [OF assms])

lemma CompareVersion_pos:
  assumes "lawfulVersions K"
  shows "0 < CompareVersion K a b \<longleftrightarrow> verLess K b a"
  using lawful_asym [OF assms, of a b] by (auto simp: CompareVersion_lawful [OF assms])

lemma lawful_comparator: "lawfulVersions K \<Longrightarrow> comparator (CompareVersion K)"
proof
  assume L: "lawfulVersions K"
  show "CompareVersion K a b \<le> 0 \<or> CompareVersion K b a \<le> 0" for a b
    using CompareVersion_swap [OF L, of a b] by linarith
  have le: "CompareVersion K a b \<le> 0 \<longleftrightarrow> \<not> verLess K b a" for a b
    using CompareVersion_pos [OF L, of a b] by linarith
  show "CompareVersion K a b \<le> 0 \<Longrightarrow> CompareVersion K b c \<le> 0 \<Longrightarrow> CompareVersion K a c \<le> 0" for a b c
    unfolding le using lawful_trans [OF L] by blast
qed

section \<open>Releases\<close>

record 'v release =
  rel_Version :: 'v
  PublishedAt :: time

record 'v selection =
  sel_Latest :: "'v release option"
  sel_Target :: "'v release option"
  sel_Pending :: "'v release option"

definition AllowMinor :: string where "AllowMinor = ''minor''"
definition AllowPatch :: string where "AllowPatch = ''patch''"
definition DefaultURL :: string where
  "DefaultURL = ''https://api.github.com/repos/siderolabs/talos/releases?per_page=50''"
definition maxResponseBytes :: nat where "maxResponseBytes = 32 * 2 ^ 20"

fun keepReleases :: "('v, 'm) klib_scheme \<Rightarrow> githubRelease list \<Rightarrow> 'v release list" where
  "keepReleases K [] = []"
| "keepReleases K (r # rs) =
     (if Draft r \<or> Prerelease r then keepReleases K rs
      else (case ParseVersion K (TagName r) of
          Inl _ \<Rightarrow> keepReleases K rs
        | Inr v \<Rightarrow>
            if verPreRelease K v \<noteq> '''' then keepReleases K rs
            else \<lparr>rel_Version = v, PublishedAt = raw_PublishedAt r\<rparr> # keepReleases K rs))"

text \<open>
  \<open>(*Fetcher).List\<close> with the default URL (the operator sets no other). The HTTP call answers
  the status and the body or the error met reading it; a body longer than the limit is refused.
\<close>

definition ListReleases :: "('v, 's) env \<Rightarrow> ('s, goerr + 'v release list) io" where
  "ListReleases E = do {
     resp \<leftarrow> httpGet E DefaultURL;
     (case resp of
        Inl err \<Rightarrow> return (Inl (wrapErr ''failed to fetch releases'' err))
      | Inr (status, body) \<Rightarrow>
          if status \<noteq> 200 then
            return (Inl (TextError (''releases endpoint returned status '' @ showInt (int status))))
          else
            (case body of
               Inl err \<Rightarrow> return (Inl (wrapErr ''failed to read releases'' err))
             | Inr text \<Rightarrow>
                 if length text > maxResponseBytes then
                   return (Inl (TextError (''releases response exceeds '' @ showInt (int maxResponseBytes) @ '' bytes'')))
                 else
                   (case decodeReleases E text of
                      Inl err \<Rightarrow> return (Inl (wrapErr ''failed to decode releases'' err))
                    | Inr raw \<Rightarrow> return (Inr (keepReleases E raw)))))
   }"

definition permitted :: "('v, 'm) klib_scheme \<Rightarrow> 'v \<Rightarrow> 'v \<Rightarrow> string \<Rightarrow> bool" where
  "permitted K current candidate allow =
     (if CompareVersion K candidate current \<le> 0 \<or> verMajor K candidate \<noteq> verMajor K current then False
      else if allow = AllowMinor then verMinor K candidate \<le> verMinor K current + 1
      else verMinor K candidate = verMinor K current)"

definition newerThan :: "('v, 'm) klib_scheme \<Rightarrow> 'v release \<Rightarrow> 'v release option \<Rightarrow> bool" where
  "newerThan K r best =
     (case best of None \<Rightarrow> True | Some b \<Rightarrow> CompareVersion K (rel_Version r) (rel_Version b) > 0)"

definition selectStep ::
  "('v, 'm) klib_scheme \<Rightarrow> 'v \<Rightarrow> string \<Rightarrow> duration \<Rightarrow> time \<Rightarrow> 'v selection \<Rightarrow> 'v release \<Rightarrow> 'v selection" where
  "selectStep K current allow minAge now res0 r =
     (let res = (if newerThan K r (sel_Latest res0) then res0\<lparr>sel_Latest := Some r\<rparr> else res0) in
      if \<not> permitted K current (rel_Version r) allow then res
      else if now - PublishedAt r \<ge> minAge then
        (if newerThan K r (sel_Target res) then res\<lparr>sel_Target := Some r\<rparr> else res)
      else if newerThan K r (sel_Pending res) then res\<lparr>sel_Pending := Some r\<rparr>
      else res)"

definition Select ::
  "('v, 'm) klib_scheme \<Rightarrow> 'v release list \<Rightarrow> 'v \<Rightarrow> string \<Rightarrow> duration \<Rightarrow> time \<Rightarrow> 'v selection" where
  "Select K releases current allow minAge now =
     (let res = foldl (selectStep K current allow minAge now)
                  \<lparr>sel_Latest = None, sel_Target = None, sel_Pending = None\<rparr> releases
      in case (sel_Pending res, sel_Target res) of
           (Some p, Some t) \<Rightarrow>
             if CompareVersion K (rel_Version p) (rel_Version t) \<le> 0 then res\<lparr>sel_Pending := None\<rparr> else res
         | _ \<Rightarrow> res)"

section \<open>The support matrix\<close>

definition kubernetesSupport :: "((nat \<times> nat) \<times> (nat \<times> nat)) list" where
  "kubernetesSupport =
     [((1, 10), (28, 33)), ((1, 11), (29, 34)), ((1, 12), (30, 35)), ((1, 13), (31, 36)), ((1, 14), (33, 37))]"

definition ValidateKubernetesVersion :: "('v, 'm) klib_scheme \<Rightarrow> string \<Rightarrow> string \<Rightarrow> goerr option" where
  "ValidateKubernetesVersion K talosVer kubernetesVer =
     (case parseGeneric K talosVer of
        Inl err \<Rightarrow> Some (wrapErr (''invalid talos version '' @ quoted talosVer) err)
      | Inr tv \<Rightarrow>
          (case parseGeneric K kubernetesVer of
             Inl err \<Rightarrow> Some (wrapErr (''invalid kubernetes version '' @ quoted kubernetesVer) err)
           | Inr k8s \<Rightarrow>
               (case map_of kubernetesSupport (verMajor K tv, verMinor K tv) of
                  None \<Rightarrow> Some (WrapError [] (SentinelError ErrUnknownTalosVersion) ('': '' @ talosVer))
                | Some (lo, hi) \<Rightarrow>
                    if verMajor K k8s \<noteq> 1 \<or> verMinor K k8s < lo \<or> verMinor K k8s > hi then
                      Some (TextError (''kubernetes '' @ kubernetesVer @ '' is not supported by talos '' @ talosVer
                        @ '' (supported: 1.'' @ showInt (int lo) @ ''-1.'' @ showInt (int hi) @ '')''))
                    else None)))"

section \<open>The selected release\<close>

definition eligible :: "('v, 'm) klib_scheme \<Rightarrow> 'v \<Rightarrow> string \<Rightarrow> duration \<Rightarrow> time \<Rightarrow> 'v release \<Rightarrow> bool" where
  "eligible K current allow minAge now r \<longleftrightarrow>
     permitted K current (rel_Version r) allow \<and> now - PublishedAt r \<ge> minAge"

definition tooYoung :: "('v, 'm) klib_scheme \<Rightarrow> 'v \<Rightarrow> string \<Rightarrow> duration \<Rightarrow> time \<Rightarrow> 'v release \<Rightarrow> bool" where
  "tooYoung K current allow minAge now r \<longleftrightarrow>
     permitted K current (rel_Version r) allow \<and> now - PublishedAt r < minAge"

text \<open>Each of the three results is the first best among the releases of one class.\<close>

definition pick :: "('v, 'm) klib_scheme \<Rightarrow> ('v release \<Rightarrow> bool) \<Rightarrow> 'v release option \<Rightarrow> 'v release \<Rightarrow> 'v release option" where
  "pick K P best r = (if P r \<and> newerThan K r best then Some r else best)"

lemma selectStep_pick:
  "sel_Latest (selectStep K c al m n res r) = pick K (\<lambda>_. True) (sel_Latest res) r"
  "sel_Target (selectStep K c al m n res r) = pick K (eligible K c al m n) (sel_Target res) r"
  "sel_Pending (selectStep K c al m n res r) = pick K (tooYoung K c al m n) (sel_Pending res) r"
  by (auto simp: selectStep_def pick_def eligible_def tooYoung_def Let_def)

lemma foldl_selectStep:
  "sel_Latest (foldl (selectStep K c al m n) res rs) = foldl (pick K (\<lambda>_. True)) (sel_Latest res) rs"
  "sel_Target (foldl (selectStep K c al m n) res rs) = foldl (pick K (eligible K c al m n)) (sel_Target res) rs"
  "sel_Pending (foldl (selectStep K c al m n) res rs) = foldl (pick K (tooYoung K c al m n)) (sel_Pending res) rs"
  by (induction rs arbitrary: res) (simp_all add: selectStep_pick)

definition bestOf :: "('v, 'm) klib_scheme \<Rightarrow> ('v release \<Rightarrow> bool) \<Rightarrow> 'v release list \<Rightarrow> 'v release option \<Rightarrow> bool" where
  "bestOf K P rs best \<longleftrightarrow>
     (case best of
        None \<Rightarrow> filter P rs = []
      | Some b \<Rightarrow> b \<in> set rs \<and> P b \<and> list_all (\<lambda>r. \<not> verLess K (rel_Version b) (rel_Version r)) (filter P rs))"

lemma bestOf_step:
  assumes L: "lawfulVersions K" and B: "bestOf K P rs best"
  shows "bestOf K P (rs @ [r]) (pick K P best r)"
proof -
  have pos: "\<And>a b. 0 < CompareVersion K a b \<longleftrightarrow> verLess K b a" by (rule CompareVersion_pos [OF L])
  have asym: "\<And>a b. verLess K a b \<Longrightarrow> \<not> verLess K b a"
    and neg: "\<And>a b c. \<not> verLess K a b \<Longrightarrow> \<not> verLess K b c \<Longrightarrow> \<not> verLess K a c"
    using lawful_asym [OF L] lawful_trans [OF L] by blast+
  show ?thesis
  proof (cases best)
    case None
    then show ?thesis using B asym by (auto simp: bestOf_def pick_def newerThan_def)
  next
    case (Some b)
    then have b: "b \<in> set rs" "P b" "\<And>r. r \<in> set rs \<Longrightarrow> P r \<Longrightarrow> \<not> verLess K (rel_Version b) (rel_Version r)"
      using B by (auto simp: bestOf_def list_all_iff)
    show ?thesis
    proof (cases "P r \<and> verLess K (rel_Version b) (rel_Version r)")
      case True
      then have "\<not> verLess K (rel_Version r) (rel_Version x)" if "x \<in> set rs" "P x" for x
        using b(3) [OF that] asym neg by blast
      then show ?thesis
        using True Some asym by (auto simp: bestOf_def pick_def newerThan_def pos list_all_iff)
    next
      case False
      then show ?thesis using Some b by (auto simp: bestOf_def pick_def newerThan_def pos list_all_iff)
    qed
  qed
qed

lemma bestOf_foldl:
  assumes "lawfulVersions K"
  shows "bestOf K P rs best \<Longrightarrow> bestOf K P (rs @ rs') (foldl (pick K P) best rs')"
proof (induction rs' arbitrary: rs best)
  case Nil
  then show ?case by simp
next
  case (Cons r rs')
  then show ?case using Cons.IH [OF bestOf_step [OF assms Cons.prems, of r]] by simp
qed

lemma Select_bests:
  assumes "lawfulVersions K"
  shows "bestOf K (\<lambda>_. True) releases (sel_Latest (Select K releases c al m n))"
    and "bestOf K (eligible K c al m n) releases (sel_Target (Select K releases c al m n))"
    and "sel_Pending (Select K releases c al m n) = Some p \<Longrightarrow>
      bestOf K (tooYoung K c al m n) releases (Some p) \<and>
      (\<forall>t. sel_Target (Select K releases c al m n) = Some t \<longrightarrow> verLess K (rel_Version t) (rel_Version p))"
proof -
  let ?res = "foldl (selectStep K c al m n) \<lparr>sel_Latest = None, sel_Target = None, sel_Pending = None\<rparr> releases"
  have best: "bestOf K P releases (foldl (pick K P) None releases)" for P
    using bestOf_foldl [OF assms, of P "[]" None releases] by (simp add: bestOf_def)
  have "sel_Latest (Select K releases c al m n) = sel_Latest ?res"
    "sel_Target (Select K releases c al m n) = sel_Target ?res"
    by (auto simp: Select_def Let_def split: option.splits)
  then show "bestOf K (\<lambda>_. True) releases (sel_Latest (Select K releases c al m n))"
    "bestOf K (eligible K c al m n) releases (sel_Target (Select K releases c al m n))"
    using best by (simp_all add: foldl_selectStep)
  assume p: "sel_Pending (Select K releases c al m n) = Some p"
  then have p': "sel_Pending ?res = Some p"
    by (auto simp: Select_def Let_def split: option.splits if_splits)
  then have "bestOf K (tooYoung K c al m n) releases (Some p)"
    using best [of "tooYoung K c al m n"] by (simp add: foldl_selectStep)
  moreover have "verLess K (rel_Version t) (rel_Version p)"
    if "sel_Target (Select K releases c al m n) = Some t" for t
  proof -
    have "sel_Target ?res = Some t" using that by (auto simp: Select_def Let_def split: option.splits if_splits)
    then have "0 < CompareVersion K (rel_Version p) (rel_Version t)"
      using p p' by (auto simp: Select_def Let_def split: option.splits if_splits)
    then show ?thesis by (simp add: CompareVersion_pos [OF assms])
  qed
  ultimately show "bestOf K (tooYoung K c al m n) releases (Some p) \<and>
      (\<forall>t. sel_Target (Select K releases c al m n) = Some t \<longrightarrow> verLess K (rel_Version t) (rel_Version p))" by blast
qed

lemma permitted_step:
  "permitted K current candidate allow \<longleftrightarrow>
     0 < CompareVersion K candidate current \<and> verMajor K candidate = verMajor K current \<and>
     (if allow = AllowMinor then verMinor K candidate \<le> Suc (verMinor K current)
      else verMinor K candidate = verMinor K current)"
  by (auto simp: permitted_def)

section \<open>Which version pairs are supported\<close>

lemma ValidateKubernetesVersion_None:
  "ValidateKubernetesVersion K t k = None \<longleftrightarrow>
     (\<exists>tv kv lo hi. parseGeneric K t = Inr tv \<and> parseGeneric K k = Inr kv \<and>
        map_of kubernetesSupport (verMajor K tv, verMinor K tv) = Some (lo, hi) \<and>
        verMajor K kv = 1 \<and> lo \<le> verMinor K kv \<and> verMinor K kv \<le> hi)"
  by (auto simp: ValidateKubernetesVersion_def split: sum.splits option.splits if_splits)

lemma isDowngrade_iff:
  assumes "lawfulVersions K"
  shows "isDowngrade K cur tgt \<longleftrightarrow>
     (\<exists>c t. ParseVersion K cur = Inr c \<and> ParseVersion K tgt = Inr t \<and> verLess K t c)"
  by (auto simp: isDowngrade_def CompareVersion_lawful [OF assms] split: sum.splits if_splits)

lemma isDowngrade_asym:
  assumes "lawfulVersions K" and "isDowngrade K a b"
  shows "\<not> isDowngrade K b a"
  using assms(2) lawful_asym [OF assms(1)] by (auto simp: isDowngrade_iff [OF assms(1)])

lemma emits_ListReleases [emits_rules]: "(\<And>u r. P (EvHttpGet u r)) \<Longrightarrow> emits P (ListReleases E)"
  unfolding ListReleases_def by (intro emits_rules)

lemma keepReleases_stable:
  "list_all (\<lambda>r. verPreRelease K (rel_Version r) = '''' \<and>
     (\<exists>g\<in>set raw. \<not> Draft g \<and> \<not> Prerelease g \<and> ParseVersion K (TagName g) = Inr (rel_Version r)))
   (keepReleases K raw)"
  by (induction raw) (auto simp: list_all_iff split: sum.splits)

end
