(* ===== verification/Images.thy ===== *)
theory Images imports Effects begin

text \<open>
  Container images: \<open>internal/patchutil/version.go\<close> builds the references a node is upgraded with,
  \<open>internal/registry\<close> takes a reference apart again and asks the registry for its manifest. HTTP
  requests are calls of the environment that return the status and the header or body the code looks
  at; URL parsing and encoding and the JSON decoder are parameters.
\<close>

section \<open>References of the upgrade images\<close>

definition BuildInstallerImage :: "targetSpec \<Rightarrow> string \<Rightarrow> goerr + string" where
  "BuildInstallerImage t nodeSchematicID =
     (if Source t = ''ghcr'' \<or> Source t = '''' then
        Inr (''ghcr.io/siderolabs/installer:'' @ TalosVersion t)
      else
        (let schematicID = (if SchematicID t = '''' then nodeSchematicID else SchematicID t) in
         if schematicID = '''' then
           Inl (TextError ''schematicID is required when source=factory and the node's current schematic is unknown'')
         else if Installer t = '''' then
           Inl (TextError ''installer is required when source=factory'')
         else
           (let suffix = (if SecureBoot t then ''-secureboot'' else '''') in
            Inr (''factory.talos.dev/'' @ Installer t @ ''-installer'' @ suffix @ ''/'' @ schematicID @ '':'' @ TalosVersion t))))"

definition BuildKubeletImage :: "string \<Rightarrow> string" where
  "BuildKubeletImage v = ''ghcr.io/siderolabs/kubelet:'' @ v"

definition BuildAPIServerImage :: "string \<Rightarrow> string" where
  "BuildAPIServerImage v = ''registry.k8s.io/kube-apiserver:'' @ v"

definition BuildControllerManagerImage :: "string \<Rightarrow> string" where
  "BuildControllerManagerImage v = ''registry.k8s.io/kube-controller-manager:'' @ v"

definition BuildSchedulerImage :: "string \<Rightarrow> string" where
  "BuildSchedulerImage v = ''registry.k8s.io/kube-scheduler:'' @ v"

definition BuildKubeProxyImage :: "string \<Rightarrow> string" where
  "BuildKubeProxyImage v = ''registry.k8s.io/kube-proxy:'' @ v"

section \<open>Taking a reference apart\<close>

definition parseImage :: "string \<Rightarrow> goerr + string \<times> string \<times> string" where
  "parseImage img =
     (if CHR ''/'' \<notin> set img then Inl (TextError (''image '' @ quoted img @ '' has no registry host''))
      else
        (let host = takeWhile (\<lambda>c. c \<noteq> CHR ''/'') img;
             rest = drop (length host + 1) img
         in if CHR '':'' \<notin> set rest then Inl (TextError (''image '' @ quoted img @ '' has no tag''))
            else
              (let tag = rev (takeWhile (\<lambda>c. c \<noteq> CHR '':'') (rev rest));
                   repo = take (length rest - length tag - 1) rest
               in if CHR ''/'' \<in> set tag then Inl (TextError (''image '' @ quoted img @ '' has no tag''))
                  else Inr (host, repo, tag))))"

lemma takeWhile_before: "x \<notin> set xs \<Longrightarrow> takeWhile (\<lambda>c. c \<noteq> x) (xs @ x # ys) = xs"
  by (induction xs) auto

lemma parseImage_reference:
  assumes "CHR ''/'' \<notin> set host" and "CHR '':'' \<notin> set tag" and "CHR ''/'' \<notin> set tag"
  shows "parseImage (host @ ''/'' @ repo @ '':'' @ tag) = Inr (host, repo, tag)"
proof -
  have h: "takeWhile (\<lambda>c. c \<noteq> CHR ''/'') (host @ ''/'' @ repo @ '':'' @ tag) = host"
    using takeWhile_before [OF assms(1)] by simp
  have "takeWhile (\<lambda>c. c \<noteq> CHR '':'') (rev tag @ CHR '':'' # rev repo) = rev tag"
    by (rule takeWhile_before) (simp add: assms(2))
  then have t: "rev (takeWhile (\<lambda>c. c \<noteq> CHR '':'') (rev (repo @ '':'' @ tag))) = tag" by simp
  have d: "drop (length host + 1) (host @ ''/'' @ repo @ '':'' @ tag) = repo @ '':'' @ tag" by simp
  show ?thesis
    unfolding parseImage_def Let_def h d t using assms(3) by simp
qed

lemma kubernetes_image_parts:
  assumes "CHR '':'' \<notin> set v" and "CHR ''/'' \<notin> set v"
  shows "parseImage (BuildKubeletImage v) = Inr (''ghcr.io'', ''siderolabs/kubelet'', v)"
    and "parseImage (BuildAPIServerImage v) = Inr (''registry.k8s.io'', ''kube-apiserver'', v)"
    and "parseImage (BuildControllerManagerImage v) = Inr (''registry.k8s.io'', ''kube-controller-manager'', v)"
    and "parseImage (BuildSchedulerImage v) = Inr (''registry.k8s.io'', ''kube-scheduler'', v)"
  using assms parseImage_reference [of "''ghcr.io''" v "''siderolabs/kubelet''"]
    parseImage_reference [of "''registry.k8s.io''" v "''kube-apiserver''"]
    parseImage_reference [of "''registry.k8s.io''" v "''kube-controller-manager''"]
    parseImage_reference [of "''registry.k8s.io''" v "''kube-scheduler''"]
  by (simp_all add: BuildKubeletImage_def BuildAPIServerImage_def BuildControllerManagerImage_def BuildSchedulerImage_def)

lemma installer_image_parts:
  assumes "BuildInstallerImage t nodeSchematicID = Inr img"
    and "CHR '':'' \<notin> set (TalosVersion t)" and "CHR ''/'' \<notin> set (TalosVersion t)"
  shows "parseImage img =
    (if Source t = ''ghcr'' \<or> Source t = '''' then Inr (''ghcr.io'', ''siderolabs/installer'', TalosVersion t)
     else Inr (''factory.talos.dev'',
       Installer t @ ''-installer'' @ (if SecureBoot t then ''-secureboot'' else '''') @ ''/''
         @ (if SchematicID t = '''' then nodeSchematicID else SchematicID t), TalosVersion t))"
  using assms parseImage_reference [of "''ghcr.io''" "TalosVersion t" "''siderolabs/installer''"]
    parseImage_reference [of "''factory.talos.dev''" "TalosVersion t"
      "Installer t @ ''-installer'' @ (if SecureBoot t then ''-secureboot'' else '''') @ ''/''
         @ (if SchematicID t = '''' then nodeSchematicID else SchematicID t)"]
  by (auto simp: BuildInstallerImage_def Let_def split: if_splits)

section \<open>Asking the registry\<close>

text \<open>The regular expression \<open>(\w+)="([^"]*)"\<close> of an authentication challenge, leftmost matches.\<close>

definition isWordChar :: "char \<Rightarrow> bool" where
  "isWordChar c \<longleftrightarrow>
     (let n = (of_char c :: nat)
      in (65 \<le> n \<and> n \<le> 90) \<or> (97 \<le> n \<and> n \<le> 122) \<or> (48 \<le> n \<and> n \<le> 57) \<or> n = 95)"

function authParams :: "string \<Rightarrow> strmap" where
  "authParams s =
     (case s of
        [] \<Rightarrow> []
      | c # cs \<Rightarrow>
          (let w = takeWhile isWordChar s; rest = dropWhile isWordChar s in
           if w \<noteq> [] \<and> hasPrefix rest [CHR ''='', CHR 0x22] \<and> CHR 0x22 \<in> set (drop 2 rest)
           then (let val = takeWhile (\<lambda>c. c \<noteq> CHR 0x22) (drop 2 rest)
                 in (w, val) # authParams (drop (length val + 1) (drop 2 rest)))
           else authParams cs))"
  by pat_completeness auto
termination
proof (relation "measure length", goal_cases)
  case 1
  then show ?case by simp
next
  case (2 s c cs w rest val)
  have "rest \<noteq> []" using 2(4) by (cases "rest = []") simp_all
  then have "length (drop 2 rest) < length rest" by simp
  moreover have "length rest \<le> length s" using 2 length_dropWhile_le by metis
  ultimately show ?case by simp
next
  case (3 s c cs w rest)
  then show ?case by simp
qed

declare authParams.simps [simp del]

definition authParam :: "strmap \<Rightarrow> string \<Rightarrow> string" where
  "authParam ps key = (case map_of (rev ps) key of Some v \<Rightarrow> v | None \<Rightarrow> '''')"

definition fetchToken :: "('v, 's) env \<Rightarrow> string \<Rightarrow> ('s, goerr + string) io" where
  "fetchToken E challenge =
     (if \<not> hasPrefix challenge ''Bearer '' then
        return (Inl (TextError (''unsupported auth challenge '' @ quoted challenge)))
      else
        (let params = authParams challenge; realm = authParam params ''realm'';
             invalid = TextError (''invalid token realm '' @ quoted realm)
         in case parseURL E realm of
              Inl err \<Rightarrow> return (Inl invalid)
            | Inr (scheme, url) \<Rightarrow>
                if scheme \<noteq> ''https'' then return (Inl invalid)
                else do {
                  resp \<leftarrow> httpGet E (withQuery E url
                    ((if authParam params ''service'' \<noteq> '''' then [(''service'', authParam params ''service'')] else []) @
                     (if authParam params ''scope'' \<noteq> '''' then [(''scope'', authParam params ''scope'')] else [])));
                  (case resp of
                     Inl err \<Rightarrow> return (Inl err)
                   | Inr (status, body) \<Rightarrow>
                       if status \<noteq> 200 then
                         return (Inl (TextError (''token endpoint returned status '' @ showInt (int status))))
                       else
                         (case (case body of Inl err \<Rightarrow> Inl err | Inr text \<Rightarrow> decodeToken E text) of
                            Inl err \<Rightarrow> return (Inl (wrapErr ''invalid token response'' err))
                          | Inr (token, accessToken) \<Rightarrow>
                              if token \<noteq> '''' then return (Inr token)
                              else if accessToken \<noteq> '''' then return (Inr accessToken)
                              else return (Inl (TextError ''token response contained no token''))))
                }))"

definition manifestResult :: "string \<Rightarrow> string \<Rightarrow> nat \<Rightarrow> goerr option" where
  "manifestResult host img status =
     (if status = 200 then None
      else if status = 404 then Some (WrapError [] (SentinelError ErrImageNotFound) ('': '' @ img))
      else Some (TextError (''registry '' @ host @ '' returned status '' @ showInt (int status) @ '' for '' @ img)))"

text \<open>
  \<open>(*Checker).Exists\<close>. The environment's HEAD call takes the URL and the bearer token (empty for
  none) and answers the status and the \<open>WWW-Authenticate\<close> header.
\<close>

definition Exists :: "('v, 's) env \<Rightarrow> string \<Rightarrow> ('s, goerr option) io" where
  "Exists E img =
     (case parseImage img of
        Inl err \<Rightarrow> return (Some err)
      | Inr (host, repo, tag) \<Rightarrow>
          (let manifestURL = ''https://'' @ host @ ''/v2/'' @ repo @ ''/manifests/'' @ tag
           in do {
             resp \<leftarrow> httpHead E manifestURL '''';
             (case resp of
                Inl err \<Rightarrow> return (Some err)
              | Inr (status, challenge) \<Rightarrow>
                  if status = 401 then do {
                    tok \<leftarrow> fetchToken E challenge;
                    (case tok of
                       Inl err \<Rightarrow> return (Some (wrapErr (''registry '' @ host @ '' authentication failed'') err))
                     | Inr token \<Rightarrow> do {
                         resp2 \<leftarrow> httpHead E manifestURL token;
                         (case resp2 of
                            Inl err \<Rightarrow> return (Some err)
                          | Inr (status2, _) \<Rightarrow> return (manifestResult host img status2))
                       })
                  }
                  else return (manifestResult host img status))
           }))"

lemma emits_fetchToken [emits_rules]: "(\<And>u r. P (EvHttpGet u r)) \<Longrightarrow> emits P (fetchToken E c)"
  unfolding fetchToken_def by (intro emits_rules)

lemma emits_Exists [emits_rules]:
  "(\<And>u r. P (EvHttpGet u r)) \<Longrightarrow> (\<And>u t r. P (EvHttpHead u t r)) \<Longrightarrow> emits P (Exists E img)"
  unfolding Exists_def by (intro emits_rules)

lemma manifestResult_None: "manifestResult host img status = None \<longleftrightarrow> status = 200"
  by (simp add: manifestResult_def)

text \<open>An image counts as present only when the last answer of its registry was 200 for its manifest.\<close>

lemma Exists_present:
  "runs h (Exists E img) (\<lambda>res h'. res = None \<longrightarrow>
     (\<exists>host repo tag t c. parseImage img = Inr (host, repo, tag) \<and>
        last h' = EvHttpHead (''https://'' @ host @ ''/v2/'' @ repo @ ''/manifests/'' @ tag) t (Inr (200, c))))"
  unfolding Exists_def Let_def
  by (intro runs_rules runs_emits [OF emits_fetchToken [of "\<lambda>_. True"]]) (auto simp: manifestResult_None)

end
