(* ===== verification/Fixture.thy ===== *)
theory Fixture imports Effects "HOL-Library.Product_Lexorder" begin

text \<open>
  A small concrete outside, for the statements that assume something of the environment: versions are
  triples read from \<open>v1.2.3\<close>, label selectors match exact labels, and the API server is a store of
  nodes. Every other call answers with nothing. The witnesses evaluate the model on it.
\<close>

type_synonym fixVersion = "nat \<times> nat \<times> nat"

fun readNat :: "string \<Rightarrow> nat option" where
  "readNat [] = None"
| "readNat [c] = (let n = (of_char c :: nat) in if 48 \<le> n \<and> n \<le> 57 then Some (n - 48) else None)"
| "readNat (c # d # rest) =
     (let n = (of_char c :: nat) in
      if 48 \<le> n \<and> n \<le> 57 then
        (case readNat (d # rest) of None \<Rightarrow> None | Some m \<Rightarrow> Some ((n - 48) * 10 ^ length (d # rest) + m))
      else None)"

fun splitDots :: "string \<Rightarrow> string \<Rightarrow> string list" where
  "splitDots acc [] = [rev acc]"
| "splitDots acc (c # cs) = (if c = CHR ''.'' then rev acc # splitDots [] cs else splitDots (c # acc) cs)"

definition readVersion :: "string \<Rightarrow> goerr + fixVersion" where
  "readVersion s =
     (case map readNat (splitDots [] (if hasPrefix s ''v'' then tl s else s)) of
        [Some a, Some b, Some c] \<Rightarrow> Inr (a, b, c)
      | _ \<Rightarrow> Inl (TextError ''could not parse version''))"

definition fixLib :: "fixVersion klib" where
  "fixLib = \<lparr>
     asSelector = (\<lambda>s. Inr (\<lambda>ls. list_all (\<lambda>(k, v). map_of ls k = Some v) (MatchLabels s))),
     labelValueErrors = (\<lambda>s. if s = '''' then [''empty''] else []),
     formatSelector = (\<lambda>_. ''''),
     controllerOf = (\<lambda>os. List.find owner_Controller os),
     setCondition = (\<lambda>cs c. c # filter (\<lambda>d. cond_Type d \<noteq> cond_Type c) cs),
     findCondition = (\<lambda>cs t. List.find (\<lambda>c. cond_Type c = t) cs),
     setOwnerOfJob = (\<lambda>p j. Inr (j\<lparr>job_Owner := Some (plan_Name p)\<rparr>)),
     setOwnerOfLease = (\<lambda>j l. Inr (l\<lparr>lease_Owner := Some (job_Name j)\<rparr>)),
     setOwnerOfPlan = (\<lambda>p c. Inr (c\<lparr>plan_Owner := Some (plan_Name p)\<rparr>)),
     parseSemantic = readVersion,
     parseGeneric = readVersion,
     verLess = (<),
     verGreater = (>),
     verMajor = (\<lambda>(a, _, _). a),
     verMinor = (\<lambda>(_, b, _). b),
     verPreRelease = (\<lambda>_. ''''),
     verString = (\<lambda>(a, b, c). showInt (int a) @ ''.'' @ showInt (int b) @ ''.'' @ showInt (int c)),
     appendCertsFromPEM = (\<lambda>_. True),
     x509KeyPair = (\<lambda>_ _. None),
     providerBytes = Inr,
     loadPatches = (\<lambda>ps. Inr (concat ps)),
     applyPatches = (\<lambda>b p. Inr (b @ p)),
     outputBytes = Inr,
     parseURL = (\<lambda>s. Inr (''https'', s)),
     withQuery = (\<lambda>u _. u),
     decodeReleases = (\<lambda>_. Inr []),
     decodeToken = (\<lambda>_. Inr ([], []))\<rparr>"

type_synonym fixState = "string \<Rightarrow> node option"

definition silent :: "'a \<Rightarrow> fixState \<Rightarrow> (goerr + 'a) \<times> fixState" where
  "silent a s = (Inr a, s)"

definition missing :: "fixState \<Rightarrow> (goerr + 'a) \<times> fixState" where
  "missing s = (Inl (ApiError NotFound ''not found''), s)"

definition accepted :: "fixState \<Rightarrow> goerr option \<times> fixState" where
  "accepted s = (None, s)"

definition fixEnv :: "(fixVersion, fixState) env" where
  "fixEnv = klib.extend fixLib \<lparr>
     op_now = (\<lambda>s. (0, s)),
     op_getJob = (\<lambda>_. missing),
     op_getPlan = (\<lambda>_. missing),
     op_getNode = (\<lambda>name s. case s name of Some n \<Rightarrow> (Inr n, s) | None \<Rightarrow> (Inl (ApiError NotFound ''not found''), s)),
     op_getSecret = (\<lambda>_ _. missing),
     op_getDaemonSet = (\<lambda>_ _. missing),
     op_listNodes = (\<lambda>_. silent []),
     op_listPods = (\<lambda>_. silent []),
     op_listNamespacedPods = (\<lambda>_ _. silent []),
     op_listJobs = (\<lambda>_. silent []),
     op_listLeases = (\<lambda>_ _. silent []),
     op_listPlans = silent [],
     op_listChildPlans = (\<lambda>_. silent []),
     op_patchNode = (\<lambda>_ n s. (None, s(node_Name n \<mapsto> n))),
     op_evictPod = (\<lambda>_. accepted),
     op_deletePod = (\<lambda>_. accepted),
     op_patchJobStatus = (\<lambda>_. silent),
     op_patchPlanStatus = (\<lambda>_. silent),
     op_patchPlan = (\<lambda>_. silent),
     op_patchDaemonSet = (\<lambda>_ _. accepted),
     op_createJob = silent,
     op_deleteJob = (\<lambda>_. accepted),
     op_createLease = (\<lambda>_. accepted),
     op_deleteLease = (\<lambda>_. accepted),
     op_createPlan = (\<lambda>_. accepted),
     op_talosDial = (\<lambda>_ _. accepted),
     op_talosClose = accepted,
     op_talosVersion = (\<lambda>_. silent [Some ''v1.13.0'']),
     op_talosExtensions = (\<lambda>_. silent []),
     op_talosUpgrade = (\<lambda>_ _. silent 1),
     op_talosGetConfig = (\<lambda>_. silent (Some '''')),
     op_talosApplyConfig = (\<lambda>_ _ _. accepted),
     op_serverVersion = silent ''v1.36.0'',
     op_readyz = accepted,
     op_httpHead = (\<lambda>_ _. silent (200, '''')),
     op_httpGet = (\<lambda>_. silent (200, Inr '''')),
     hasDiscovery = True,
     retrySteps = 3,
     operatorNamespace = ''kangal-patch''\<rparr>"

definition fixNode :: "string \<Rightarrow> bool \<Rightarrow> node" where
  "fixNode name controlPlane =
     \<lparr>node_Name = name,
      node_Labels = (if controlPlane then [(''node-role.kubernetes.io/control-plane'', '''')] else []),
      node_Annotations = [], Unschedulable = False, Addresses = [(''InternalIP'', ''10.0.0.1'')],
      node_Conditions = [(''Ready'', ''True'')], KubeletVersion = ''v1.36.0'', BootID = ''boot-1''\<rparr>"

definition fixTarget :: targetSpec where
  "fixTarget = \<lparr>AutoUpdate = None, TalosVersion = ''v1.13.0'', KubernetesVersion = '''',
     AllowTalosDowngrade = False, Source = '''', Installer = '''', SchematicID = '''', SecureBoot = False\<rparr>"

definition fixSpec :: planSpec where
  "fixSpec = \<lparr>Target = fixTarget, NodeSelector = None, Groups = [], Strategy = \<lparr>strategy_Order = []\<rparr>,
     FailurePolicy = \<lparr>policy_Type = FailurePolicyHalt, MaxFailures = 1\<rparr>,
     Retention = \<lparr>History = 0\<rparr>, DelayBetweenNodes = 0, RespectPDBs = True, EvictUnmanagedPods = False,
     DrainTimeout = 0, RebootTimeout = 0, KubernetesUpgradeTimeout = 0, Paused = False, Cancelled = False,
     TalosConfig = \<lparr>Endpoints = [''10.0.0.1''], SecretRef = Some \<lparr>secret_Name = ''talos'', secret_Namespace = ''kangal-patch''\<rparr>\<rparr>,
     Maintenance = None\<rparr>"

definition fixStatus :: planStatus where
  "fixStatus = \<lparr>ps_Phase = PatchPhaseNone, ps_AutoUpdate = None, ps_TargetTalosVersion = '''',
     ps_TargetKubernetesVersion = '''', KubeProxyUpgraded = False, TotalNodes = 0, PendingNodes = 0,
     RunningNodes = 0, CompletedNodes = 0, FailedNodes = 0, ps_Groups = [], FailuresAcknowledged = 0,
     HistoryPurged = False, LastNodeScheduledAt = None, ps_Message = '''', ps_StartTime = None,
     ps_CompletionTime = None, ps_Conditions = []\<rparr>"

definition fixPlan :: patchPlan where
  "fixPlan = \<lparr>plan_Name = ''plan'', plan_Labels = [], plan_Generation = 1, plan_CreationTimestamp = 0,
     plan_DeletionTimestamp = None, plan_Owner = None, plan_Spec = fixSpec, plan_Status = fixStatus\<rparr>"

definition fixWorld :: "fixState world" where
  "fixWorld = \<lparr>server = Map.empty, calls = [], transientSince = Map.empty\<rparr>"

end
