(* ===== verification/RolloutProperties.thy ===== *)
theory RolloutProperties imports Scheduling Maintenance Versions Images Fixture begin

text \<open>
  The properties of the pure parts of the operator: which nodes a plan schedules and in which order,
  when patching is allowed, which release is rolled out and which images are asked for. Each follows
  from the lemmas of its component; a witness applies it to the concrete objects of \<open>Fixture\<close>.
\<close>

section \<open>Concrete inputs\<close>

definition fixNodes :: "node list" where
  "fixNodes = [fixNode ''w1'' False, fixNode ''c2'' True, fixNode ''c1'' True, fixNode ''w1'' False, fixNode ''c3'' True]"

definition fixWindow :: maintenanceWindow where
  "fixWindow = \<lparr>Days = [''Mon''], StartTime = ''22:00'', EndTime = ''02:00'', Disabled = False\<rparr>"

definition fixMaintenance :: maintenanceSpec where
  "fixMaintenance = \<lparr>ExcludeDates = [''1970-01-06''], Windows = [fixWindow]\<rparr>"

lemma IsControlPlane_fixNode [simp]: "IsControlPlane (fixNode name b) = b"
  by (simp add: fixNode_def IsControlPlane_def)

lemma fixRollout: "\<exists>r. Resolve fixLib fixNodes fixSpec = Inr r"
proof -
  have "\<not> isl (Resolve fixLib fixNodes fixSpec)" by code_simp
  then show ?thesis by (cases "Resolve fixLib fixNodes fixSpec") auto
qed

lemma fixWindow_proper: "proper fixWindow"
proof -
  have "clock ''22:00'' = Some (22 * hour)" "clock ''02:00'' = Some (2 * hour)" by code_simp+
  then show ?thesis by (simp add: proper_def wellFormed_def fixWindow_def duration_units)
qed

section \<open>Scheduling\<close>

text \<open>
  C26: Resolving a strategy covers every selected node exactly once: the scheduled nodes and the
  unassigned ones together are the distinct names of the selected nodes, no node is in two groups, and
  the reported number of selected nodes is their total.
\<close>

theorem rollout_covers_each_node_once:
  assumes "Resolve K nodes spec = Inr r"
  shows "distinct (map node_Name (Nodes r) @ Unassigned r) \<and>
    set (map node_Name (Nodes r) @ Unassigned r) = node_Name ` set nodes \<and>
    Selected r = length (Nodes r) + length (Unassigned r) \<and>
    Total r = length (Nodes r)"
  using Resolve_partition [OF assms] Total_eq_length by blast

theorem rollout_covers_each_node_once_witness:
  "\<exists>r. Resolve fixLib fixNodes fixSpec = Inr r \<and> distinct (map node_Name (Nodes r) @ Unassigned r) \<and>
    set (map node_Name (Nodes r) @ Unassigned r) = {''w1'', ''c1'', ''c2'', ''c3''}"
proof -
  obtain r where r: "Resolve fixLib fixNodes fixSpec = Inr r" using fixRollout by blast
  have "node_Name ` set fixNodes = {''w1'', ''c1'', ''c2'', ''c3''}"
    by (auto simp: fixNodes_def fixNode_def)
  then show ?thesis using rollout_covers_each_node_once [OF r] r by auto
qed

text \<open>
  Groups are filled in the order of \<open>strategy.order\<close>: the i-th group has the i-th name, a
  concurrency of at least one, its nodes sorted control plane first and then by name, and exactly the
  selected nodes that match its entry and no earlier one.
\<close>

theorem first_matching_group_takes_the_node:
  assumes "Resolve K nodes spec = Inr r" and "i < length (Order spec)"
  shows "map grp_Name (rollout_Groups r) = Order spec \<and>
    1 \<le> grp_Concurrency (rollout_Groups r ! i) \<and>
    sortedBy nodeCompare (grp_Nodes (rollout_Groups r ! i)) \<and>
    set (grp_Nodes (rollout_Groups r ! i)) =
      {n \<in> set (uniqueNodes [] nodes). inGroup K (Groups spec) (Order spec ! i) n \<and>
         (\<forall>j<i. \<not> inGroup K (Groups spec) (Order spec ! j) n)}"
  using Resolve_groups [OF assms(1)] assms(2) by blast

theorem first_matching_group_takes_the_node_witness:
  "\<exists>r. Resolve fixLib fixNodes fixSpec = Inr r \<and> map grp_Name (rollout_Groups r) = [GroupControlPlane, GroupWorkers] \<and>
     set (grp_Nodes (rollout_Groups r ! 1)) = {fixNode ''w1'' False}"
proof -
  obtain r where r: "Resolve fixLib fixNodes fixSpec = Inr r" using fixRollout by blast
  have order: "Order fixSpec = [GroupControlPlane, GroupWorkers]"
    by (simp add: Order_def fixSpec_def DefaultOrder_def)
  have unique: "set (uniqueNodes [] fixNodes) =
      {fixNode ''w1'' False, fixNode ''c2'' True, fixNode ''c1'' True, fixNode ''c3'' True}"
    by (auto simp: fixNodes_def fixNode_def)
  have "inGroup fixLib (Groups fixSpec) (Order fixSpec ! 1) n \<and>
      (\<forall>j<1. \<not> inGroup fixLib (Groups fixSpec) (Order fixSpec ! j) n) \<longleftrightarrow> \<not> IsControlPlane n" for n
    by (auto simp: order inGroup_def)
  then have "set (grp_Nodes (rollout_Groups r ! 1)) = {n \<in> set (uniqueNodes [] fixNodes). \<not> IsControlPlane n}"
    using first_matching_group_takes_the_node [OF r, of 1] by (simp add: order)
  also have "\<dots> = {fixNode ''w1'' False}" unfolding unique by auto
  finally show ?thesis using first_matching_group_takes_the_node [OF r, of 0] r by (simp add: order)
qed

text \<open>
  C37: A strategy is accepted exactly when \<open>strategy.order\<close> lists no group twice, every listed group
  is built in or declared with a valid label value as name and a valid selector, and no built-in group
  is given a selector.
\<close>

theorem strategy_accepted_iff_valid:
  "isl (Resolve K nodes spec) \<longleftrightarrow> \<not> validStrategy K (Order spec) (Groups spec)"
  by (rule Resolve_isl)

text \<open>
  C38: The rollout does not depend on the order in which the API server lists the nodes.
\<close>

theorem rollout_ignores_listing_order:
  assumes "distinct (map node_Name nodes)" and "mset nodes' = mset nodes"
  shows "Resolve K nodes' spec = Resolve K nodes spec"
  using assms by (rule Resolve_order_independent)

theorem rollout_ignores_listing_order_witness:
  "Resolve fixLib [fixNode ''b'' False, fixNode ''a'' True] fixSpec =
   Resolve fixLib [fixNode ''a'' True, fixNode ''b'' False] fixSpec"
  by (rule rollout_ignores_listing_order) (simp_all add: fixNode_def)

text \<open>
  The check that precedes a Kubernetes upgrade accepts a rollout exactly when no worker node is
  scheduled by the group of a control plane node or by an earlier one.
\<close>

theorem control_plane_first_iff:
  "CheckControlPlaneFirst r = None \<longleftrightarrow>
     \<not> (\<exists>i j. i < length (rollout_Groups r) \<and> j < length (rollout_Groups r) \<and>
          hasControlPlane (rollout_Groups r ! i) \<and> hasWorker (rollout_Groups r ! j) \<and> j \<le> i)"
  unfolding CheckControlPlaneFirst_iff using not_less by blast

text \<open>
  When the quorum check passes, no set of nodes that one group may have down at the same time
  breaks the etcd quorum: with more than one control plane node down, the remaining ones are still a
  strict majority.
\<close>

theorem quorum_survives_any_group:
  assumes "CheckControlPlaneQuorum r = None" and "g \<in> set (rollout_Groups r)"
    and "mset down \<subseteq># mset (grp_Nodes g)" and "int (length down) \<le> grp_Concurrency g"
  shows "controlPlaneCount down \<le> 1 \<or>
         controlPlaneCount (Nodes r) < 2 * (controlPlaneCount (Nodes r) - controlPlaneCount down)"
  using assms by (rule quorum_kept)

definition fixGroup :: rolloutGroup where
  "fixGroup = \<lparr>grp_Name = GroupControlPlane, grp_Concurrency = 2,
     grp_Nodes = map (\<lambda>n. fixNode n True) [''c1'', ''c2'', ''c3'', ''c4'', ''c5'']\<rparr>"

definition fixFive :: rollout where
  "fixFive = \<lparr>rollout_Groups = [fixGroup], Selected = 5, Unassigned = []\<rparr>"

theorem quorum_survives_any_group_witness:
  "controlPlaneCount [fixNode ''c1'' True, fixNode ''c2'' True] \<le> 1 \<or>
   controlPlaneCount (Nodes fixFive) <
     2 * (controlPlaneCount (Nodes fixFive) - controlPlaneCount [fixNode ''c1'' True, fixNode ''c2'' True])"
proof (rule quorum_survives_any_group)
  show "CheckControlPlaneQuorum fixFive = None" by code_simp
  show "fixGroup \<in> set (rollout_Groups fixFive)" by (simp add: fixFive_def)
  show "mset [fixNode ''c1'' True, fixNode ''c2'' True] \<subseteq># mset (grp_Nodes fixGroup)"
    by (simp add: fixGroup_def)
  show "int (length [fixNode ''c1'' True, fixNode ''c2'' True]) \<le> grp_Concurrency fixGroup"
    by (simp add: fixGroup_def)
qed

section \<open>Maintenance windows\<close>

text \<open>
  C32: With well-formed windows patching is allowed at an instant exactly when its date is not excluded
  and, if windows are given, an enabled one covers it: a window covers the time from its start on a
  listed day to its end, which is on the next day when it is earlier in the day than the start.
\<close>

theorem patching_allowed_iff_covered:
  assumes "list_all wellFormed (Windows m)"
  shows "fst (IsInMaintenanceWindow (Some m) t) \<longleftrightarrow>
     \<not> isExcludedDate (ExcludeDates m) t \<and>
     (Windows m = [] \<or> list_ex (\<lambda>w. \<not> Disabled w \<and> covers w t) (Windows m))"
  using assms by (rule IsInMaintenanceWindow_iff)

theorem patching_allowed_iff_covered_witness:
  "\<not> fst (IsInMaintenanceWindow (Some fixMaintenance) (4 * day + 12 * hour)) \<longleftrightarrow> \<not> covers fixWindow (4 * day + 12 * hour)"
proof -
  have "list_all wellFormed (Windows fixMaintenance)"
    using fixWindow_proper by (simp add: fixMaintenance_def proper_def)
  moreover have "\<not> isExcludedDate (ExcludeDates fixMaintenance) (4 * day + 12 * hour)" by code_simp
  ultimately show ?thesis
    using patching_allowed_iff_covered [of fixMaintenance "4 * day + 12 * hour"]
    by (simp add: fixMaintenance_def fixWindow_def)
qed

text \<open>
  The instant \<open>NextMaintenanceWindow\<close> returns is not in the past and is one at which patching
  is allowed, so a plan that is requeued for it can proceed then.
\<close>

theorem next_window_is_open:
  assumes "NextMaintenanceWindow spec now = Inr t"
    and "case spec of None \<Rightarrow> True | Some m \<Rightarrow> list_all proper (Windows m)"
  shows "now \<le> t \<and> fst (IsInMaintenanceWindow spec t)"
  using assms by (rule NextMaintenanceWindow_allowed)

theorem next_window_is_open_witness:
  "NextMaintenanceWindow (Some fixMaintenance) (2 * day) = Inr (4 * day + 22 * hour) \<and>
   fst (IsInMaintenanceWindow (Some fixMaintenance) (4 * day + 22 * hour))"
proof -
  have "NextMaintenanceWindow (Some fixMaintenance) (2 * day) = Inr (4 * day + 22 * hour)" by code_simp
  then show ?thesis
    using next_window_is_open [of "Some fixMaintenance" "2 * day" "4 * day + 22 * hour"] fixWindow_proper
    by (simp add: fixMaintenance_def)
qed

text \<open>
  C40: With windows given, \<open>NextMaintenanceWindow\<close> returns the earliest opening among today and the
  next six days, and an error exactly when there is none. If every window has a length, patching is
  allowed at the instant returned, so a plan that is requeued for it can proceed then.
\<close>

theorem next_window_is_earliest:
  assumes "Windows m \<noteq> []"
  shows "case NextMaintenanceWindow (Some m) now of
      Inl _ \<Rightarrow> \<not> (\<exists>i<7. \<exists>t. opensAt m now i t)
    | Inr t \<Rightarrow> (\<exists>i<7. opensAt m now i t) \<and> \<not> (\<exists>i<7. \<exists>u<t. opensAt m now i u) \<and>
        (if list_all proper (Windows m) then fst (IsInMaintenanceWindow (Some m) t) else True)"
  using NextMaintenanceWindow_least [OF assms, of now] NextMaintenanceWindow_allowed [of "Some m" now]
  by (auto simp: leastOf_def not_less [symmetric] split: sum.splits)

theorem next_window_is_earliest_witness:
  "(\<exists>i<7. opensAt fixMaintenance (2 * day) i (4 * day + 22 * hour)) \<and>
   \<not> (\<exists>i<7. \<exists>u<4 * day + 22 * hour. opensAt fixMaintenance (2 * day) i u)"
proof -
  have "NextMaintenanceWindow (Some fixMaintenance) (2 * day) = Inr (4 * day + 22 * hour)" by code_simp
  then show ?thesis using next_window_is_earliest [of fixMaintenance "2 * day"] by (simp add: fixMaintenance_def)
qed

text \<open>
  Those seven days are one too few for a weekly window: on the window's own day, after it has
  opened and closed, \<open>NextMaintenanceWindow\<close> reports that no window exists although it opens again
  in less than seven days, when patching is allowed.
\<close>

theorem weekly_window_missed:
  "\<exists>m now t. isl (NextMaintenanceWindow (Some m) now) \<and> now < t \<and> t < now + 7 * day \<and>
     \<not> fst (IsInMaintenanceWindow (Some m) now) \<and> fst (IsInMaintenanceWindow (Some m) t)"
proof -
  let ?m = "\<lparr>ExcludeDates = [], Windows = [\<lparr>Days = [''Mon''], StartTime = ''02:00'', EndTime = ''04:00'', Disabled = False\<rparr>]\<rparr>"
  have "isl (NextMaintenanceWindow (Some ?m) (4 * day + 10 * hour))" by code_simp
  moreover have "\<not> fst (IsInMaintenanceWindow (Some ?m) (4 * day + 10 * hour))" by code_simp
  moreover have "fst (IsInMaintenanceWindow (Some ?m) (11 * day + 2 * hour))" by code_simp
  moreover have "4 * day + 10 * hour < 11 * day + 2 * hour" "11 * day + 2 * hour < 4 * day + 10 * hour + 7 * day"
    by (simp_all add: duration_units)
  ultimately show ?thesis by blast
qed

section \<open>Releases and versions\<close>

lemma fixLib_lawful: "lawfulVersions fixLib"
  unfolding lawfulVersions_def fixLib_def by (auto simp: not_less)

text \<open>
  \<open>Select\<close> picks the newest release that is permitted from the running version and old enough,
  and none exactly when there is no such release.
\<close>

theorem select_newest_eligible_release:
  assumes "lawfulVersions K"
  shows "case sel_Target (Select K releases current allow minAge now) of
      None \<Rightarrow> filter (eligible K current allow minAge now) releases = []
    | Some r \<Rightarrow> r \<in> set releases \<and> eligible K current allow minAge now r \<and>
        list_all (\<lambda>s. \<not> verLess K (rel_Version r) (rel_Version s)) (filter (eligible K current allow minAge now) releases)"
  using Select_bests(2) [OF assms] by (simp add: bestOf_def)

definition fixReleases :: "fixVersion release list" where
  "fixReleases =
     [\<lparr>rel_Version = (1, 14, 1), PublishedAt = 9 * day\<rparr>,
      \<lparr>rel_Version = (1, 14, 0), PublishedAt = 2 * day\<rparr>,
      \<lparr>rel_Version = (1, 15, 0), PublishedAt = 1 * day\<rparr>,
      \<lparr>rel_Version = (1, 13, 5), PublishedAt = 1 * day\<rparr>]"

theorem select_newest_eligible_release_witness:
  "\<exists>r. sel_Target (Select fixLib fixReleases (1, 13, 0) AllowMinor (3 * day) (10 * day)) = Some r \<and>
     r \<in> set fixReleases \<and> rel_Version r = (1, 14, 0)"
proof -
  let ?s = "Select fixLib fixReleases (1, 13, 0) AllowMinor (3 * day) (10 * day)"
  have "map_option rel_Version (sel_Target ?s) = Some (1, 14, 0)" by code_simp
  then obtain r where "sel_Target ?s = Some r" "rel_Version r = (1, 14, 0)" by auto
  then show ?thesis
    using select_newest_eligible_release [OF fixLib_lawful, where releases = fixReleases and current = "(1, 13, 0)" and allow = AllowMinor
        and minAge = "3 * day" and now = "10 * day"]
    by simp
qed



text \<open>
  A Kubernetes version passes the support check exactly when both versions parse, the Talos minor
  version has a row in the matrix, and the Kubernetes version is a 1.x within that row's range.
\<close>

theorem supported_combinations:
  "ValidateKubernetesVersion K t k = None \<longleftrightarrow>
     (\<exists>tv kv lo hi. parseGeneric K t = Inr tv \<and> parseGeneric K k = Inr kv \<and>
        map_of kubernetesSupport (verMajor K tv, verMinor K tv) = Some (lo, hi) \<and>
        verMajor K kv = 1 \<and> lo \<le> verMinor K kv \<and> verMinor K kv \<le> hi)"
  by (rule ValidateKubernetesVersion_None)

section \<open>Images\<close>

text \<open>
  The installer reference built for a target comes apart again into its registry, its repository
  and exactly the target's version, for every version without a colon or a slash: the check of the
  registry asks for the image the node is upgraded with.
\<close>

theorem installer_image_comes_apart:
  assumes "BuildInstallerImage t nodeSchematicID = Inr img"
    and "CHR '':'' \<notin> set (TalosVersion t)" and "CHR ''/'' \<notin> set (TalosVersion t)"
  shows "parseImage img =
    (if Source t = ''ghcr'' \<or> Source t = '''' then Inr (''ghcr.io'', ''siderolabs/installer'', TalosVersion t)
     else Inr (''factory.talos.dev'',
       Installer t @ ''-installer'' @ (if SecureBoot t then ''-secureboot'' else '''') @ ''/''
         @ (if SchematicID t = '''' then nodeSchematicID else SchematicID t), TalosVersion t))"
  using assms by (rule installer_image_parts)

theorem installer_image_comes_apart_witness:
  "parseImage ''factory.talos.dev/metal-installer-secureboot/abc:v1.13.0'' =
     Inr (''factory.talos.dev'', ''metal-installer-secureboot/abc'', ''v1.13.0'')"
  using installer_image_comes_apart
    [of "fixTarget\<lparr>Source := ''factory'', Installer := ''metal'', SecureBoot := True\<rparr>" "''abc''"]
  by (simp add: BuildInstallerImage_def fixTarget_def)

text \<open>
  An image is reported as present only when the last answer of its registry to a request for its
  manifest was 200; a failing or refusing registry never counts as success.
\<close>

theorem image_present_only_on_manifest:
  "runs [] (Exists E img) (\<lambda>res es. case res of
     Some _ \<Rightarrow> True
   | None \<Rightarrow> (\<exists>host repo tag token c. parseImage img = Inr (host, repo, tag) \<and>
        last es = EvHttpHead (''https://'' @ host @ ''/v2/'' @ repo @ ''/manifests/'' @ tag) token (Inr (200, c))))"
  using Exists_present by (rule runs_mono) (auto split: option.splits)

end
