(* ===== verification/Drain.thy ===== *)
theory Drain imports NodeUtil begin

text \<open>
  \<open>internal/drain\<close>: cordoning a node, evicting its pods and releasing the cordon. A cordon is owned
  by the operator exactly when the node carries \<open>CordonedByAnnotation\<close>. The drain timeout only
  sets a deadline on the calls, which the model leaves out (a call may fail at any time anyway).
\<close>

section \<open>Cordon\<close>

definition CordonedByAnnotation :: string where
  "CordonedByAnnotation = ''kangalpatch.ozalp.dk/cordoned-by''"

definition CordonNode :: "('v, 's) env \<Rightarrow> string \<Rightarrow> ('s, goerr option) io" where
  "CordonNode E nodeName = do {
     r \<leftarrow> getNode E nodeName;
     (case r of
        Inl err \<Rightarrow> return (Some (wrapErr ''failed to get node'' err))
      | Inr n \<Rightarrow>
          if Unschedulable n then return None
          else do {
            p \<leftarrow> patchNode E n (n\<lparr>Unschedulable := True,
                   node_Annotations := AList.update CordonedByAnnotation ''true'' (node_Annotations n)\<rparr>);
            (case p of
               Some err \<Rightarrow> return (Some (wrapErr ''failed to cordon node'' err))
             | None \<Rightarrow> return None)
          })
   }"

definition UncordonNode :: "('v, 's) env \<Rightarrow> string \<Rightarrow> ('s, goerr option) io" where
  "UncordonNode E nodeName = do {
     r \<leftarrow> getNode E nodeName;
     (case r of
        Inl err \<Rightarrow> return (Some (wrapErr ''failed to get node'' err))
      | Inr n \<Rightarrow>
          if map_of (node_Annotations n) CordonedByAnnotation = None then return None
          else do {
            p \<leftarrow> patchNode E n (n\<lparr>Unschedulable := False,
                   node_Annotations := AList.delete CordonedByAnnotation (node_Annotations n)\<rparr>);
            (case p of
               Some err \<Rightarrow> return (Some (wrapErr ''failed to uncordon node'' err))
             | None \<Rightarrow> return None)
          })
   }"

section \<open>Which pods a drain concerns\<close>

definition DefaultTimeout :: duration where "DefaultTimeout = 5 * minute"

record drainOptions =
  opt_RespectPDBs :: bool
  EvictUnmanaged :: bool
  opt_Timeout :: duration

definition isDaemonSetPod :: "pod \<Rightarrow> bool" where
  "isDaemonSetPod p = list_ex (\<lambda>owner. owner_Kind owner = ''DaemonSet'') (OwnerReferences p)"

definition isMirrorPod :: "pod \<Rightarrow> bool" where
  "isMirrorPod p \<longleftrightarrow> map_of (pod_Annotations p) ''kubernetes.io/config.mirror'' \<noteq> None"

definition blocksDrain :: "pod \<Rightarrow> bool" where
  "blocksDrain p =
     (if pod_Phase p = ''Succeeded'' \<or> pod_Phase p = ''Failed'' then False
      else if isDaemonSetPod p then False
      else if isMirrorPod p then False
      else True)"

definition shouldEvictPod :: "pod \<Rightarrow> bool" where
  "shouldEvictPod p \<longleftrightarrow> pod_DeletionTimestamp p = None \<and> blocksDrain p"

definition listPods :: "('v, 's) env \<Rightarrow> string \<Rightarrow> (pod \<Rightarrow> bool) \<Rightarrow> ('s, goerr + pod list) io" where
  "listPods E nodeName keep = do {
     r \<leftarrow> listNodePods E nodeName;
     (case r of Inl err \<Rightarrow> return (Inl err) | Inr pods \<Rightarrow> return (Inr (filter keep pods)))
   }"

section \<open>Eviction\<close>

definition deletePod :: "('v, 's) env \<Rightarrow> pod \<Rightarrow> ('s, goerr option) io" where
  "deletePod E p = do {
     r \<leftarrow> deletePodCall E p;
     (case r of
        None \<Rightarrow> return None
      | Some err \<Rightarrow> if isNotFound err then return None else return (Some (wrapErr ''failed to delete pod'' err)))
   }"

definition evictPod :: "('v, 's) env \<Rightarrow> pod \<Rightarrow> drainOptions \<Rightarrow> ('s, goerr + bool) io" where
  "evictPod E p opts = do {
     r \<leftarrow> createEviction E p;
     (case r of
        None \<Rightarrow> return (Inr False)
      | Some err \<Rightarrow>
          if isNotFound err then return (Inr False)
          else if isTooManyRequests err then
            (if opt_RespectPDBs opts then return (Inr True)
             else do {
               d \<leftarrow> deletePod E p;
               (case d of None \<Rightarrow> return (Inr False) | Some derr \<Rightarrow> return (Inl derr))
             })
          else return (Inl err))
   }"

definition podRef :: "pod \<Rightarrow> string" where
  "podRef p = pod_Namespace p @ ''/'' @ pod_Name p"

fun evictPods :: "('v, 's) env \<Rightarrow> drainOptions \<Rightarrow> bool \<Rightarrow> pod list \<Rightarrow> ('s, goerr + bool) io" where
  "evictPods E opts blocked [] = return (Inr blocked)"
| "evictPods E opts blocked (p # ps) = do {
     r \<leftarrow> evictPod E p opts;
     (case r of
        Inl err \<Rightarrow> return (Inl (wrapErr (''failed to evict pod '' @ podRef p) err))
      | Inr podBlocked \<Rightarrow> evictPods E opts (blocked \<or> podBlocked) ps)
   }"

definition barePods :: "('v, 'm) klib_scheme \<Rightarrow> pod list \<Rightarrow> string list" where
  "barePods K pods = map podRef (filter (\<lambda>p. controllerOf K (OwnerReferences p) = None) pods)"

definition DrainNode :: "('v, 's) env \<Rightarrow> string \<Rightarrow> drainOptions \<Rightarrow> ('s, goerr + bool) io" where
  "DrainNode E nodeName opts = do {
     r \<leftarrow> listPods E nodeName shouldEvictPod;
     (case r of
        Inl err \<Rightarrow> return (Inl (wrapErr ''failed to list pods'' err))
      | Inr pods \<Rightarrow>
          if pods = [] then return (Inr False)
          else if \<not> EvictUnmanaged opts \<and> barePods E pods \<noteq> [] then
            return (Inl (WrapError [] (SentinelError ErrUnmanagedPods)
              ('': '' @ joinStrings '', '' (barePods E pods) @ '' (set evictUnmanagedPods to evict them anyway)'')))
          else evictPods E opts False pods)
   }"

definition IsDrained :: "('v, 's) env \<Rightarrow> string \<Rightarrow> ('s, goerr + bool) io" where
  "IsDrained E nodeName = do {
     r \<leftarrow> listPods E nodeName blocksDrain;
     (case r of Inl err \<Rightarrow> return (Inl err) | Inr pods \<Rightarrow> return (Inr (pods = [])))
   }"

section \<open>Calls\<close>

lemma emits_CordonNode:
  assumes "\<And>r. P (EvGetNode name r)"
    and "\<And>n r. \<not> Unschedulable n \<Longrightarrow> P (EvPatchNode n (n\<lparr>Unschedulable := True,
            node_Annotations := AList.update CordonedByAnnotation ''true'' (node_Annotations n)\<rparr>) r)"
  shows "emits P (CordonNode E name)"
  unfolding CordonNode_def using assms by (intro emits_rules)

lemma emits_UncordonNode:
  assumes "\<And>r. P (EvGetNode name r)"
    and "\<And>n r. map_of (node_Annotations n) CordonedByAnnotation \<noteq> None \<Longrightarrow>
           P (EvPatchNode n (n\<lparr>Unschedulable := False,
                node_Annotations := AList.delete CordonedByAnnotation (node_Annotations n)\<rparr>) r)"
  shows "emits P (UncordonNode E name)"
  unfolding UncordonNode_def using assms by (intro emits_rules)

lemma emits_listPods [emits_rules]: "(\<And>r. P (EvListPods name r)) \<Longrightarrow> emits P (listPods E name keep)"
  unfolding listPods_def by (intro emits_rules)

lemma emits_evictPod [emits_rules]:
  assumes "\<And>r. P (EvEvictPod p r)" and "\<And>r. \<not> opt_RespectPDBs opts \<Longrightarrow> P (EvDeletePod p r)"
  shows "emits P (evictPod E p opts)"
  unfolding evictPod_def deletePod_def using assms by (intro emits_rules)

lemma emits_evictPods:
  assumes "\<And>p r. p \<in> set ps \<Longrightarrow> P (EvEvictPod p r)"
    and "\<And>p r. p \<in> set ps \<Longrightarrow> \<not> opt_RespectPDBs opts \<Longrightarrow> P (EvDeletePod p r)"
  shows "emits P (evictPods E opts b ps)"
  using assms
proof (induction ps arbitrary: b)
  case Nil
  then show ?case by (simp add: emits_return)
next
  case (Cons p ps)
  have "emits P (evictPods E opts b' ps)" for b' by (rule Cons.IH) (simp_all add: Cons.prems)
  then show ?case using Cons.prems by (auto intro!: emits_rules)
qed

lemma emits_DrainNode [emits_rules]:
  assumes "\<And>r. P (EvListPods name r)"
    and "\<And>p r. shouldEvictPod p \<Longrightarrow> EvictUnmanaged opts \<or> controllerOf E (OwnerReferences p) \<noteq> None \<Longrightarrow> P (EvEvictPod p r)"
    and "\<And>p r. shouldEvictPod p \<Longrightarrow> EvictUnmanaged opts \<or> controllerOf E (OwnerReferences p) \<noteq> None \<Longrightarrow>
           \<not> opt_RespectPDBs opts \<Longrightarrow> P (EvDeletePod p r)"
  shows "emits P (DrainNode E name opts)"
proof -
  have "emits P (evictPods E opts b pods)"
    if "EvictUnmanaged opts \<or> barePods E pods = []" "list_all shouldEvictPod pods" for b pods
  proof (rule emits_evictPods)
    fix p r
    assume p: "p \<in> set pods"
    then have "shouldEvictPod p" "EvictUnmanaged opts \<or> controllerOf E (OwnerReferences p) \<noteq> None"
      using that by (auto simp: barePods_def filter_empty_conv list_all_iff)
    then show "P (EvEvictPod p r)" "\<not> opt_RespectPDBs opts \<Longrightarrow> P (EvDeletePod p r)"
      using assms(2,3) by blast+
  qed
  note evict = this
  have keep: "runs h (listPods E name shouldEvictPod) (\<lambda>r _. case r of Inl _ \<Rightarrow> True | Inr ps \<Rightarrow> list_all shouldEvictPod ps)" for h
    unfolding listPods_def by (intro runs_rules) (simp_all add: list_all_iff)
  show ?thesis
    unfolding DrainNode_def
  proof (rule emits_bind_post [OF emits_listPods [where P = P and name = name, OF assms(1)] keep])
    fix r :: "goerr + pod list"
    assume R: "case r of Inl _ \<Rightarrow> True | Inr ps \<Rightarrow> list_all shouldEvictPod ps"
    show "emits P (case r of
        Inl err \<Rightarrow> return (Inl (wrapErr ''failed to list pods'' err))
      | Inr pods \<Rightarrow>
          if pods = [] then return (Inr False)
          else if \<not> EvictUnmanaged opts \<and> barePods E pods \<noteq> [] then
            return (Inl (WrapError [] (SentinelError ErrUnmanagedPods)
              ('': '' @ joinStrings '', '' (barePods E pods) @ '' (set evictUnmanagedPods to evict them anyway)'')))
          else evictPods E opts False pods)"
      using R evict by (cases r) (auto intro!: emits_rules simp: list_all_iff filter_id_conv)
  qed
qed

lemma emits_IsDrained [emits_rules]: "(\<And>r. P (EvListPods name r)) \<Longrightarrow> emits P (IsDrained E name)"
  unfolding IsDrained_def by (intro emits_rules)

section \<open>What a drain achieves\<close>

definition refused :: "event list \<Rightarrow> pod \<Rightarrow> bool" where
  "refused es p \<longleftrightarrow> (\<exists>e. EvEvictPod p (Some e) \<in> set es \<and> isTooManyRequests e)"

definition goneOk :: "goerr option \<Rightarrow> bool" where
  "goneOk r = (case r of None \<Rightarrow> True | Some e \<Rightarrow> isNotFound e)"

text \<open>A pod is on its way out: its eviction (or its deletion after a refusal) was accepted or it is gone already.\<close>

definition leaving :: "event list \<Rightarrow> pod \<Rightarrow> bool" where
  "leaving es p \<longleftrightarrow>
     (\<exists>r. EvEvictPod p r \<in> set es \<and> goneOk r) \<or>
     (refused es p \<and> (\<exists>r. EvDeletePod p r \<in> set es \<and> goneOk r))"

lemma leaving_append: "leaving es p \<or> leaving es' p \<Longrightarrow> leaving (es @ es') p"
  by (auto simp: leaving_def refused_def)

lemma refused_append: "refused (es @ es') p \<longleftrightarrow> refused es p \<or> refused es' p"
  by (auto simp: refused_def)

lemma refused_Cons: "refused es p \<Longrightarrow> refused (x # es) p"
  by (auto simp: refused_def)

lemma leaving_Cons: "leaving es p \<Longrightarrow> leaving (x # es) p"
  by (auto simp: leaving_def intro: refused_Cons)

text \<open>The outcome of evicting some pods: only refused pods are deleted, and what the result says holds.\<close>

definition evictOutcome :: "drainOptions \<Rightarrow> bool \<Rightarrow> pod list \<Rightarrow> goerr + bool \<Rightarrow> event list \<Rightarrow> bool" where
  "evictOutcome opts b ps res es \<longleftrightarrow>
     (\<forall>p r. EvDeletePod p r \<in> set es \<longrightarrow> refused es p) \<and>
     (case res of
        Inl _ \<Rightarrow> True
      | Inr True \<Rightarrow> b \<or> (opt_RespectPDBs opts \<and> (\<exists>p\<in>set ps. refused es p))
      | Inr False \<Rightarrow> \<not> b \<and> list_all (leaving es) ps)"

lemma evictPod_outcome:
  "runs h (evictPod E p opts) (\<lambda>res h'. \<exists>es. h' = h @ es \<and> evictOutcome opts False [p] res es)"
  unfolding evictPod_def deletePod_def
  by (intro runs_rules)
     (auto simp: evictOutcome_def leaving_def refused_def goneOk_def split: bool.splits)

lemma evictOutcome_step:
  assumes "evictOutcome opts False [p] (Inr pb) es" and "evictOutcome opts (b \<or> pb) ps res es'"
  shows "evictOutcome opts b (p # ps) res (es @ es')"
proof -
  have "list_all (leaving es') ps \<Longrightarrow> list_all (leaving (es @ es')) ps"
    by (auto simp: list_all_iff intro: leaving_append)
  then show ?thesis
    using assms
    by (auto simp: evictOutcome_def refused_append intro: leaving_append split: sum.splits bool.splits)
qed

lemma evictPods_outcome:
  "runs h (evictPods E opts b ps) (\<lambda>res h'. \<exists>es. h' = h @ es \<and> evictOutcome opts b ps res es)"
proof (induction ps arbitrary: h b)
  case Nil
  show ?case by (simp add: runs_return evictOutcome_def split: bool.splits)
next
  case (Cons p ps)
  show ?case
  proof (simp only: evictPods.simps, rule runs_bind, rule runs_mono [OF evictPod_outcome])
    fix res h'
    assume "\<exists>es. h' = h @ es \<and> evictOutcome opts False [p] res es"
    then obtain es where es: "h' = h @ es" "evictOutcome opts False [p] res es" by blast
    show "runs h' (case res of
        Inl err \<Rightarrow> return (Inl (wrapErr (''failed to evict pod '' @ podRef p) err))
      | Inr podBlocked \<Rightarrow> evictPods E opts (b \<or> podBlocked) ps)
      (\<lambda>res h'. \<exists>es. h' = h @ es \<and> evictOutcome opts b (p # ps) res es)"
    proof (cases res)
      case (Inl err)
      then show ?thesis using es by (auto simp: evictOutcome_def intro!: runs_rules)
    next
      case (Inr pb)
      then show ?thesis
        using es by (auto intro!: runs_mono [OF Cons.IH] dest: evictOutcome_step)
    qed
  qed
qed

text \<open>
  What the result of \<open>DrainNode\<close> says about the calls made: pods are deleted only after their
  eviction was refused; \<open>blocked\<close> means a refusal that has to be respected; success means every
  listed pod that should go is on its way out.
\<close>

definition drainOutcome :: "string \<Rightarrow> drainOptions \<Rightarrow> goerr + bool \<Rightarrow> event list \<Rightarrow> bool" where
  "drainOutcome name opts res es \<longleftrightarrow>
     (\<forall>p r. EvDeletePod p r \<in> set es \<longrightarrow> refused es p) \<and>
     (res = Inr True \<longrightarrow> opt_RespectPDBs opts \<and> (\<exists>p. refused es p)) \<and>
     (res = Inr False \<longrightarrow> (\<exists>pods. EvListPods name (Inr pods) \<in> set es \<and>
        (\<forall>p\<in>set pods. shouldEvictPod p \<longrightarrow> leaving es p)))"

lemma DrainNode_outcome: "runs [] (DrainNode E name opts) (drainOutcome name opts)"
proof -
  have evict: "runs [EvListPods name (Inr pods)] (evictPods E opts False (filter shouldEvictPod pods))
      (drainOutcome name opts)" for pods
  proof (rule runs_mono [OF evictPods_outcome])
    fix res h'
    assume "\<exists>es. h' = [EvListPods name (Inr pods)] @ es \<and> evictOutcome opts False (filter shouldEvictPod pods) res es"
    then obtain es where h': "h' = EvListPods name (Inr pods) # es"
      and O: "evictOutcome opts False (filter shouldEvictPod pods) res es"
      by auto
    have "refused h' p" if "EvDeletePod p r \<in> set h'" for p r
      using O that by (auto simp: evictOutcome_def h' intro: refused_Cons)
    moreover have "opt_RespectPDBs opts \<and> (\<exists>p. refused h' p)" if "res = Inr True"
      using O that by (auto simp: evictOutcome_def h' intro: refused_Cons)
    moreover have "\<forall>p\<in>set pods. shouldEvictPod p \<longrightarrow> leaving h' p" if "res = Inr False"
      using O that by (auto simp: evictOutcome_def h' list_all_iff intro: leaving_Cons)
    ultimately show "drainOutcome name opts res h'" by (auto simp: drainOutcome_def h')
  qed
  show ?thesis
    unfolding DrainNode_def listPods_def
    by (intro runs_rules) (auto simp: drainOutcome_def filter_empty_conv intro: evict)
qed

text \<open>\<open>IsDrained\<close> answers true exactly when no listed pod blocks the drain, terminating ones included.\<close>

lemma IsDrained_outcome:
  "runs [] (IsDrained E name) (\<lambda>res es. \<exists>r. es = [EvListPods name r] \<and>
     res = (case r of Inl e \<Rightarrow> Inl e | Inr pods \<Rightarrow> Inr (list_all (\<lambda>p. \<not> blocksDrain p) pods)))"
  unfolding IsDrained_def listPods_def
  by (intro runs_rules) (auto simp: filter_empty_conv list_all_iff)

section \<open>Ownership of the cordon\<close>

lemma delete_update_fresh: "map_of m k = None \<Longrightarrow> AList.delete k (AList.update k v m) = m"
  by (induction m) (auto simp: AList.delete_eq split: if_splits)

text \<open>
  The API server seen as a store of nodes with no other writer: reading gives what is stored, a patch
  stores its object.
\<close>

definition nodeStore :: "('v, 's) env \<Rightarrow> ('s \<Rightarrow> string \<Rightarrow> node option) \<Rightarrow> bool" where
  "nodeStore E lookup \<longleftrightarrow>
     (\<forall>s name. op_getNode E name s =
        (case lookup s name of Some n \<Rightarrow> (Inr n, s) | None \<Rightarrow> (Inl (ApiError NotFound ''not found''), s))) \<and>
     (\<forall>s base n. fst (op_patchNode E base n s) = None \<and>
        lookup (snd (op_patchNode E base n s)) = (lookup s)(node_Name n \<mapsto> n))"

lemma CordonNode_run:
  assumes "nodeStore E lookup" and "lookup (server w) name = Some n" and "node_Name n = name"
  shows "fst (run_state (CordonNode E name) w) = None"
    and "lookup (server (snd (run_state (CordonNode E name) w))) name =
      Some (if Unschedulable n then n
            else n\<lparr>Unschedulable := True,
                   node_Annotations := AList.update CordonedByAnnotation ''true'' (node_Annotations n)\<rparr>)"
  using assms by (auto simp: CordonNode_def nodeStore_def)

lemma UncordonNode_run:
  assumes "nodeStore E lookup" and "lookup (server w) name = Some n" and "node_Name n = name"
  shows "fst (run_state (UncordonNode E name) w) = None"
    and "lookup (server (snd (run_state (UncordonNode E name) w))) name =
      Some (if map_of (node_Annotations n) CordonedByAnnotation = None then n
            else n\<lparr>Unschedulable := False,
                   node_Annotations := AList.delete CordonedByAnnotation (node_Annotations n)\<rparr>)"
  using assms by (auto simp: UncordonNode_def nodeStore_def)

lemma cordon_uncordon:
  assumes S: "nodeStore E lookup" and n: "lookup (server w) name = Some n" "node_Name n = name"
    and own: "map_of (node_Annotations n) CordonedByAnnotation = None"
  shows "lookup (server (snd (run_state (do { CordonNode E name; UncordonNode E name }) w))) name = Some n"
proof -
  obtain r w' where r: "run_state (CordonNode E name) w = (r, w')" by fastforce
  let ?c = "n\<lparr>Unschedulable := True, node_Annotations := AList.update CordonedByAnnotation ''true'' (node_Annotations n)\<rparr>"
  have w': "lookup (server w') name = Some (if Unschedulable n then n else ?c)"
    using CordonNode_run(2) [OF S n] r by simp
  show ?thesis
  proof (cases "Unschedulable n")
    case True
    then have "lookup (server w') name = Some n" using w' by simp
    then show ?thesis using UncordonNode_run(2) [OF S _ n(2)] own by (simp add: r)
  next
    case False
    then have "lookup (server w') name = Some ?c" using w' by simp
    moreover have "map_of (node_Annotations ?c) CordonedByAnnotation \<noteq> None" by simp
    ultimately show ?thesis
      using UncordonNode_run(2) [OF S, of w' name ?c] False own n(2)
      by (simp add: r delete_update_fresh)
  qed
qed

end
