(* ===== verification/TalosClient.thy ===== *)
theory TalosClient imports Effects begin

text \<open>
  \<open>internal/talos\<close>: the client of the Talos machine API. The gRPC library, the certificate
  parsers and the machine configuration patcher are calls and parameters of the environment; what is
  modelled is what this package does with them: how a connection is opened, which answers it accepts
  and which options it sends. The \<open>client == nil\<close> guards are left out (\<open>NewClient\<close> is the
  only constructor and never stores nil), as are the call timeouts.
\<close>

section \<open>Certificates\<close>

text \<open>\<open>strings.TrimSpace\<close> (white space of ASCII)\<close>

definition isSpace :: "char \<Rightarrow> bool" where
  "isSpace c \<longleftrightarrow> c \<in> {CHR 0x20, CHR 0x09, CHR 0x0A, CHR 0x0B, CHR 0x0C, CHR 0x0D}"

definition trimSpace :: "string \<Rightarrow> string" where
  "trimSpace s = rev (dropWhile isSpace (rev (dropWhile isSpace s)))"

text \<open>
  \<open>base64.StdEncoding.DecodeString\<close>: line breaks are skipped, padding is required. The offset in
  Go's error text is left out.
\<close>

definition b64Digit :: "char \<Rightarrow> nat option" where
  "b64Digit c =
     (let n = (of_char c :: nat)
      in if 65 \<le> n \<and> n \<le> 90 then Some (n - 65)
         else if 97 \<le> n \<and> n \<le> 122 then Some (n - 71)
         else if 48 \<le> n \<and> n \<le> 57 then Some (n + 4)
         else if c = CHR ''+'' then Some 62
         else if c = CHR ''/'' then Some 63
         else None)"

fun b64Quanta :: "string \<Rightarrow> string option" where
  "b64Quanta [] = Some []"
| "b64Quanta (a # b # c # d # rest) =
     (case (b64Digit a, b64Digit b) of
        (Some x, Some y) \<Rightarrow>
          (if c = CHR ''='' then
             (if d = CHR ''='' \<and> rest = [] then Some [char_of (x * 4 + y div 16)] else None)
           else (case b64Digit c of
               None \<Rightarrow> None
             | Some z \<Rightarrow>
                 (if d = CHR ''='' then
                    (if rest = [] then Some [char_of (x * 4 + y div 16), char_of (y mod 16 * 16 + z div 4)] else None)
                  else (case (b64Digit d, b64Quanta rest) of
                      (Some w, Some out) \<Rightarrow>
                        Some (char_of (x * 4 + y div 16) # char_of (y mod 16 * 16 + z div 4) # char_of (z mod 4 * 64 + w) # out)
                    | _ \<Rightarrow> None))))
      | _ \<Rightarrow> None)"
| "b64Quanta _ = None"

definition decodeBase64 :: "string \<Rightarrow> goerr + string" where
  "decodeBase64 s =
     (case b64Quanta (filter (\<lambda>c. c \<noteq> CHR 0x0A \<and> c \<noteq> CHR 0x0D) s) of
        Some out \<Rightarrow> Inr out
      | None \<Rightarrow> Inl (TextError ''illegal base64 data''))"

definition decodePEM :: "string \<Rightarrow> goerr + string" where
  "decodePEM s = (if hasPrefix (trimSpace s) ''-----BEGIN'' then Inr s else decodeBase64 s)"

definition createTLSConfig :: "('v, 'm) klib_scheme \<Rightarrow> talosConfig \<Rightarrow> goerr + tlsConfig" where
  "createTLSConfig K config =
     (case decodePEM (CACert config) of
        Inl err \<Rightarrow> Inl (wrapErr ''failed to decode CA cert from base64'' err)
      | Inr caCertData \<Rightarrow>
          if \<not> appendCertsFromPEM K caCertData then Inl (TextError ''failed to append CA cert to pool'')
          else (case decodePEM (ClientCert config) of
              Inl err \<Rightarrow> Inl (wrapErr ''failed to decode client cert from base64'' err)
            | Inr clientCertData \<Rightarrow>
                (case decodePEM (ClientKey config) of
                   Inl err \<Rightarrow> Inl (wrapErr ''failed to decode client key from base64'' err)
                 | Inr clientKeyData \<Rightarrow>
                     (case x509KeyPair K clientCertData clientKeyData of
                        Some err \<Rightarrow> Inl (wrapErr ''failed to load client cert/key'' err)
                      | None \<Rightarrow> Inr \<lparr>RootCAs = caCertData, Certificates = (clientCertData, clientKeyData),
                                     MinVersionTLS12 = True\<rparr>))))"

section \<open>Operations\<close>

definition NewClient :: "('v, 's) env \<Rightarrow> talosConfig option \<Rightarrow> ('s, goerr option) io" where
  "NewClient E config =
     (case config of
        None \<Rightarrow> return (Some (TextError ''config is nil''))
      | Some c \<Rightarrow>
          if cfg_Endpoints c = [] then return (Some (TextError ''no Talos endpoints provided''))
          else (case createTLSConfig E c of
              Inl err \<Rightarrow> return (Some (wrapErr ''failed to create TLS config'' err))
            | Inr tls \<Rightarrow> do {
                r \<leftarrow> talosDial E (cfg_Endpoints c) tls;
                (case r of
                   Some err \<Rightarrow> return (Some (wrapErr ''failed to create Talos client'' err))
                 | None \<Rightarrow> return None)
              }))"

fun firstTag :: "string option list \<Rightarrow> string option" where
  "firstTag [] = None"
| "firstTag (m # ms) =
     (case m of Some tag \<Rightarrow> if tag \<noteq> '''' then Some tag else firstTag ms | None \<Rightarrow> firstTag ms)"

definition GetVersion :: "('v, 's) env \<Rightarrow> string \<Rightarrow> ('s, goerr + string) io" where
  "GetVersion E nodeName = do {
     resp \<leftarrow> talosVersion E (Some nodeName);
     (case resp of
        Inl err \<Rightarrow> return (Inl (wrapErr (''failed to get version from node '' @ nodeName) err))
      | Inr msgs \<Rightarrow>
          (case firstTag msgs of
             Some tag \<Rightarrow> return (Inr tag)
           | None \<Rightarrow> return (Inl (TextError (''no version response received from node '' @ nodeName)))))
   }"

definition CheckConnection :: "('v, 's) env \<Rightarrow> ('s, goerr option) io" where
  "CheckConnection E = do {
     resp \<leftarrow> talosVersion E None;
     (case resp of
        Inl err \<Rightarrow> return (Some (wrapErr ''failed to query Talos endpoint'' err))
      | Inr _ \<Rightarrow> return None)
   }"

fun findSchematic :: "(string \<times> string) option list \<Rightarrow> string" where
  "findSchematic [] = ''''"
| "findSchematic (item # items) =
     (case item of
        Some (name, version) \<Rightarrow> if name = ''schematic'' then version else findSchematic items
      | None \<Rightarrow> findSchematic items)"

definition GetSchematicID :: "('v, 's) env \<Rightarrow> string \<Rightarrow> ('s, goerr + string) io" where
  "GetSchematicID E nodeName = do {
     items \<leftarrow> talosExtensions E nodeName;
     (case items of
        Inl err \<Rightarrow> return (Inl (wrapErr (''failed to list extensions on node '' @ nodeName) err))
      | Inr is \<Rightarrow> return (Inr (findSchematic is)))
   }"

definition upgradeRequest :: "string \<Rightarrow> upgradeOptions" where
  "upgradeRequest img =
     \<lparr>UpgradeImage = img, UpgradePreserve = True, UpgradeStage = False, UpgradeForce = False\<rparr>"

definition Upgrade :: "('v, 's) env \<Rightarrow> string \<Rightarrow> string \<Rightarrow> ('s, goerr option) io" where
  "Upgrade E nodeName img = do {
     resp \<leftarrow> talosUpgrade E nodeName (upgradeRequest img);
     (case resp of
        Inl err \<Rightarrow> return (Some (wrapErr (''upgrade failed for node '' @ nodeName) err))
      | Inr n \<Rightarrow>
          if n = 0 then return (Some (TextError (''no response received from node '' @ nodeName)))
          else return None)
   }"

definition patchMachineConfig :: "('v, 's) env \<Rightarrow> string \<Rightarrow> string \<Rightarrow> ('s, goerr option) io" where
  "patchMachineConfig E nodeName jsonPatch = do {
     res \<leftarrow> talosGetConfig E nodeName;
     (case res of
        Inl err \<Rightarrow> return (Some (wrapErr (''failed to get machine config from node '' @ nodeName) err))
      | Inr None \<Rightarrow> return (Some (TextError (''unexpected resource type for machine config on node '' @ nodeName)))
      | Inr (Some mc) \<Rightarrow>
          (case providerBytes E mc of
             Inl err \<Rightarrow> return (Some (wrapErr (''failed to read machine config from node '' @ nodeName) err))
           | Inr currentBytes \<Rightarrow>
          (case loadPatches E [jsonPatch] of
             Inl err \<Rightarrow> return (Some (wrapErr ''failed to load config patch'' err))
           | Inr patches \<Rightarrow>
          (case applyPatches E currentBytes patches of
             Inl err \<Rightarrow> return (Some (wrapErr ''failed to apply config patch'' err))
           | Inr out \<Rightarrow>
          (case outputBytes E out of
             Inl err \<Rightarrow> return (Some (wrapErr ''failed to encode patched machine config'' err))
           | Inr patchedBytes \<Rightarrow> do {
               r \<leftarrow> talosApplyConfig E nodeName patchedBytes ApplyNoReboot;
               (case r of
                  Some err \<Rightarrow> return (Some (wrapErr (''failed to apply machine config to node '' @ nodeName) err))
                | None \<Rightarrow> return None)
             })))))
   }"

definition kubeletPatch :: "string \<Rightarrow> string" where
  "kubeletPatch kubeletImage =
     ''[{\"op\": \"add\", \"path\": \"/machine/kubelet/image\", \"value\": '' @ quoted kubeletImage @ ''}]''"

definition PatchKubeletVersion :: "('v, 's) env \<Rightarrow> string \<Rightarrow> string \<Rightarrow> ('s, goerr option) io" where
  "PatchKubeletVersion E nodeName kubeletImage = patchMachineConfig E nodeName (kubeletPatch kubeletImage)"

definition controlPlanePatch :: "string \<Rightarrow> string \<Rightarrow> string \<Rightarrow> string" where
  "controlPlanePatch apiServerImage controllerManagerImage schedulerImage =
     ''['' @ [CHR 0x0A] @
     [CHR 0x09, CHR 0x09] @ ''{\"op\": \"add\", \"path\": \"/cluster/apiServer/image\", \"value\": '' @ quoted apiServerImage @ ''},'' @ [CHR 0x0A] @
     [CHR 0x09, CHR 0x09] @ ''{\"op\": \"add\", \"path\": \"/cluster/controllerManager/image\", \"value\": '' @ quoted controllerManagerImage @ ''},'' @ [CHR 0x0A] @
     [CHR 0x09, CHR 0x09] @ ''{\"op\": \"add\", \"path\": \"/cluster/scheduler/image\", \"value\": '' @ quoted schedulerImage @ ''}'' @ [CHR 0x0A] @
     [CHR 0x09] @ '']''"

definition PatchControlPlaneVersion ::
  "('v, 's) env \<Rightarrow> string \<Rightarrow> string \<Rightarrow> string \<Rightarrow> string \<Rightarrow> ('s, goerr option) io" where
  "PatchControlPlaneVersion E nodeName apiServerImage controllerManagerImage schedulerImage =
     patchMachineConfig E nodeName (controlPlanePatch apiServerImage controllerManagerImage schedulerImage)"

definition Close :: "('v, 's) env \<Rightarrow> ('s, goerr option) io" where
  "Close E = talosClose E"

section \<open>What the operations call\<close>

lemma emits_NewClient [emits_rules]:
  "(\<And>es t r. P (EvTalosDial es t r)) \<Longrightarrow> emits P (NewClient E config)"
  unfolding NewClient_def by (intro emits_rules)

lemma emits_GetVersion [emits_rules]:
  "(\<And>r. P (EvTalosVersion (Some a) r)) \<Longrightarrow> emits P (GetVersion E a)"
  unfolding GetVersion_def by (intro emits_rules)

lemma emits_CheckConnection [emits_rules]:
  "(\<And>r. P (EvTalosVersion None r)) \<Longrightarrow> emits P (CheckConnection E)"
  unfolding CheckConnection_def by (intro emits_rules)

lemma emits_GetSchematicID [emits_rules]:
  "(\<And>r. P (EvTalosExtensions a r)) \<Longrightarrow> emits P (GetSchematicID E a)"
  unfolding GetSchematicID_def by (intro emits_rules)

lemma emits_Upgrade [emits_rules]:
  "(\<And>r. P (EvTalosUpgrade a (upgradeRequest img) r)) \<Longrightarrow> emits P (Upgrade E a img)"
  unfolding Upgrade_def by (intro emits_rules)

lemma emits_patchMachineConfig [emits_rules]:
  "(\<And>r. P (EvTalosGetConfig a r)) \<Longrightarrow> (\<And>d r. P (EvTalosApplyConfig a d ApplyNoReboot r)) \<Longrightarrow>
   emits P (patchMachineConfig E a patch)"
  unfolding patchMachineConfig_def by (intro emits_rules)

lemma emits_PatchKubeletVersion [emits_rules]:
  "(\<And>r. P (EvTalosGetConfig a r)) \<Longrightarrow> (\<And>d r. P (EvTalosApplyConfig a d ApplyNoReboot r)) \<Longrightarrow>
   emits P (PatchKubeletVersion E a img)"
  unfolding PatchKubeletVersion_def by (intro emits_rules)

lemma emits_PatchControlPlaneVersion [emits_rules]:
  "(\<And>r. P (EvTalosGetConfig a r)) \<Longrightarrow> (\<And>d r. P (EvTalosApplyConfig a d ApplyNoReboot r)) \<Longrightarrow>
   emits P (PatchControlPlaneVersion E a x y z)"
  unfolding PatchControlPlaneVersion_def by (intro emits_rules)

lemma emits_Close [emits_rules]: "(\<And>r. P (EvTalosClose r)) \<Longrightarrow> emits P (Close E)"
  unfolding Close_def by (intro emits_rules)

end
