(* ===== verification/TalosAccess.thy ===== *)
theory TalosAccess imports TalosClient begin

text \<open>
  \<open>controllers/talosconfig.go\<close>: how a plan names the Talos credentials. Both controllers go through
  \<open>resolveTalosConfig\<close>, the only place where the operator reads a Secret.
\<close>

fun missingKey :: "strmap \<Rightarrow> string list \<Rightarrow> string option" where
  "missingKey m [] = None"
| "missingKey m (key # keys) = (if map_of m key = None then Some key else missingKey m keys)"

definition secretField :: "strmap \<Rightarrow> string \<Rightarrow> string" where
  "secretField m key = (case map_of m key of Some v \<Rightarrow> v | None \<Rightarrow> '''')"

definition resolveTalosConfig :: "('v, 's) env \<Rightarrow> patchPlan \<Rightarrow> ('s, goerr + talosConfig) io" where
  "resolveTalosConfig E plan =
     (case SecretRef (TalosConfig (plan_Spec plan)) of
        None \<Rightarrow> return (Inl (TextError ''talosConfig.secretRef must be specified''))
      | Some ref \<Rightarrow>
          if secret_Namespace ref = '''' then
            return (Inl (TextError ''secretRef.namespace must be specified''))
          else if secret_Namespace ref \<noteq> operatorNamespace E then
            return (Inl (TextError (''secretRef.namespace must be the operator namespace '' @ quoted (operatorNamespace E))))
          else do {
            r \<leftarrow> getSecret E (secret_Namespace ref) (secret_Name ref);
            (case r of
               Inl err \<Rightarrow> return (Inl (wrapErr
                 (''failed to get secret '' @ secret_Namespace ref @ ''/'' @ secret_Name ref) err))
             | Inr sdata \<Rightarrow>
                 (case missingKey sdata [''ca.crt'', ''tls.crt'', ''tls.key''] of
                    Some key \<Rightarrow> return (Inl (TextError
                      (''secret '' @ secret_Namespace ref @ ''/'' @ secret_Name ref @ '' missing required key: '' @ key)))
                  | None \<Rightarrow> return (Inr \<lparr>cfg_Endpoints = Endpoints (TalosConfig (plan_Spec plan)),
                      CACert = secretField sdata ''ca.crt'',
                      ClientCert = secretField sdata ''tls.crt'',
                      ClientKey = secretField sdata ''tls.key''\<rparr>)))
          })"

text \<open>
  \<open>openTalos\<close>: the Go function also returns the closing function; its callers run
  \<open>Close\<close> at their end.
\<close>

definition openTalos :: "('v, 's) env \<Rightarrow> patchPlan \<Rightarrow> ('s, goerr option) io" where
  "openTalos E plan = do {
     r \<leftarrow> resolveTalosConfig E plan;
     (case r of
        Inl err \<Rightarrow> return (Some err)
      | Inr cfg \<Rightarrow> do {
          c \<leftarrow> NewClient E (Some cfg);
          (case c of
             Some err \<Rightarrow> return (Some (wrapErr ''failed to create Talos client'' err))
           | None \<Rightarrow> return None)
        })
   }"

lemma emits_resolveTalosConfig [emits_rules]:
  "(\<And>n r. P (EvGetSecret (operatorNamespace E) n r)) \<Longrightarrow> emits P (resolveTalosConfig E plan)"
  unfolding resolveTalosConfig_def by (intro emits_rules) auto

lemma emits_openTalos [emits_rules]:
  "(\<And>n r. P (EvGetSecret (operatorNamespace E) n r)) \<Longrightarrow> (\<And>es t r. P (EvTalosDial es t r)) \<Longrightarrow>
   emits P (openTalos E plan)"
  unfolding openTalos_def by (intro emits_rules)

text \<open>A resolved configuration comes from a complete Secret of the operator's namespace.\<close>

lemma resolveTalosConfig_sound:
  "runs [] (resolveTalosConfig E plan) (\<lambda>r es. \<forall>cfg. r = Inr cfg \<longrightarrow>
     (\<exists>ref m. SecretRef (TalosConfig (plan_Spec plan)) = Some ref \<and> secret_Namespace ref = operatorNamespace E \<and>
        es = [EvGetSecret (operatorNamespace E) (secret_Name ref) (Inr m)] \<and>
        map_of m ''ca.crt'' = Some (CACert cfg) \<and> map_of m ''tls.crt'' = Some (ClientCert cfg) \<and>
        map_of m ''tls.key'' = Some (ClientKey cfg)))"
  unfolding resolveTalosConfig_def
  by (intro runs_rules) (auto simp: secretField_def split: if_splits)

end
