(* ===== verification/PatchJob.thy ===== *)
theory PatchJob imports Drain TalosAccess Images Versions begin

text \<open>
  \<open>controllers/patchjob_controller.go\<close>: the state machine that upgrades one node. Each handler is
  one function of the Go file; the job as read (\<open>original\<close>) and the job as changed so far are the
  two objects every handler passes around, and a status write sends the difference of the two. After a
  successful write the in-memory object is the server's answer. A handler's result is the requeue delay
  and the error returned to controller-runtime. Log calls are left out.
\<close>

type_synonym ctrlResult = "duration \<times> goerr option"

section \<open>Constants\<close>

definition requeueImmediate :: duration where "requeueImmediate = millisecond"
definition requeueForDrainCheck :: duration where "requeueForDrainCheck = 10 * second"
definition requeueForUpgradeStart :: duration where "requeueForUpgradeStart = 5 * second"
definition requeueForRebootCheck :: duration where "requeueForRebootCheck = 60 * second"
definition requeueForKubernetesCheck :: duration where "requeueForKubernetesCheck = 15 * second"
definition defaultRebootTimeout :: duration where "defaultRebootTimeout = 10 * minute"
definition defaultKubernetesUpgradeTimeout :: duration where "defaultKubernetesUpgradeTimeout = 10 * minute"
definition transientErrorDeadline :: duration where "transientErrorDeadline = 5 * minute"
definition kubeSystemNamespace :: string where "kubeSystemNamespace = ''kube-system''"

lemmas requeue_defs = requeueImmediate_def requeueForDrainCheck_def requeueForUpgradeStart_def
  requeueForRebootCheck_def requeueForKubernetesCheck_def duration_units

section \<open>Small functions\<close>

definition setStatus :: "patchJob \<Rightarrow> (jobStatus \<Rightarrow> jobStatus) \<Rightarrow> patchJob" where
  "setStatus j f = j\<lparr>job_Status := f (job_Status j)\<rparr>"

definition jobTarget :: "patchJob \<Rightarrow> targetSpec" where
  "jobTarget j = job_Target (job_Spec j)"

definition jobNode :: "patchJob \<Rightarrow> string" where
  "jobNode j = NodeName (job_Spec j)"

definition checksSchematic :: "targetSpec \<Rightarrow> bool" where
  "checksSchematic t \<longleftrightarrow> Source t = ''factory'' \<and> SchematicID t \<noteq> ''''"

definition needsTalosUpgrade :: "targetSpec \<Rightarrow> string \<Rightarrow> string \<Rightarrow> bool" where
  "needsTalosUpgrade t version schematicID =
     (if TalosVersion t = '''' then False
      else version \<noteq> TalosVersion t \<or> (checksSchematic t \<and> schematicID \<noteq> SchematicID t))"

definition firstNonEmpty :: "string \<Rightarrow> string \<Rightarrow> string" where
  "firstNonEmpty a b = (if a \<noteq> '''' then a else b)"

definition drainTimeout :: "patchPlan \<Rightarrow> duration" where
  "drainTimeout plan = (if DrainTimeout (plan_Spec plan) > 0 then DrainTimeout (plan_Spec plan) else DefaultTimeout)"

section \<open>Recording the outcome\<close>

definition patchStatus :: "('v, 's) env \<Rightarrow> patchJob \<Rightarrow> patchJob \<Rightarrow> ('s, goerr + patchJob) io" where
  "patchStatus E original modified =
     (if IsTerminal (jobPhase modified) \<and> js_CompletionTime (job_Status modified) = None then do {
        now \<leftarrow> timeNow E;
        patchJobStatus E original (setStatus modified (\<lambda>s. s\<lparr>js_CompletionTime := Some now\<rparr>))
      }
      else patchJobStatus E original modified)"

text \<open>The usual end of a handler: write the status, return the write's error or requeue after \<open>d\<close>.\<close>

definition storeStatus :: "('v, 's) env \<Rightarrow> patchJob \<Rightarrow> patchJob \<Rightarrow> duration \<Rightarrow> ('s, ctrlResult) io" where
  "storeStatus E original modified d = do {
     r \<leftarrow> patchStatus E original modified;
     (case r of
        Inl err \<Rightarrow> return (0, Some err)
      | Inr _ \<Rightarrow> return (d, None))
   }"

definition failJob :: "('v, 's) env \<Rightarrow> patchJob \<Rightarrow> patchJob \<Rightarrow> string \<Rightarrow> goerr \<Rightarrow> ('s, ctrlResult) io" where
  "failJob E original modified message err = do {
     (if jobPhase original \<in> {PatchJobPhasePending, PatchJobPhaseDraining, PatchJobPhaseUpgrading}
      then do { UncordonNode E (jobNode modified); return () }
      else return ());
     storeStatus E original (setStatus modified
            (\<lambda>s. s\<lparr>js_Phase := PatchJobPhaseFailed, js_Message := message @ '': '' @ errText err\<rparr>)) 0
   }"

definition retryOrFail :: "('v, 's) env \<Rightarrow> patchJob \<Rightarrow> patchJob \<Rightarrow> string \<Rightarrow> goerr \<Rightarrow> ('s, ctrlResult) io" where
  "retryOrFail E original modified message err = do {
     now \<leftarrow> timeNow E;
     since \<leftarrow> loadOrStoreSince (job_Name modified) now;
     now2 \<leftarrow> timeNow E;
     (if now2 - since > transientErrorDeadline then failJob E original modified message err
      else return (0, Some (wrapErr (message @ '' (will retry)'') err)))
   }"

text \<open>\<open>retry.OnError\<close> around a status write: up to \<open>n + 1\<close> attempts, the last error is returned.\<close>

fun retryStatus :: "('v, 's) env \<Rightarrow> nat \<Rightarrow> patchJob \<Rightarrow> patchJob \<Rightarrow> ('s, goerr + patchJob) io" where
  "retryStatus E 0 original modified = patchStatus E original modified"
| "retryStatus E (Suc n) original modified = do {
     r \<leftarrow> patchStatus E original modified;
     (case r of Inl _ \<Rightarrow> retryStatus E n original modified | Inr j \<Rightarrow> return (Inr j))
   }"

section \<open>Reaching the node\<close>

definition getPatchPlan :: "('v, 's) env \<Rightarrow> patchJob \<Rightarrow> ('s, goerr + patchPlan) io" where
  "getPatchPlan E job =
     (if PatchPlanRef (job_Spec job) = '''' then return (Inl (TextError ''patchPlanRef not set''))
      else do {
        r \<leftarrow> getPlan E (PatchPlanRef (job_Spec job));
        (case r of
           Inl err \<Rightarrow> return (Inl (wrapErr (''failed to get PatchPlan '' @ PatchPlanRef (job_Spec job)) err))
         | Inr plan \<Rightarrow> return (Inr plan))
      })"

definition getTalosConfig :: "('v, 's) env \<Rightarrow> patchJob \<Rightarrow> ('s, goerr + talosConfig) io" where
  "getTalosConfig E job = do {
     r \<leftarrow> getPatchPlan E job;
     (case r of Inl err \<Rightarrow> return (Inl err) | Inr plan \<Rightarrow> resolveTalosConfig E plan)
   }"

definition withTalos ::
  "('v, 's) env \<Rightarrow> patchJob \<Rightarrow> patchJob \<Rightarrow> (node \<Rightarrow> string \<Rightarrow> ('s, ctrlResult) io) \<Rightarrow> ('s, ctrlResult) io" where
  "withTalos E original job fn = do {
     cfg \<leftarrow> getTalosConfig E job;
     (case cfg of
        Inl err \<Rightarrow> retryOrFail E original job ''failed to get Talos config'' err
      | Inr c \<Rightarrow> do {
          opened \<leftarrow> NewClient E (Some c);
          (case opened of
             Some err \<Rightarrow> failJob E original job ''failed to create Talos client'' err
           | None \<Rightarrow> do {
               res \<leftarrow> do {
                 n \<leftarrow> getNode E (jobNode job);
                 (case n of
                    Inl err \<Rightarrow> retryOrFail E original job ''failed to get node'' err
                  | Inr nd \<Rightarrow>
                      (case GetNodeInternalIP nd of
                         Inl err \<Rightarrow> retryOrFail E original job ''failed to resolve node address'' err
                       | Inr nodeAddr \<Rightarrow> fn nd nodeAddr))
               };
               Close E;
               return res
             })
        })
   }"

text \<open>The components of the control plane whose static pods run on a node, with their images.\<close>

definition wantImages :: "string \<Rightarrow> strmap" where
  "wantImages v =
     [(''kube-apiserver'', BuildAPIServerImage v),
      (''kube-controller-manager'', BuildControllerManagerImage v),
      (''kube-scheduler'', BuildSchedulerImage v)]"

definition noteComponent :: "string \<Rightarrow> string list \<Rightarrow> pod \<Rightarrow> string list" where
  "noteComponent v found p =
     (case map_of (pod_Labels p) ''component'' of
        None \<Rightarrow> found
      | Some component \<Rightarrow>
          (case map_of (wantImages v) component of
             None \<Rightarrow> found
           | Some wantImage \<Rightarrow>
               if list_ex (\<lambda>(img, ready). (v = '''' \<or> img = wantImage) \<and> ready) (ContainerStatuses p)
               then List.insert component found else found))"

definition controlPlaneStaticPodsReady :: "('v, 's) env \<Rightarrow> string \<Rightarrow> string \<Rightarrow> ('s, goerr + bool) io" where
  "controlPlaneStaticPodsReady E nodeName v = do {
     r \<leftarrow> listNamespacedPods E kubeSystemNamespace nodeName;
     (case r of
        Inl err \<Rightarrow> return (Inl (wrapErr (''failed to list pods on node '' @ nodeName) err))
      | Inr pods \<Rightarrow> return (Inr (length (foldl (noteComponent v) [] pods) = length (wantImages v))))
   }"

section \<open>Initialisation\<close>

definition finishInit :: "('v, 's) env \<Rightarrow> patchJob \<Rightarrow> patchJob \<Rightarrow> bool \<Rightarrow> bool \<Rightarrow> ('s, ctrlResult) io" where
  "finishInit E original job talosNeedsUpgrade kubernetesNeedsUpgrade =
     (if \<not> talosNeedsUpgrade \<and> \<not> kubernetesNeedsUpgrade then do {
        UncordonNode E (jobNode job);
        storeStatus E original (setStatus job
               (\<lambda>s. s\<lparr>js_Phase := PatchJobPhaseCompleted, js_Message := ''already at target version''\<rparr>)) 0
      }
      else do {
        storeStatus E original (setStatus job
               (\<lambda>s. if talosNeedsUpgrade
                    then s\<lparr>js_Phase := PatchJobPhasePending, js_Message := ''initialized, ready to drain''\<rparr>
                    else s\<lparr>js_Phase := PatchJobPhaseUpgradingKubernetes,
                           js_Message := ''initialized, ready to upgrade kubernetes''\<rparr>)) requeueImmediate
      })"

definition decideInit ::
  "('v, 's) env \<Rightarrow> patchJob \<Rightarrow> patchJob \<Rightarrow> node \<Rightarrow> string \<Rightarrow> string \<Rightarrow> ('s, ctrlResult) io" where
  "decideInit E original job n currentTalos nodeSchematicID =
     (let tgt = jobTarget job;
          currentKubernetes = KubeletVersion n;
          talosNeedsUpgrade = needsTalosUpgrade tgt currentTalos nodeSchematicID;
          kubeletBehind = KubernetesVersion tgt \<noteq> '''' \<and> currentKubernetes \<noteq> KubernetesVersion tgt
      in do {
        pods \<leftarrow> (if KubernetesVersion tgt \<noteq> '''' \<and> \<not> kubeletBehind \<and> IsControlPlane n
                 then controlPlaneStaticPodsReady E (node_Name n) (KubernetesVersion tgt)
                 else return (Inr (\<not> kubeletBehind)));
        (case pods of
           Inl err \<Rightarrow> retryOrFail E original job ''failed to check control plane static pods'' err
         | Inr ready \<Rightarrow>
             (let kubernetesNeedsUpgrade = (\<not> ready);
                  job2 = setStatus job (\<lambda>s. s\<lparr>CurrentTalosVersion := currentTalos, CurrentKubernetesVersion := currentKubernetes\<rparr>)
              in if talosNeedsUpgrade \<and> \<not> AllowTalosDowngrade tgt \<and> isDowngrade E currentTalos (TalosVersion tgt) then
                   failJob E original job2 ''refusing to downgrade Talos''
                     (TextError (''node runs '' @ currentTalos @ '', target is older ('' @ TalosVersion tgt
                       @ ''); set target.allowTalosDowngrade to roll back''))
                 else if KubernetesVersion tgt \<noteq> '''' \<and> isDowngrade E currentKubernetes (KubernetesVersion tgt) then
                   failJob E original job2 ''refusing to downgrade Kubernetes''
                     (TextError (''kubelet runs '' @ currentKubernetes @ '', target is older ('' @ KubernetesVersion tgt @ '')''))
                 else
                   finishInit E original
                     (setStatus job2 (\<lambda>s. s\<lparr>TargetTalosVersion := firstNonEmpty (TalosVersion tgt) currentTalos,
                        TargetKubernetesVersion := firstNonEmpty (KubernetesVersion tgt) currentKubernetes\<rparr>))
                     talosNeedsUpgrade kubernetesNeedsUpgrade))
      })"

definition initJob :: "('v, 's) env \<Rightarrow> patchJob \<Rightarrow> ('s, ctrlResult) io" where
  "initJob E original = do {
     now \<leftarrow> timeNow E;
     let job = setStatus original (\<lambda>s. s\<lparr>js_StartTime := Some now\<rparr>);
     withTalos E original job (\<lambda>n nodeAddr. do {
       v \<leftarrow> GetVersion E nodeAddr;
       (case v of
          Inl err \<Rightarrow> retryOrFail E original job ''failed to get current Talos version'' err
        | Inr currentTalos \<Rightarrow>
            if checksSchematic (jobTarget job) then do {
              sid \<leftarrow> GetSchematicID E nodeAddr;
              (case sid of
                 Inl err \<Rightarrow> retryOrFail E original job ''failed to detect node schematic ID'' err
               | Inr nodeSchematicID \<Rightarrow> decideInit E original job n currentTalos nodeSchematicID)
            }
            else decideInit E original job n currentTalos '''')
     })
   }"

section \<open>Draining\<close>

definition startDrain :: "('v, 's) env \<Rightarrow> patchJob \<Rightarrow> ('s, ctrlResult) io" where
  "startDrain E original = do {
     p \<leftarrow> getPatchPlan E original;
     (case p of
        Inl err \<Rightarrow> retryOrFail E original original ''failed to get PatchPlan'' err
      | Inr plan \<Rightarrow> do {
          c \<leftarrow> CordonNode E (jobNode original);
          (case c of
             Some err \<Rightarrow> retryOrFail E original original ''failed to cordon node'' err
           | None \<Rightarrow> do {
               start \<leftarrow> (case DrainStartTime (job_Status original) of
                          Some t \<Rightarrow> return t
                        | None \<Rightarrow> timeNow E);
               let opts = \<lparr>opt_RespectPDBs = RespectPDBs (plan_Spec plan),
                           EvictUnmanaged = EvictUnmanagedPods (plan_Spec plan),
                           opt_Timeout = drainTimeout plan\<rparr>;
               let job = setStatus original (\<lambda>s. s\<lparr>DrainStartTime := Some start\<rparr>);
               d \<leftarrow> DrainNode E (jobNode original) opts;
               (case d of
                  Inl err \<Rightarrow>
                    if errIs err ErrUnmanagedPods then failJob E original job ''drain refused'' err
                    else retryOrFail E original job ''failed to drain node'' err
                | Inr True \<Rightarrow> do {
                    now \<leftarrow> timeNow E;
                    (if now - start > opt_Timeout opts then
                       failJob E original job ''drain timed out''
                         (TextError (''pods still blocked by PodDisruptionBudgets after '' @ durString (opt_Timeout opts)))
                     else do {
                       storeStatus E original (setStatus job
                              (\<lambda>s. s\<lparr>js_Message := ''drain blocked by PodDisruptionBudget, retrying''\<rparr>)) requeueForDrainCheck
                     })
                  }
                | Inr False \<Rightarrow> do {
                    storeStatus E original (setStatus job
                           (\<lambda>s. s\<lparr>js_Phase := PatchJobPhaseDraining, js_Message := ''draining node''\<rparr>)) requeueForDrainCheck
                  })
             })
        })
   }"

definition waitForDrain :: "('v, 's) env \<Rightarrow> patchJob \<Rightarrow> ('s, ctrlResult) io" where
  "waitForDrain E original = do {
     d \<leftarrow> IsDrained E (jobNode original);
     (case d of
        Inl err \<Rightarrow> retryOrFail E original original ''failed to check drain status'' err
      | Inr False \<Rightarrow> do {
          p \<leftarrow> getPatchPlan E original;
          (case p of
             Inl err \<Rightarrow> retryOrFail E original original ''failed to get PatchPlan'' err
           | Inr plan \<Rightarrow>
               let timeout = drainTimeout plan;
                   failed = failJob E original original ''drain timed out''
                     (TextError (''pods still on node after '' @ durString timeout))
               in (case DrainStartTime (job_Status original) of
                     None \<Rightarrow> return (requeueForDrainCheck, None)
                   | Some start \<Rightarrow> do {
                       now \<leftarrow> timeNow E;
                       (if now - start > timeout then failed else return (requeueForDrainCheck, None))
                     }))
        }
      | Inr True \<Rightarrow> do {
          storeStatus E original (setStatus original
                 (\<lambda>s. s\<lparr>js_Phase := PatchJobPhaseUpgrading, js_Message := ''drain complete, ready to upgrade''\<rparr>)) requeueForUpgradeStart
        })
   }"

section \<open>Talos upgrade\<close>

definition startUpgrade :: "('v, 's) env \<Rightarrow> patchJob \<Rightarrow> ('s, ctrlResult) io" where
  "startUpgrade E original =
     withTalos E original original (\<lambda>n nodeAddr.
       let tgt = jobTarget original in do {
       sid \<leftarrow> (if Source tgt = ''factory'' \<and> SchematicID tgt = '''' then GetSchematicID E nodeAddr
              else return (Inr ''''));
       (case sid of
          Inl err \<Rightarrow> retryOrFail E original original ''failed to detect node schematic ID'' err
        | Inr nodeSchematicID \<Rightarrow>
            (case BuildInstallerImage tgt nodeSchematicID of
               Inl err \<Rightarrow> failJob E original original ''failed to build installer image'' err
             | Inr installerImage \<Rightarrow> do {
                 u \<leftarrow> Upgrade E nodeAddr installerImage;
                 (case u of
                    Some err \<Rightarrow> retryOrFail E original original ''failed to start upgrade'' err
                  | None \<Rightarrow> do {
                      now \<leftarrow> timeNow E;
                      r \<leftarrow> retryStatus E (retrySteps E) original (setStatus original
                             (\<lambda>s. s\<lparr>js_Phase := PatchJobPhaseRebooting,
                                    js_Message := ''upgrade started, waiting for reboot'',
                                    RebootStartTime := Some now,
                                    PreUpgradeBootID := BootID n\<rparr>));
                      (case r of
                         Inl err \<Rightarrow> return (0, Some err)
                       | Inr _ \<Rightarrow> return (requeueForRebootCheck, None))
                    })
               }))
     })"

section \<open>After the reboot\<close>

definition nodeReady :: "node \<Rightarrow> bool" where
  "nodeReady n = foldl (\<lambda>ready c. if fst c = ''Ready'' then snd c = ''True'' else ready) False (node_Conditions n)"

definition nodeUnhealthy :: "('v, 's) env \<Rightarrow> node \<Rightarrow> string \<Rightarrow> ('s, goerr + string) io" where
  "nodeUnhealthy E n preUpgradeBootID =
     (if preUpgradeBootID \<noteq> '''' \<and> BootID n = preUpgradeBootID then
        return (Inr ''kubelet has not reported since the reboot'')
      else if \<not> nodeReady n then return (Inr ''node is not Ready'')
      else if IsControlPlane n then do {
        r \<leftarrow> controlPlaneStaticPodsReady E (node_Name n) '''';
        (case r of
           Inl err \<Rightarrow> return (Inl err)
         | Inr podsReady \<Rightarrow>
             if podsReady then return (Inr '''')
             else return (Inr ''control plane static pods are not all ready''))
      }
      else return (Inr ''''))"

definition rebootTimeoutOf :: "patchPlan \<Rightarrow> duration" where
  "rebootTimeoutOf plan =
     (if RebootTimeout (plan_Spec plan) \<le> 0 then defaultRebootTimeout else RebootTimeout (plan_Spec plan))"

text \<open>The last part of \<open>waitForReboot\<close>: the node runs the target version and is healthy.\<close>

definition finishReboot :: "('v, 's) env \<Rightarrow> patchJob \<Rightarrow> patchJob \<Rightarrow> string \<Rightarrow> ('s, ctrlResult) io" where
  "finishReboot E original job0 currentVersion =
     (let job = setStatus job0 (\<lambda>s. s\<lparr>CurrentTalosVersion := currentVersion\<rparr>) in do {
        u \<leftarrow> UncordonNode E (jobNode job);
        (case u of
           Some err \<Rightarrow> retryOrFail E original job ''failed to uncordon node'' err
         | None \<Rightarrow> do {
             storeStatus E original (setStatus job
                    (\<lambda>s. if KubernetesVersion (jobTarget job) \<noteq> '''' \<and>
                            CurrentKubernetesVersion s \<noteq> KubernetesVersion (jobTarget job)
                         then s\<lparr>js_Phase := PatchJobPhaseUpgradingKubernetes,
                                js_Message := ''talos upgrade completed, ready to upgrade kubernetes''\<rparr>
                         else s\<lparr>js_Phase := PatchJobPhaseCompleted,
                                js_Message := ''upgrade completed successfully''\<rparr>)) requeueImmediate
           })
      })"

text \<open>What \<open>waitForReboot\<close> does once the start of the reboot is known.\<close>

definition checkReboot :: "('v, 's) env \<Rightarrow> patchJob \<Rightarrow> time \<Rightarrow> patchPlan \<Rightarrow> node \<Rightarrow> string \<Rightarrow> ('s, ctrlResult) io" where
  "checkReboot E job rebootStart plan n nodeAddr = do {
     now \<leftarrow> timeNow E;
     let rebootTimeout = rebootTimeoutOf plan;
     let remaining = rebootTimeout - (now - rebootStart);
     let timedOut = remaining \<le> 0;
     let requeueAfter = min requeueForRebootCheck (max remaining requeueImmediate);
     let wanted = TargetTalosVersion (job_Status job);
     v \<leftarrow> GetVersion E nodeAddr;
     (case v of
        Inl err \<Rightarrow>
          if timedOut then
            failJob E job job ''node did not come back after reboot''
              (TextError (''no response within '' @ durString rebootTimeout @ '' (last error: '' @ errText err
                 @ ''); node left cordoned, verify it and uncordon manually''))
          else return (requeueAfter, None)
      | Inr currentVersion \<Rightarrow>
          if currentVersion \<noteq> wanted then
            (let bootID = PreUpgradeBootID (job_Status job) in
             if bootID \<noteq> '''' \<and> BootID n \<noteq> bootID then
               failJob E job job ''upgrade rolled back''
                 (TextError (''node rebooted but is running '' @ currentVersion @ '', want '' @ wanted
                    @ ''; node left cordoned, verify it and uncordon manually''))
             else if timedOut then
               failJob E job job ''node did not reach target version''
                 (TextError (''running '' @ currentVersion @ '', want '' @ wanted @ '' after '' @ durString rebootTimeout
                    @ ''; node left cordoned, verify it and uncordon manually''))
             else return (requeueAfter, None))
          else do {
            u \<leftarrow> nodeUnhealthy E n (PreUpgradeBootID (job_Status job));
            (case u of
               Inl err \<Rightarrow> retryOrFail E job job ''failed to check node health'' err
             | Inr reason \<Rightarrow>
                 if reason \<noteq> '''' then
                   (if timedOut then
                      failJob E job job ''node did not become healthy after upgrade''
                        (TextError (reason @ '' after '' @ durString rebootTimeout
                           @ ''; node left cordoned, verify it and uncordon manually''))
                    else return (requeueAfter, None))
                 else finishReboot E job job currentVersion)
          })
   }"

definition waitForReboot :: "('v, 's) env \<Rightarrow> patchJob \<Rightarrow> ('s, ctrlResult) io" where
  "waitForReboot E original =
     withTalos E original original (\<lambda>n nodeAddr. do {
       p \<leftarrow> getPatchPlan E original;
       (case p of
          Inl err \<Rightarrow> retryOrFail E original original ''failed to get PatchPlan'' err
        | Inr plan \<Rightarrow>
            (case RebootStartTime (job_Status original) of
               Some start \<Rightarrow> checkReboot E original start plan n nodeAddr
             | None \<Rightarrow> do {
                 start \<leftarrow> timeNow E;
                 r \<leftarrow> patchStatus E original (setStatus original (\<lambda>s. s\<lparr>RebootStartTime := Some start\<rparr>));
                 (case r of
                    Inl err \<Rightarrow> return (0, Some err)
                  | Inr job \<Rightarrow>
                      checkReboot E job (case RebootStartTime (job_Status job) of Some t \<Rightarrow> t | None \<Rightarrow> start) plan n nodeAddr)
               }))
     })"

section \<open>Kubernetes upgrade\<close>

definition startKubernetesUpgrade :: "('v, 's) env \<Rightarrow> patchJob \<Rightarrow> ('s, ctrlResult) io" where
  "startKubernetesUpgrade E original =
     withTalos E original original (\<lambda>n nodeAddr.
       let v = KubernetesVersion (jobTarget original) in do {
       cp \<leftarrow> (if IsControlPlane n
             then PatchControlPlaneVersion E nodeAddr (BuildAPIServerImage v) (BuildControllerManagerImage v) (BuildSchedulerImage v)
             else return None);
       (case cp of
          Some err \<Rightarrow> retryOrFail E original original ''failed to patch control plane components'' err
        | None \<Rightarrow> do {
            k \<leftarrow> PatchKubeletVersion E nodeAddr (BuildKubeletImage v);
            (case k of
               Some err \<Rightarrow> retryOrFail E original original ''failed to patch kubelet version'' err
             | None \<Rightarrow> do {
                 now \<leftarrow> timeNow E;
                 storeStatus E original (setStatus original
                        (\<lambda>s. s\<lparr>js_Phase := PatchJobPhaseValidatingKubernetes,
                               js_Message := ''kubernetes upgrade patch applied, waiting for rollout'',
                               KubernetesUpgradeStartTime := Some now\<rparr>)) requeueForKubernetesCheck
               })
          })
     })"

definition kubernetesTimeoutOf :: "patchPlan \<Rightarrow> duration" where
  "kubernetesTimeoutOf plan =
     (if KubernetesUpgradeTimeout (plan_Spec plan) \<le> 0 then defaultKubernetesUpgradeTimeout
      else KubernetesUpgradeTimeout (plan_Spec plan))"

definition finishKubernetes :: "('v, 's) env \<Rightarrow> patchJob \<Rightarrow> ('s, ctrlResult) io" where
  "finishKubernetes E job = do {
     storeStatus E job (setStatus job
            (\<lambda>s. s\<lparr>CurrentKubernetesVersion := KubernetesVersion (jobTarget job),
                   js_Phase := PatchJobPhaseCompleted,
                   js_Message := ''kubernetes upgrade completed successfully''\<rparr>)) 0
   }"

text \<open>What \<open>waitForKubernetesUpgrade\<close> does once the start of the rollout is known.\<close>

definition checkKubernetes :: "('v, 's) env \<Rightarrow> patchJob \<Rightarrow> time \<Rightarrow> patchPlan \<Rightarrow> ('s, ctrlResult) io" where
  "checkKubernetes E job start plan = do {
     now \<leftarrow> timeNow E;
     let timeout = kubernetesTimeoutOf plan;
     let remaining = timeout - (now - start);
     let timedOut = remaining \<le> 0;
     let requeueAfter = min requeueForKubernetesCheck (max remaining requeueImmediate);
     let v = KubernetesVersion (jobTarget job);
     nd \<leftarrow> getNode E (jobNode job);
     (case nd of
        Inl err \<Rightarrow> retryOrFail E job job ''failed to get node'' err
      | Inr n \<Rightarrow>
          if KubeletVersion n \<noteq> v then
            (if timedOut then
               failJob E job job ''kubelet did not reach target version''
                 (TextError (''running '' @ KubeletVersion n @ '', want '' @ v @ '' after '' @ durString timeout))
             else return (requeueAfter, None))
          else if IsControlPlane n then do {
            pods \<leftarrow> controlPlaneStaticPodsReady E (jobNode job) v;
            (case pods of
               Inl err \<Rightarrow> retryOrFail E job job ''failed to check control plane static pods'' err
             | Inr ready \<Rightarrow>
                 if \<not> ready then
                   (if timedOut then
                      failJob E job job ''control plane static pods did not roll out''
                        (TextError (''not running and ready with '' @ v @ '' images after '' @ durString timeout))
                    else return (requeueAfter, None))
                 else finishKubernetes E job)
          }
          else finishKubernetes E job)
   }"

definition waitForKubernetesUpgrade :: "('v, 's) env \<Rightarrow> patchJob \<Rightarrow> ('s, ctrlResult) io" where
  "waitForKubernetesUpgrade E original = do {
     p \<leftarrow> getPatchPlan E original;
     (case p of
        Inl err \<Rightarrow> retryOrFail E original original ''failed to get PatchPlan'' err
      | Inr plan \<Rightarrow>
          (case KubernetesUpgradeStartTime (job_Status original) of
             Some start \<Rightarrow> checkKubernetes E original start plan
           | None \<Rightarrow> do {
               start \<leftarrow> timeNow E;
               r \<leftarrow> patchStatus E original (setStatus original (\<lambda>s. s\<lparr>KubernetesUpgradeStartTime := Some start\<rparr>));
               (case r of
                  Inl err \<Rightarrow> return (0, Some err)
                | Inr job \<Rightarrow>
                    checkKubernetes E job
                      (case KubernetesUpgradeStartTime (job_Status job) of Some t \<Rightarrow> t | None \<Rightarrow> start) plan)
             }))
   }"

section \<open>Reconcile\<close>

definition reconcilePhase :: "('v, 's) env \<Rightarrow> patchJob \<Rightarrow> ('s, ctrlResult) io" where
  "reconcilePhase E job =
     (case jobPhase job of
        PatchJobPhaseNone \<Rightarrow> initJob E job
      | PatchJobPhasePending \<Rightarrow> startDrain E job
      | PatchJobPhaseDraining \<Rightarrow> waitForDrain E job
      | PatchJobPhaseUpgrading \<Rightarrow> startUpgrade E job
      | PatchJobPhaseRebooting \<Rightarrow> waitForReboot E job
      | PatchJobPhaseUpgradingKubernetes \<Rightarrow> startKubernetesUpgrade E job
      | PatchJobPhaseValidatingKubernetes \<Rightarrow> waitForKubernetesUpgrade E job
      | PatchJobPhaseCompleted \<Rightarrow> return (0, None)
      | PatchJobPhaseFailed \<Rightarrow> return (0, None))"

definition ReconcileJob :: "('v, 's) env \<Rightarrow> string \<Rightarrow> ('s, ctrlResult) io" where
  "ReconcileJob E name = do {
     r \<leftarrow> getJob E name;
     (case r of
        Inl err \<Rightarrow>
          if isNotFound err then do { deleteSince name; return (0, None) }
          else return (0, Some err)
      | Inr job \<Rightarrow>
          if IsTerminal (jobPhase job) then do { deleteSince name; return (0, None) }
          else do {
            res \<leftarrow> reconcilePhase E job;
            (if snd res = None then deleteSince name else return ());
            return res
          })
   }"

end
