(* ===== verification/Machine.thy ===== *)
theory Machine imports Effects begin

text \<open>
  State machines whose states carry a rank that never falls: the contract under which the phases of a
  job are shown to make progress. A path is a sequence of states linked by steps; a step may repeat its
  state (a status write that keeps the phase).
\<close>

fun isPath :: "('p \<Rightarrow> 'p \<Rightarrow> bool) \<Rightarrow> 'p list \<Rightarrow> bool" where
  "isPath step (p # q # ps) = (step p q \<and> isPath step (q # ps))"
| "isPath step _ = True"

text \<open>The states a path goes through while \<open>P\<close> holds are reached by steps within \<open>P\<close>.\<close>

lemma path_reach:
  "isPath step (p # ps) \<Longrightarrow> q \<in> set (takeWhile P (p # ps)) \<Longrightarrow> (\<lambda>a b. step a b \<and> P b)\<^sup>*\<^sup>* p q"
proof (induction ps arbitrary: p)
  case (Cons r rs)
  show ?case
  proof (cases "q = p")
    case False
    then have "P r" and "q \<in> set (takeWhile P (r # rs))" and "step p r"
      using Cons.prems by (auto split: if_splits)
    then show ?thesis using Cons by (intro converse_rtranclp_into_rtranclp [of _ p r]) auto
  qed simp
qed (auto split: if_splits)

locale ranked_machine =
  fixes step :: "'p \<Rightarrow> 'p \<Rightarrow> bool" and rank :: "'p \<Rightarrow> nat" and bound :: nat
  assumes step_rank: "step p q \<Longrightarrow> p = q \<or> rank p < rank q"
    and rank_bound: "rank p \<le> bound"
begin

lemma reach_rank: "step\<^sup>*\<^sup>* p q \<Longrightarrow> rank p \<le> rank q"
  by (induction rule: rtranclp_induct) (auto dest: step_rank)

lemma reach_antisym:
  assumes "step\<^sup>*\<^sup>* p q" and "step\<^sup>*\<^sup>* q p"
  shows "p = q"
  using assms(1)
proof (cases rule: converse_rtranclpE)
  case base
  then show ?thesis .
next
  case (step r)
  have "rank q \<le> rank p" "rank r \<le> rank q" using assms(2) step(2) by (simp_all add: reach_rank)
  then have "p = r" using step_rank [OF step(1)] by linarith
  from assms show ?thesis
  proof (induction rule: rtranclp_induct)
    case base
    then show ?case by simp
  next
    case (step y z)
    then have "step\<^sup>*\<^sup>* y p" by (meson converse_rtranclp_into_rtranclp)
    then have "p = y" using step.IH by blast
    moreover have "rank z \<le> rank p" using step.prems by (rule reach_rank)
    ultimately show ?case using step_rank [OF step.hyps(2)] by auto
  qed
qed

lemma path_rank: "isPath step (p # ps) \<Longrightarrow> q \<in> set (p # ps) \<Longrightarrow> rank p \<le> rank q"
proof (induction ps arbitrary: p)
  case (Cons r rs)
  then have "step p r" and "q = p \<or> rank r \<le> rank q" by auto
  then show ?case using step_rank [of p r] by auto
qed simp

text \<open>Apart from repetitions the rank rises all along a path, so no state is ever entered twice.\<close>

lemma path_rises: "isPath step ps \<Longrightarrow> sorted_wrt (\<lambda>p q. rank p < rank q) (remdups_adj ps)"
proof (induction ps rule: remdups_adj.induct)
  case (3 p q ps)
  show ?case
  proof (cases "p = q")
    case False
    then have "rank p < rank q" using 3(3) step_rank [of p q] by auto
    moreover have "rank q \<le> rank r" if "r \<in> set (q # ps)" for r
      using 3(3) path_rank [OF _ that] by simp
    ultimately show ?thesis using 3(2) [OF False] 3(3) False by fastforce
  qed (use 3 in simp)
qed simp_all

lemma path_no_return: "isPath step ps \<Longrightarrow> distinct (remdups_adj ps)"
proof -
  have "sorted_wrt (\<lambda>p q. rank p < rank q) qs \<Longrightarrow> distinct qs" for qs by (induction qs) auto
  then show "isPath step ps \<Longrightarrow> distinct (remdups_adj ps)" using path_rises by blast
qed

lemma changes_bounded:
  "isPath step (p # ps) \<Longrightarrow> length (remdups_adj (p # ps)) + rank p \<le> Suc bound"
proof (induction ps arbitrary: p)
  case Nil
  show ?case using rank_bound [of p] by simp
next
  case (Cons q qs)
  then have s: "step p q" and IH: "length (remdups_adj (q # qs)) + rank q \<le> Suc bound" by auto
  show ?case
  proof (cases "p = q")
    case True
    then show ?thesis using IH by simp
  next
    case False
    then have "rank p < rank q" using step_rank [OF s] by simp
    then show ?thesis using IH False by simp
  qed
qed

end

section \<open>Refinement\<close>

text \<open>
  The contract of an abstract specification: every concrete step from a sound state is matched by
  abstract steps between the abstractions of its two states. What is invariant under the abstract
  steps then holds of every concrete state that can be reached.
\<close>

locale refinement =
  fixes cstep :: "'c \<Rightarrow> 'c \<Rightarrow> bool" and sound :: "'c \<Rightarrow> bool"
    and astep :: "'a \<Rightarrow> 'a \<Rightarrow> bool" and abs :: "'c \<Rightarrow> 'a"
  assumes keeps_sound: "sound s \<Longrightarrow> cstep s t \<Longrightarrow> sound t"
    and simulates: "sound s \<Longrightarrow> cstep s t \<Longrightarrow> astep\<^sup>*\<^sup>* (abs s) (abs t)"
begin

lemma reach_sound: "cstep\<^sup>*\<^sup>* s t \<Longrightarrow> sound s \<Longrightarrow> sound t"
  by (induction rule: rtranclp_induct) (auto intro: keeps_sound)

lemma reach_simulated: "cstep\<^sup>*\<^sup>* s t \<Longrightarrow> sound s \<Longrightarrow> astep\<^sup>*\<^sup>* (abs s) (abs t)"
proof (induction rule: rtranclp_induct)
  case (step t u)
  then have "astep\<^sup>*\<^sup>* (abs t) (abs u)" using reach_sound simulates by blast
  then show ?case using step by (meson rtranclp_trans)
qed simp

lemma reach_invariant:
  assumes "\<And>a b. P a \<Longrightarrow> astep a b \<Longrightarrow> P b" and "P (abs s)" and "sound s" and "cstep\<^sup>*\<^sup>* s t"
  shows "P (abs t)"
  using reach_simulated [OF assms(4,3)] assms(1,2) by (induction rule: rtranclp_induct) blast+

end

end
