(* ===== verification/JobMachine.thy ===== *)
theory JobMachine imports PatchJob Machine begin

text \<open>
  What the job controller promises, independent of how it gets there: the phases a job moves through
  (\<open>jobStep\<close>), and for every phase the calls a reconcile may make (\<open>jobEvent\<close>). Every handler is
  shown to stay within both for all answers of the outside.
\<close>

section \<open>The phases of a job\<close>

inductive jobStep :: "patchJobPhase \<Rightarrow> patchJobPhase \<Rightarrow> bool" where
  already_done: "jobStep PatchJobPhaseNone PatchJobPhaseCompleted"
| needs_drain: "jobStep PatchJobPhaseNone PatchJobPhasePending"
| kubernetes_only: "jobStep PatchJobPhaseNone PatchJobPhaseUpgradingKubernetes"
| drain_blocked: "jobStep PatchJobPhasePending PatchJobPhasePending"
| drain_started: "jobStep PatchJobPhasePending PatchJobPhaseDraining"
| drained: "jobStep PatchJobPhaseDraining PatchJobPhaseUpgrading"
| upgrade_accepted: "jobStep PatchJobPhaseUpgrading PatchJobPhaseRebooting"
| reboot_clock: "jobStep PatchJobPhaseRebooting PatchJobPhaseRebooting"
| talos_done: "jobStep PatchJobPhaseRebooting PatchJobPhaseCompleted"
| kubernetes_next: "jobStep PatchJobPhaseRebooting PatchJobPhaseUpgradingKubernetes"
| patch_applied: "jobStep PatchJobPhaseUpgradingKubernetes PatchJobPhaseValidatingKubernetes"
| rollout_clock: "jobStep PatchJobPhaseValidatingKubernetes PatchJobPhaseValidatingKubernetes"
| kubernetes_done: "jobStep PatchJobPhaseValidatingKubernetes PatchJobPhaseCompleted"
| failed: "\<not> IsTerminal p \<Longrightarrow> jobStep p PatchJobPhaseFailed"

code_pred jobStep .

inductive_cases jobStep_Upgrading: "jobStep p PatchJobPhaseUpgrading"
inductive_cases jobStep_Rebooting: "jobStep p PatchJobPhaseRebooting"
inductive_cases jobStep_Draining: "jobStep p PatchJobPhaseDraining"
inductive_simps jobStep_terminal_simps:
  "jobStep PatchJobPhaseCompleted q" "jobStep PatchJobPhaseFailed q"

lemmas jobStep_intros = jobStep.intros

lemma jobStep_terminal: "IsTerminal p \<Longrightarrow> \<not> jobStep p q"
  unfolding IsTerminal_def by (auto simp: jobStep_terminal_simps)

text \<open>The stage of a phase: its rank, with one last stage for both terminal phases.\<close>

definition stage :: "patchJobPhase \<Rightarrow> nat" where
  "stage p = min (phaseRank p) 7"

lemma stage_terminal: "IsTerminal p \<longleftrightarrow> stage p = 7"
  by (cases p) (simp_all add: stage_def)

interpretation job: ranked_machine jobStep stage 7
proof
  show "jobStep p q \<Longrightarrow> p = q \<or> stage p < stage q" for p q
    by (cases rule: jobStep.cases) (auto simp: stage_def, cases p, auto)
  show "stage p \<le> 7" for p by (simp add: stage_def)
qed

text \<open>Without passing through \<open>Draining\<close> no phase that touches the operating system is reached.\<close>

definition undrainedStep :: "patchJobPhase \<Rightarrow> patchJobPhase \<Rightarrow> bool" where
  "undrainedStep p q \<longleftrightarrow> jobStep p q \<and> q \<noteq> PatchJobPhaseDraining"

lemma undrained_reach:
  "undrainedStep\<^sup>*\<^sup>* PatchJobPhaseNone q \<Longrightarrow>
   q \<notin> {PatchJobPhaseDraining, PatchJobPhaseUpgrading, PatchJobPhaseRebooting}"
proof (induction rule: rtranclp_induct)
  case base
  then show ?case by simp
next
  case (step q r)
  then show ?case
    unfolding undrainedStep_def by (auto elim: jobStep_Upgrading jobStep_Rebooting)
qed

section \<open>The calls of a reconcile\<close>

definition cordoned :: "node \<Rightarrow> node" where
  "cordoned n = n\<lparr>Unschedulable := True,
     node_Annotations := AList.update CordonedByAnnotation ''true'' (node_Annotations n)\<rparr>"

definition uncordoned :: "node \<Rightarrow> node" where
  "uncordoned n = n\<lparr>Unschedulable := False,
     node_Annotations := AList.delete CordonedByAnnotation (node_Annotations n)\<rparr>"

text \<open>
  What a reconcile of job \<open>j\<close> may do, call by call. Everything not listed is forbidden: the job
  controller creates and deletes nothing but pods, and writes no object but its node, its status and
  the machine configuration.
\<close>

definition jobEvent :: "('v, 's) env \<Rightarrow> patchJob \<Rightarrow> event \<Rightarrow> bool" where
  "jobEvent E j e =
     (case e of
        EvNow _ \<Rightarrow> True
      | EvGetPlan n _ \<Rightarrow> n = PatchPlanRef (job_Spec j)
      | EvGetNode n _ \<Rightarrow> n = jobNode j \<or> jobPhase j \<in> {PatchJobPhaseRebooting, PatchJobPhaseValidatingKubernetes}
      | EvGetSecret ns _ _ \<Rightarrow> ns = operatorNamespace E
      | EvListPods n _ \<Rightarrow> n = jobNode j \<and> jobPhase j \<in> {PatchJobPhasePending, PatchJobPhaseDraining}
      | EvListNamespacedPods ns _ _ \<Rightarrow> ns = kubeSystemNamespace
      | EvPatchNode b n _ \<Rightarrow>
          (jobPhase j = PatchJobPhasePending \<and> \<not> Unschedulable b \<and> n = cordoned b) \<or>
          (jobPhase j \<noteq> PatchJobPhaseUpgradingKubernetes \<and>
           map_of (node_Annotations b) CordonedByAnnotation \<noteq> None \<and> n = uncordoned b)
      | EvEvictPod p _ \<Rightarrow> jobPhase j = PatchJobPhasePending \<and> shouldEvictPod p
      | EvDeletePod p _ \<Rightarrow> jobPhase j = PatchJobPhasePending \<and> shouldEvictPod p
      | EvPatchJobStatus _ m _ \<Rightarrow> jobStep (jobPhase j) (jobPhase m)
      | EvTalosDial _ _ _ \<Rightarrow> True
      | EvTalosClose _ \<Rightarrow> True
      | EvTalosVersion _ _ \<Rightarrow> True
      | EvTalosExtensions _ _ \<Rightarrow> True
      | EvTalosUpgrade _ opts _ \<Rightarrow>
          jobPhase j = PatchJobPhaseUpgrading \<and>
          (\<exists>img sid. opts = upgradeRequest img \<and> BuildInstallerImage (jobTarget j) sid = Inr img)
      | EvTalosGetConfig _ _ \<Rightarrow> jobPhase j = PatchJobPhaseUpgradingKubernetes
      | EvTalosApplyConfig _ _ md _ \<Rightarrow> jobPhase j = PatchJobPhaseUpgradingKubernetes \<and> md = ApplyNoReboot
      | _ \<Rightarrow> False)"

lemma jobEvent_simps [simp]:
  "jobEvent E j (EvNow t)"
  "jobEvent E j (EvGetPlan n rp) \<longleftrightarrow> n = PatchPlanRef (job_Spec j)"
  "jobEvent E j (EvGetNode n rn) \<longleftrightarrow>
     n = jobNode j \<or> jobPhase j \<in> {PatchJobPhaseRebooting, PatchJobPhaseValidatingKubernetes}"
  "jobEvent E j (EvGetSecret ns n rs) \<longleftrightarrow> ns = operatorNamespace E"
  "jobEvent E j (EvListPods n rl) \<longleftrightarrow> n = jobNode j \<and> jobPhase j \<in> {PatchJobPhasePending, PatchJobPhaseDraining}"
  "jobEvent E j (EvListNamespacedPods ns n rl) \<longleftrightarrow> ns = kubeSystemNamespace"
  "jobEvent E j (EvPatchJobStatus b m rj) \<longleftrightarrow> jobStep (jobPhase j) (jobPhase m)"
  "jobEvent E j (EvTalosDial es tls ro)"
  "jobEvent E j (EvTalosClose ro)"
  "jobEvent E j (EvTalosVersion an rv)"
  "jobEvent E j (EvTalosExtensions a re)"
  "jobEvent E j (EvEvictPod p ro) \<longleftrightarrow> jobPhase j = PatchJobPhasePending \<and> shouldEvictPod p"
  "jobEvent E j (EvDeletePod p ro) \<longleftrightarrow> jobPhase j = PatchJobPhasePending \<and> shouldEvictPod p"
  "jobEvent E j (EvTalosGetConfig a rc) \<longleftrightarrow> jobPhase j = PatchJobPhaseUpgradingKubernetes"
  "jobEvent E j (EvTalosApplyConfig a d md ro) \<longleftrightarrow> jobPhase j = PatchJobPhaseUpgradingKubernetes \<and> md = ApplyNoReboot"
  by (simp_all add: jobEvent_def)

lemma jobEvent_cordon:
  "jobPhase j = PatchJobPhasePending \<Longrightarrow> \<not> Unschedulable n \<Longrightarrow>
   jobEvent E j (EvPatchNode n (n\<lparr>Unschedulable := True,
     node_Annotations := AList.update CordonedByAnnotation ''true'' (node_Annotations n)\<rparr>) r)"
  by (simp add: jobEvent_def cordoned_def)

lemma jobEvent_uncordon:
  "jobPhase j \<noteq> PatchJobPhaseUpgradingKubernetes \<Longrightarrow>
   map_of (node_Annotations n) CordonedByAnnotation \<noteq> None \<Longrightarrow>
   jobEvent E j (EvPatchNode n (n\<lparr>Unschedulable := False,
     node_Annotations := AList.delete CordonedByAnnotation (node_Annotations n)\<rparr>) r)"
  by (simp add: jobEvent_def uncordoned_def)

lemma jobEvent_upgrade:
  "jobPhase j = PatchJobPhaseUpgrading \<Longrightarrow> BuildInstallerImage (jobTarget j) sid = Inr img \<Longrightarrow>
   jobEvent E j (EvTalosUpgrade a (upgradeRequest img) r)"
  by (auto simp: jobEvent_def)

section \<open>Every handler stays within them\<close>

lemma setStatus_simps [simp]:
  "job_Status (setStatus j f) = f (job_Status j)"
  "job_Spec (setStatus j f) = job_Spec j"
  "job_Name (setStatus j f) = job_Name j"
  "jobNode (setStatus j f) = jobNode j"
  "jobTarget (setStatus j f) = jobTarget j"
  by (simp_all add: setStatus_def jobNode_def jobTarget_def)

lemma emits_patchStatus:
  assumes "\<And>t. P (EvNow t)" and "\<And>b m r. jobPhase m = jobPhase modified \<Longrightarrow> P (EvPatchJobStatus b m r)"
  shows "emits P (patchStatus E original modified)"
  unfolding patchStatus_def using assms by (intro emits_rules) simp_all

lemma emits_patchStatus_job:
  "jobStep (jobPhase j) (jobPhase modified) \<Longrightarrow> emits (jobEvent E j) (patchStatus E original modified)"
  by (rule emits_patchStatus) simp_all

lemma emits_storeStatus_job:
  "jobStep (jobPhase j) (jobPhase modified) \<Longrightarrow> emits (jobEvent E j) (storeStatus E original modified d)"
  unfolding storeStatus_def by (intro emits_rules emits_patchStatus_job)

lemma emits_UncordonNode_job:
  "jobPhase j \<noteq> PatchJobPhaseUpgradingKubernetes \<Longrightarrow>
   name = jobNode j \<or> jobPhase j \<in> {PatchJobPhaseRebooting, PatchJobPhaseValidatingKubernetes} \<Longrightarrow>
   emits (jobEvent E j) (UncordonNode E name)"
  by (rule emits_UncordonNode) (simp_all add: jobEvent_uncordon)

lemma emits_failJob:
  assumes "\<not> IsTerminal (jobPhase j)"
    and "jobPhase original \<in> {PatchJobPhasePending, PatchJobPhaseDraining, PatchJobPhaseUpgrading} \<Longrightarrow>
         jobPhase j \<noteq> PatchJobPhaseUpgradingKubernetes"
    and "jobNode modified = jobNode j \<or> jobPhase j \<in> {PatchJobPhaseRebooting, PatchJobPhaseValidatingKubernetes}"
  shows "emits (jobEvent E j) (failJob E original modified msg err)"
  unfolding failJob_def
  using assms by (intro emits_rules emits_storeStatus_job emits_UncordonNode_job) (simp_all add: jobStep.failed)

lemma emits_retryOrFail:
  assumes "\<not> IsTerminal (jobPhase j)"
    and "jobPhase original \<in> {PatchJobPhasePending, PatchJobPhaseDraining, PatchJobPhaseUpgrading} \<Longrightarrow>
         jobPhase j \<noteq> PatchJobPhaseUpgradingKubernetes"
    and "jobNode modified = jobNode j \<or> jobPhase j \<in> {PatchJobPhaseRebooting, PatchJobPhaseValidatingKubernetes}"
  shows "emits (jobEvent E j) (retryOrFail E original modified msg err)"
  unfolding retryOrFail_def using assms by (intro emits_rules emits_failJob) simp_all

lemma emits_retryStatus:
  "jobStep (jobPhase j) (jobPhase modified) \<Longrightarrow> emits (jobEvent E j) (retryStatus E n original modified)"
  by (induction n) (simp_all add: emits_patchStatus_job, intro emits_rules emits_patchStatus_job)

lemma emits_getPatchPlan [emits_rules]:
  "(\<And>r. P (EvGetPlan (PatchPlanRef (job_Spec j)) r)) \<Longrightarrow> emits P (getPatchPlan E j)"
  unfolding getPatchPlan_def by (intro emits_rules)

lemma emits_getTalosConfig [emits_rules]:
  "(\<And>r. P (EvGetPlan (PatchPlanRef (job_Spec j)) r)) \<Longrightarrow> (\<And>n r. P (EvGetSecret (operatorNamespace E) n r)) \<Longrightarrow>
   emits P (getTalosConfig E j)"
  unfolding getTalosConfig_def by (intro emits_rules)

lemma emits_controlPlaneStaticPodsReady [emits_rules]:
  "(\<And>r. P (EvListNamespacedPods kubeSystemNamespace n r)) \<Longrightarrow> emits P (controlPlaneStaticPodsReady E n v)"
  unfolding controlPlaneStaticPodsReady_def by (intro emits_rules)

lemma emits_withTalos:
  assumes "\<not> IsTerminal (jobPhase j)" and "jobPhase original = jobPhase j"
    and "job_Spec job = job_Spec j"
    and fn: "\<And>n a. emits (jobEvent E j) (fn n a)"
  shows "emits (jobEvent E j) (withTalos E original job fn)"
  unfolding withTalos_def
  using assms by (intro emits_rules emits_retryOrFail emits_failJob) (auto simp: jobNode_def)

lemma emits_CordonNode_job:
  "jobPhase j = PatchJobPhasePending \<Longrightarrow> name = jobNode j \<Longrightarrow> emits (jobEvent E j) (CordonNode E name)"
  by (rule emits_CordonNode) (simp_all add: jobEvent_cordon)

text \<open>The rules a handler's proof is made of.\<close>

lemmas job_rules = emits_rules emits_withTalos emits_retryOrFail emits_failJob emits_patchStatus_job emits_storeStatus_job
  emits_UncordonNode_job emits_CordonNode_job emits_retryStatus

lemma emits_decideInit:
  assumes "jobPhase j = PatchJobPhaseNone" and "jobPhase original = PatchJobPhaseNone" and "jobNode job = jobNode j"
  shows "emits (jobEvent E j) (decideInit E original job n tv sid)"
  unfolding decideInit_def finishInit_def
  using assms by (intro job_rules) (auto intro: jobStep_intros)

lemma emits_initJob:
  assumes "jobPhase j = PatchJobPhaseNone"
  shows "emits (jobEvent E j) (initJob E j)"
  unfolding initJob_def Let_def
  using assms by (intro job_rules emits_decideInit) auto

lemma emits_startDrain:
  assumes "jobPhase j = PatchJobPhasePending"
  shows "emits (jobEvent E j) (startDrain E j)"
  unfolding startDrain_def Let_def
  using assms by (intro job_rules) (auto intro: jobStep_intros intro!: job_rules split: bool.splits)

lemma emits_waitForDrain:
  assumes "jobPhase j = PatchJobPhaseDraining"
  shows "emits (jobEvent E j) (waitForDrain E j)"
  unfolding waitForDrain_def Let_def
  using assms by (intro job_rules) (auto intro: jobStep_intros intro!: job_rules split: bool.splits)

lemma emits_startUpgrade:
  assumes "jobPhase j = PatchJobPhaseUpgrading"
  shows "emits (jobEvent E j) (startUpgrade E j)"
  unfolding startUpgrade_def Let_def
  using assms by (intro job_rules) (auto intro: jobStep_intros jobEvent_upgrade)

lemma emits_finishReboot:
  assumes "jobPhase j = PatchJobPhaseRebooting"
  shows "emits (jobEvent E j) (finishReboot E original job v)"
  unfolding finishReboot_def Let_def
  using assms by (intro job_rules) (auto intro: jobStep_intros)

lemma emits_checkReboot:
  assumes "jobPhase j = PatchJobPhaseRebooting"
  shows "emits (jobEvent E j) (checkReboot E job start plan n a)"
  unfolding checkReboot_def nodeUnhealthy_def Let_def
  using assms by (intro job_rules emits_finishReboot) auto

lemma emits_waitForReboot:
  assumes "jobPhase j = PatchJobPhaseRebooting"
  shows "emits (jobEvent E j) (waitForReboot E j)"
  unfolding waitForReboot_def
  using assms by (intro job_rules emits_checkReboot) (auto intro: jobStep_intros)

lemma emits_startKubernetesUpgrade:
  assumes "jobPhase j = PatchJobPhaseUpgradingKubernetes"
  shows "emits (jobEvent E j) (startKubernetesUpgrade E j)"
  unfolding startKubernetesUpgrade_def Let_def
  using assms by (intro job_rules) (auto intro: jobStep_intros)

lemma emits_checkKubernetes:
  assumes "jobPhase j = PatchJobPhaseValidatingKubernetes"
  shows "emits (jobEvent E j) (checkKubernetes E job start plan)"
  unfolding checkKubernetes_def finishKubernetes_def Let_def
  using assms by (intro job_rules) (auto intro: jobStep_intros)

lemma emits_waitForKubernetesUpgrade:
  assumes "jobPhase j = PatchJobPhaseValidatingKubernetes"
  shows "emits (jobEvent E j) (waitForKubernetesUpgrade E j)"
  unfolding waitForKubernetesUpgrade_def
  using assms by (intro job_rules emits_checkKubernetes) (auto intro: jobStep_intros)

lemma emits_reconcilePhase: "emits (jobEvent E j) (reconcilePhase E j)"
  by (cases "jobPhase j")
     (simp_all add: reconcilePhase_def emits_initJob emits_startDrain emits_waitForDrain emits_startUpgrade
        emits_waitForReboot emits_startKubernetesUpgrade emits_waitForKubernetesUpgrade emits_return)

text \<open>
  A reconcile of \<open>ReconcileJob\<close> reads its job first; everything after that is allowed for the job
  as read, and nothing follows when the read failed or the job is terminal.
\<close>

definition reconcileTrace :: "('v, 's) env \<Rightarrow> string \<Rightarrow> event list \<Rightarrow> bool" where
  "reconcileTrace E name es =
     (case es of
        EvGetJob n (Inl _) # rest \<Rightarrow> n = name \<and> rest = []
      | EvGetJob n (Inr j) # rest \<Rightarrow>
          n = name \<and> (if IsTerminal (jobPhase j) then rest = [] else list_all (jobEvent E j) rest)
      | _ \<Rightarrow> False)"

text \<open>The ways through a reconcile of a job: it is gone, it has ended, or its phase is handled.\<close>

lemma runs_ReconcileJob:
  assumes gone: "\<And>e. Q (if isNotFound e then (0, None) else (0, Some e)) [EvGetJob name (Inl e)]"
    and ended: "\<And>j. IsTerminal (jobPhase j) \<Longrightarrow> Q (0, None) [EvGetJob name (Inr j)]"
    and phase: "\<And>j. \<not> IsTerminal (jobPhase j) \<Longrightarrow> runs [EvGetJob name (Inr j)] (reconcilePhase E j) Q"
  shows "runs [] (ReconcileJob E name) Q"
proof -
  have last: "runs h (do { (if snd res = None then deleteSince name else return ()); return res }) Q"
    if "Q res h" for res h
    using that by (intro runs_rules)
  show ?thesis
    unfolding ReconcileJob_def
  proof (rule runs_bind, rule runs_perform, rule runs_sum, goal_cases)
    case (1 r e)
    then show ?case using gone [of e] by (intro runs_rules) simp_all
  next
    case (2 r j)
    then show ?case
      using ended [of j] runs_mono [OF phase [of j] last] by (intro runs_if runs_bind runs_deleteSince runs_return) simp_all
  qed
qed

lemma ReconcileJob_trace: "runs [] (ReconcileJob E name) (\<lambda>_ es. reconcileTrace E name es)"
  unfolding ReconcileJob_def
  by (intro runs_rules runs_emits [OF emits_reconcilePhase]) (auto simp: reconcileTrace_def)

end
