(* ===== verification/JobTraces.thy ===== *)
theory JobTraces imports JobMachine begin

text \<open>
  What a reconcile of a job has established when it makes a particular call: a node is only declared
  upgraded when the answers of the same reconcile show it, pods are only evicted from a cordoned node,
  and an unfinished job is always looked at again.
\<close>

section \<open>Writes of a failure\<close>

text \<open>Calls that cannot move a job anywhere but to \<open>Failed\<close>.\<close>

definition onlyFails :: "event \<Rightarrow> bool" where
  "onlyFails e = (case e of EvPatchJobStatus _ m _ \<Rightarrow> jobPhase m = PatchJobPhaseFailed | _ \<Rightarrow> True)"

lemma onlyFails_simps [simp]:
  "onlyFails (EvNow t)" "onlyFails (EvGetNode n rn)" "onlyFails (EvPatchNode nb nn ro)"
  "onlyFails (EvGetPlan s rp)" "onlyFails (EvGetSecret s s2 rs)" "onlyFails (EvListPods s rl)"
  "onlyFails (EvListNamespacedPods s s2 rl)" "onlyFails (EvTalosDial es tls ro)" "onlyFails (EvTalosClose ro)"
  "onlyFails (EvTalosVersion an rv)" "onlyFails (EvTalosExtensions s re)" "onlyFails (EvEvictPod p ro)"
  "onlyFails (EvDeletePod p ro)" "onlyFails (EvTalosUpgrade s opts ru)" "onlyFails (EvTalosGetConfig s rc)"
  "onlyFails (EvTalosApplyConfig s d md ro)"
  "onlyFails (EvPatchJobStatus b m rj) \<longleftrightarrow> jobPhase m = PatchJobPhaseFailed"
  by (simp_all add: onlyFails_def)

lemma onlyFails_failJob: "emits onlyFails (failJob E original modified msg err)"
  unfolding failJob_def storeStatus_def by (intro emits_rules emits_patchStatus emits_UncordonNode) simp_all

lemma onlyFails_retryOrFail: "emits onlyFails (retryOrFail E original modified msg err)"
  unfolding retryOrFail_def by (intro emits_rules onlyFails_failJob) simp_all

lemmas fail_rules = onlyFails_failJob onlyFails_retryOrFail

section \<open>The result of a reconcile\<close>

text \<open>
  An error is handed to controller-runtime, which retries. Without one the job is looked at again
  within a minute, unless it has just been stored in a terminal phase.
\<close>

definition goodResult :: "ctrlResult \<Rightarrow> event list \<Rightarrow> bool" where
  "goodResult res es =
     (case res of
        (d, Some _) \<Rightarrow> d = 0
      | (d, None) \<Rightarrow>
          if d = 0 then (\<exists>b m j. EvPatchJobStatus b m (Inr j) \<in> set es \<and> IsTerminal (jobPhase m))
          else millisecond \<le> d \<and> d \<le> 60 * second)"

lemma goodResult_error [simp]: "goodResult (0, Some e) es"
  by (simp add: goodResult_def)

lemma goodResult_requeue [simp]:
  "goodResult (requeueImmediate, None) es" "goodResult (requeueForDrainCheck, None) es"
  "goodResult (requeueForUpgradeStart, None) es" "goodResult (requeueForRebootCheck, None) es"
  "goodResult (requeueForKubernetesCheck, None) es"
  by (simp_all add: goodResult_def requeue_defs)

lemma requeue_nonzero [simp]:
  "requeueImmediate \<noteq> 0" "requeueForDrainCheck \<noteq> 0" "requeueForUpgradeStart \<noteq> 0"
  "requeueForRebootCheck \<noteq> 0" "requeueForKubernetesCheck \<noteq> 0"
  by (simp_all add: requeue_defs)

lemma goodResult_min [simp]:
  "goodResult (min requeueForRebootCheck (max x requeueImmediate), None) es"
  "goodResult (min requeueForKubernetesCheck (max x requeueImmediate), None) es"
  by (auto simp: goodResult_def requeue_defs min_def max_def)

lemma goodResult_stored:
  "EvPatchJobStatus b m (Inr j) \<in> set es \<Longrightarrow> IsTerminal (jobPhase m) \<Longrightarrow> goodResult (0, None) es"
  by (auto simp: goodResult_def)

lemma goodResult_append: "goodResult res es \<Longrightarrow> goodResult res (es @ es')"
  by (auto simp: goodResult_def split: prod.splits option.splits if_splits)

lemma runs_patchStatus:
  assumes "\<And>b m r es. jobPhase m = jobPhase modified \<Longrightarrow> Q r (h @ es @ [EvPatchJobStatus b m r])"
  shows "runs h (patchStatus E original modified) Q"
  unfolding patchStatus_def
proof (intro runs_rules)
  fix t r
  show "Q r ((h @ [EvNow t]) @ [EvPatchJobStatus original (setStatus modified (\<lambda>s. s\<lparr>js_CompletionTime := Some t\<rparr>)) r])"
    using assms [of "setStatus modified (\<lambda>s. s\<lparr>js_CompletionTime := Some t\<rparr>)" r "[EvNow t]" original] by simp
  show "Q r (h @ [EvPatchJobStatus original modified r])"
    using assms [of modified r "[]" original] by simp
qed

lemma good_storeStatus_terminal:
  "IsTerminal (jobPhase modified) \<Longrightarrow> runs h (storeStatus E original modified 0) goodResult"
  unfolding storeStatus_def by (intro runs_bind runs_patchStatus runs_rules) (auto intro: goodResult_stored)

lemma good_storeStatus_requeue:
  "(\<And>es. goodResult (d, None) es) \<Longrightarrow> runs h (storeStatus E original modified d) goodResult"
  unfolding storeStatus_def by (intro runs_bind runs_patchStatus runs_rules) simp_all

text \<open>
  The compositional form: \<open>always Q m\<close> when \<open>Q\<close> holds of the result of \<open>m\<close> after every history;
  \<open>good\<close> for the result of a reconcile.
\<close>

definition always :: "('a \<Rightarrow> event list \<Rightarrow> bool) \<Rightarrow> ('s, 'a) io \<Rightarrow> bool" where
  "always Q m \<longleftrightarrow> (\<forall>h. runs h m Q)"

lemma always_runs: "always Q m \<Longrightarrow> runs h m Q"
  by (simp add: always_def)

abbreviation good :: "('s, ctrlResult) io \<Rightarrow> bool" where
  "good \<equiv> always goodResult"

definition anyEvent :: "event \<Rightarrow> bool" where "anyEvent e = True"

lemma anyEvent [simp]: "anyEvent e"
  by (simp add: anyEvent_def)

named_theorems always_rules "composition rules for always"

lemma always_return [always_rules]: "(\<And>es. Q res es) \<Longrightarrow> always Q (return res)"
  by (simp add: always_def runs_return)

lemma always_bind [always_rules]: "emits anyEvent m \<Longrightarrow> (\<And>a. always Q (f a)) \<Longrightarrow> always Q (State_Monad.bind m f)"
  unfolding always_def by (intro allI, rule runs_bind, erule runs_emits) blast

lemma always_if [always_rules]: "(b \<Longrightarrow> always Q m) \<Longrightarrow> (\<not> b \<Longrightarrow> always Q n) \<Longrightarrow> always Q (if b then m else n)"
  by simp

lemma always_sum [always_rules]:
  "(\<And>e. x = Inl e \<Longrightarrow> always Q (f e)) \<Longrightarrow> (\<And>a. x = Inr a \<Longrightarrow> always Q (g a)) \<Longrightarrow>
   always Q (case x of Inl e \<Rightarrow> f e | Inr a \<Rightarrow> g a)"
  by (cases x) simp_all

lemma always_option [always_rules]:
  "(x = None \<Longrightarrow> always Q m) \<Longrightarrow> (\<And>a. x = Some a \<Longrightarrow> always Q (f a)) \<Longrightarrow>
   always Q (case x of None \<Rightarrow> m | Some a \<Rightarrow> f a)"
  by (cases x) simp_all

lemma always_bool [always_rules]: "always Q m \<Longrightarrow> always Q n \<Longrightarrow> always Q (case b of True \<Rightarrow> m | False \<Rightarrow> n)"
  by (cases b) simp_all

lemma always_Let [always_rules]: "always Q (f x) \<Longrightarrow> always Q (Let x f)"
  by simp

lemma good_storeStatus [always_rules]:
  "(d = 0 \<Longrightarrow> IsTerminal (jobPhase modified)) \<Longrightarrow> (\<And>es. d \<noteq> 0 \<Longrightarrow> goodResult (d, None) es) \<Longrightarrow>
   good (storeStatus E original modified d)"
  unfolding always_def by (metis good_storeStatus_terminal good_storeStatus_requeue)

lemma good_failJob [always_rules]: "good (failJob E original modified msg err)"
  unfolding failJob_def by (intro always_rules emits_rules emits_UncordonNode) simp_all

lemma good_retryOrFail [always_rules]: "good (retryOrFail E original modified msg err)"
  unfolding retryOrFail_def by (intro always_rules emits_rules) simp_all

text \<open>
  Running a handler inside \<open>withTalos\<close>: the node it gets was read in this reconcile, and a fact about
  the history that calls other than status writes keep still holds when it starts.
\<close>

definition noWrite :: "event \<Rightarrow> bool" where
  "noWrite e = (case e of EvPatchJobStatus _ _ _ \<Rightarrow> False | _ \<Rightarrow> True)"

lemma noWrite_setup:
  "emits noWrite (getTalosConfig E job)" "emits noWrite (NewClient E c)"
  by (intro emits_rules; simp add: noWrite_def)+

lemma noWrite_node: "noWrite (EvGetNode n r)"
  by (simp add: noWrite_def)

lemma runs_withTalos_setup:
  assumes set_up: "emits P (getTalosConfig E job)" "\<And>c. emits P (NewClient E c)" "\<And>n r. P (EvGetNode n r)"
    and I: "I h" "\<And>h es. I h \<Longrightarrow> list_all P es \<Longrightarrow> I (h @ es)"
    and err: "\<And>h m e. I h \<Longrightarrow> runs h (retryOrFail E original job m e) Q"
      "\<And>h m e. I h \<Longrightarrow> runs h (failJob E original job m e) Q"
    and fn: "\<And>h n a. I h \<Longrightarrow> EvGetNode (jobNode job) (Inr n) \<in> set h \<Longrightarrow> GetNodeInternalIP n = Inr a \<Longrightarrow> runs h (fn n a) Q"
    and close: "\<And>res es r. Q res es \<Longrightarrow> Q res (es @ [EvTalosClose r])"
  shows "runs h (withTalos E original job fn) Q"
proof -
  have node: "I (h' @ [EvGetNode name r])" if "I h'" for h' name r
    using I(2) [OF that, of "[EvGetNode name r]"] set_up(3) by simp
  have inner: "runs h' (do { nd \<leftarrow> getNode E (jobNode job);
      (case nd of
         Inl err \<Rightarrow> retryOrFail E original job ''failed to get node'' err
       | Inr n \<Rightarrow> (case GetNodeInternalIP n of
            Inl err \<Rightarrow> retryOrFail E original job ''failed to resolve node address'' err
          | Inr a \<Rightarrow> fn n a)) }) Q" if "I h'" for h'
    using that by (intro runs_rules err fn node) auto
  have rest: "runs h' (do { res \<leftarrow> (do { nd \<leftarrow> getNode E (jobNode job);
      (case nd of
         Inl err \<Rightarrow> retryOrFail E original job ''failed to get node'' err
       | Inr n \<Rightarrow> (case GetNodeInternalIP n of
            Inl err \<Rightarrow> retryOrFail E original job ''failed to resolve node address'' err
          | Inr a \<Rightarrow> fn n a)) }); Close E; return res }) Q" if "I h'" for h'
    unfolding Close_def by (rule runs_bind, rule runs_mono [OF inner [OF that]], intro runs_rules close)
  show ?thesis
    unfolding withTalos_def
    by (rule runs_bind, rule runs_emits [OF set_up(1)], intro runs_sum err I, assumption,
        rule runs_bind, rule runs_emits [OF set_up(2)], intro runs_option err rest I)
qed

lemmas runs_withTalos = runs_withTalos_setup [where P = noWrite, OF noWrite_setup noWrite_node]

lemma always_withTalos:
  assumes retry: "\<And>m e. always Q (retryOrFail E original job m e)" and fail: "\<And>m e. always Q (failJob E original job m e)"
    and fn: "\<And>n a. always Q (fn n a)" and close: "\<And>res es r. Q res es \<Longrightarrow> Q res (es @ [EvTalosClose r])"
  shows "always Q (withTalos E original job fn)"
  unfolding always_def
  by (intro allI runs_withTalos [where I = "\<lambda>_. True"] always_runs retry fail fn close) auto

lemma good_withTalos [always_rules]: "(\<And>n a. good (fn n a)) \<Longrightarrow> good (withTalos E original job fn)"
  by (intro always_withTalos good_retryOrFail good_failJob goodResult_append)

text \<open>Calls that leave the judgement of a result to what follows.\<close>

lemma emits_CordonNode_any [emits_rules]: "emits anyEvent (CordonNode E name)"
  by (intro emits_CordonNode) simp_all

lemma emits_UncordonNode_any [emits_rules]: "emits anyEvent (UncordonNode E name)"
  by (intro emits_UncordonNode) simp_all

lemma emits_nodeUnhealthy [emits_rules]:
  "(\<And>n r. P (EvListNamespacedPods kubeSystemNamespace n r)) \<Longrightarrow> emits P (nodeUnhealthy E n b)"
  unfolding nodeUnhealthy_def by (intro emits_rules)

lemma emits_patchStatus_any [emits_rules]: "emits anyEvent (patchStatus E original modified)"
  by (rule emits_patchStatus) simp_all

lemma emits_retryStatus_any [emits_rules]: "emits anyEvent (retryStatus E n original modified)"
  by (induction n; unfold retryStatus.simps; intro emits_rules)

lemma good_initJob: "good (initJob E j)"
  unfolding initJob_def decideInit_def finishInit_def Let_def
  by (intro always_rules emits_rules) simp_all

lemma good_startDrain: "good (startDrain E j)"
  unfolding startDrain_def Let_def by (intro always_rules emits_rules) simp_all

lemma good_waitForDrain: "good (waitForDrain E j)"
  unfolding waitForDrain_def Let_def by (intro always_rules emits_rules) simp_all

lemma good_startUpgrade: "good (startUpgrade E j)"
  unfolding startUpgrade_def Let_def by (intro always_rules emits_rules) simp_all

lemma good_checkReboot: "good (checkReboot E job start plan n a)"
  unfolding checkReboot_def finishReboot_def Let_def by (intro always_rules emits_rules) simp_all

lemma good_waitForReboot: "good (waitForReboot E j)"
  unfolding waitForReboot_def by (intro always_rules emits_rules good_checkReboot) simp_all

lemma good_startKubernetesUpgrade: "good (startKubernetesUpgrade E j)"
  unfolding startKubernetesUpgrade_def Let_def by (intro always_rules emits_rules) simp_all

lemma good_checkKubernetes: "good (checkKubernetes E job start plan)"
  unfolding checkKubernetes_def finishKubernetes_def Let_def by (intro always_rules emits_rules) simp_all

lemma good_waitForKubernetesUpgrade: "good (waitForKubernetesUpgrade E j)"
  unfolding waitForKubernetesUpgrade_def by (intro always_rules emits_rules good_checkKubernetes) simp_all

lemma good_reconcilePhase: "\<not> IsTerminal (jobPhase j) \<Longrightarrow> good (reconcilePhase E j)"
  by (cases "jobPhase j")
     (simp_all add: reconcilePhase_def good_initJob good_startDrain good_waitForDrain good_startUpgrade
        good_waitForReboot good_startKubernetesUpgrade good_waitForKubernetesUpgrade)

section \<open>Writes that need a justification\<close>

text \<open>
  A history is justified when every call in it that needs one has its reason in the same history.
  Reasons only accumulate, so a history stays justified when calls follow that need none.
\<close>

definition justified :: "(event \<Rightarrow> event list \<Rightarrow> bool) \<Rightarrow> event list \<Rightarrow> bool" where
  "justified V es \<longleftrightarrow> (\<forall>e\<in>set es. V e es)"

definition accumulates :: "(event \<Rightarrow> event list \<Rightarrow> bool) \<Rightarrow> bool" where
  "accumulates V \<longleftrightarrow> (\<forall>e es es'. V e es \<longrightarrow> set es \<subseteq> set es' \<longrightarrow> V e es')"

lemma justified_Nil [simp]: "justified V []"
  by (simp add: justified_def)

lemma justified_extend:
  assumes "accumulates V" and "justified V h" and "\<And>e. e \<in> set es \<Longrightarrow> V e (h @ es)"
  shows "justified V (h @ es)"
  using assms unfolding justified_def accumulates_def
  by (metis Un_iff set_append sup_ge1)

lemma justified_emits:
  assumes "accumulates V" and "emits P m" and "\<And>e es'. P e \<Longrightarrow> set h \<subseteq> set es' \<Longrightarrow> V e es'" and "justified V h"
  shows "runs h m (\<lambda>_. justified V)"
  by (rule runs_emits [OF assms(2)], rule justified_extend [OF assms(1,4)])
     (auto simp: list_all_iff intro!: assms(3))

lemma justified_event:
  assumes "accumulates V" and "\<And>es'. V e es'" and "justified V h"
  shows "justified V (h @ [e])"
  using assms by (intro justified_extend) auto

text \<open>What the answers must show before a node counts as upgraded after its reboot.\<close>

definition podsReady :: "event list \<Rightarrow> string \<Rightarrow> string \<Rightarrow> bool" where
  "podsReady es name v \<longleftrightarrow>
     (\<exists>pods. EvListNamespacedPods kubeSystemNamespace name (Inr pods) \<in> set es \<and>
        length (foldl (noteComponent v) [] pods) = length (wantImages v))"

definition rebootVerified :: "patchJob \<Rightarrow> patchJob \<Rightarrow> event list \<Rightarrow> bool" where
  "rebootVerified j base es \<longleftrightarrow>
     (\<exists>n a msgs. EvGetNode (jobNode j) (Inr n) \<in> set es \<and> GetNodeInternalIP n = Inr a \<and>
        EvTalosVersion (Some a) (Inr msgs) \<in> set es \<and>
        firstTag msgs = Some (TargetTalosVersion (job_Status base)) \<and>
        (PreUpgradeBootID (job_Status base) = '''' \<or> BootID n \<noteq> PreUpgradeBootID (job_Status base)) \<and>
        nodeReady n \<and> (if IsControlPlane n then podsReady es (node_Name n) '''' else True))"

definition kubernetesVerified :: "patchJob \<Rightarrow> event list \<Rightarrow> bool" where
  "kubernetesVerified base es \<longleftrightarrow>
     (\<exists>n. EvGetNode (jobNode base) (Inr n) \<in> set es \<and> KubeletVersion n = KubernetesVersion (jobTarget base) \<and>
        (if IsControlPlane n then podsReady es (jobNode base) (KubernetesVersion (jobTarget base)) else True))"

definition needsReboot :: "patchJob \<Rightarrow> event \<Rightarrow> event list \<Rightarrow> bool" where
  "needsReboot j e es =
     (case e of
        EvPatchJobStatus base m _ \<Rightarrow>
          if jobPhase m \<in> {PatchJobPhaseCompleted, PatchJobPhaseUpgradingKubernetes} then rebootVerified j base es else True
      | _ \<Rightarrow> True)"

definition needsRollout :: "event \<Rightarrow> event list \<Rightarrow> bool" where
  "needsRollout e es =
     (case e of
        EvPatchJobStatus base m _ \<Rightarrow> if jobPhase m = PatchJobPhaseCompleted then kubernetesVerified base es else True
      | _ \<Rightarrow> True)"

lemma podsReady_mono: "podsReady es name v \<Longrightarrow> set es \<subseteq> set es' \<Longrightarrow> podsReady es' name v"
  unfolding podsReady_def by blast

lemma rebootVerified_mono:
  assumes "rebootVerified j base es" and "set es \<subseteq> set es'"
  shows "rebootVerified j base es'"
  using assms podsReady_mono [OF _ assms(2)] unfolding rebootVerified_def by (metis subsetD)

lemma kubernetesVerified_mono:
  assumes "kubernetesVerified base es" and "set es \<subseteq> set es'"
  shows "kubernetesVerified base es'"
  using assms podsReady_mono [OF _ assms(2)] unfolding kubernetesVerified_def by (metis subsetD)

lemma accumulates_needsReboot: "accumulates (needsReboot j)"
  unfolding accumulates_def
proof (intro allI impI)
  fix e es es'
  assume "needsReboot j e es" and "set es \<subseteq> set es'"
  then show "needsReboot j e es'"
    by (cases e) (simp_all add: needsReboot_def rebootVerified_mono split: if_splits)
qed

lemma accumulates_needsRollout: "accumulates needsRollout"
  unfolding accumulates_def
proof (intro allI impI)
  fix e es es'
  assume "needsRollout e es" and "set es \<subseteq> set es'"
  then show "needsRollout e es'"
    by (cases e) (simp_all add: needsRollout_def kubernetesVerified_mono split: if_splits)
qed

lemma needsReboot_onlyFails: "onlyFails e \<Longrightarrow> needsReboot j e es"
  by (cases e) (simp_all add: needsReboot_def)

lemma needsRollout_onlyFails: "onlyFails e \<Longrightarrow> needsRollout e es"
  by (cases e) (simp_all add: needsRollout_def)

lemma reboot_quiet:
  "emits onlyFails m \<Longrightarrow> justified (needsReboot j) h \<Longrightarrow> runs h m (\<lambda>_. justified (needsReboot j))"
  by (rule justified_emits [OF accumulates_needsReboot, where P = onlyFails]) (auto intro: needsReboot_onlyFails)

lemma rollout_quiet:
  "emits onlyFails m \<Longrightarrow> justified needsRollout h \<Longrightarrow> runs h m (\<lambda>_. justified needsRollout)"
  by (rule justified_emits [OF accumulates_needsRollout, where P = onlyFails]) (auto intro: needsRollout_onlyFails)

section \<open>After the reboot\<close>

lemma runs_GetVersion:
  assumes "\<And>e r. Q (Inl e) (h @ [EvTalosVersion (Some a) r])"
    and "\<And>msgs v. firstTag msgs = Some v \<Longrightarrow> Q (Inr v) (h @ [EvTalosVersion (Some a) (Inr msgs)])"
  shows "runs h (GetVersion E a) Q"
  unfolding GetVersion_def using assms by (intro runs_rules) simp_all

lemma runs_podsReady:
  assumes "\<And>e r. Q (Inl e) (h @ [EvListNamespacedPods kubeSystemNamespace name r])"
    and "\<And>pods. Q (Inr (length (foldl (noteComponent v) [] pods) = length (wantImages v)))
           (h @ [EvListNamespacedPods kubeSystemNamespace name (Inr pods)])"
  shows "runs h (controlPlaneStaticPodsReady E name v) Q"
  unfolding controlPlaneStaticPodsReady_def using assms by (intro runs_rules) simp_all

definition basedOn :: "patchJob \<Rightarrow> event \<Rightarrow> bool" where
  "basedOn j e = (case e of EvPatchJobStatus b _ _ \<Rightarrow> b = j | _ \<Rightarrow> True)"

lemma basedOn_patchStatus: "emits (basedOn j) (patchStatus E j modified)"
  unfolding patchStatus_def by (intro emits_rules) (simp_all add: basedOn_def)

lemma basedOn_failJob: "emits (basedOn j) (failJob E j modified msg err)"
  unfolding failJob_def storeStatus_def
  by (intro emits_rules basedOn_patchStatus emits_UncordonNode) (simp_all add: basedOn_def)

lemma basedOn_finishReboot: "emits (basedOn j) (finishReboot E j job v)"
  unfolding finishReboot_def retryOrFail_def storeStatus_def Let_def
  by (intro emits_rules basedOn_patchStatus basedOn_failJob emits_UncordonNode) (simp_all add: basedOn_def)

lemma finishReboot_justified:
  assumes "rebootVerified j base h" and "justified (needsReboot j) h"
  shows "runs h (finishReboot E base job v) (\<lambda>_. justified (needsReboot j))"
proof (rule justified_emits [OF accumulates_needsReboot basedOn_finishReboot [of base]])
  fix e es'
  assume e: "basedOn base e" and sub: "set h \<subseteq> set es'"
  have "rebootVerified j base es'"
    using assms(1) sub by (rule rebootVerified_mono)
  then show "needsReboot j e es'" using e by (cases e) (simp_all add: needsReboot_def basedOn_def)
qed (rule assms(2))

lemma onlyFails_nodeUnhealthy: "emits onlyFails (nodeUnhealthy E n b)"
  by (intro emits_rules) simp

lemma runs_nodeUnhealthy:
  assumes J: "justified (needsReboot j) h"
    and n: "EvGetNode (jobNode j) (Inr n) \<in> set h" "GetNodeInternalIP n = Inr a"
      "EvTalosVersion (Some a) (Inr msgs) \<in> set h" "firstTag msgs = Some (TargetTalosVersion (job_Status base))"
    and bad: "\<And>r h'. justified (needsReboot j) h' \<Longrightarrow> r \<noteq> Inr '''' \<Longrightarrow> Q r h'"
    and healthy: "\<And>h'. justified (needsReboot j) h' \<Longrightarrow> rebootVerified j base h' \<Longrightarrow> Q (Inr '''') h'"
  shows "runs h (nodeUnhealthy E n (PreUpgradeBootID (job_Status base))) Q"
proof -
  have ext: "justified (needsReboot j) (h @ [EvListNamespacedPods kubeSystemNamespace name r])" for name r
    using J by (intro justified_event accumulates_needsReboot) (simp_all add: needsReboot_def)
  have verified: "rebootVerified j base h'" if "set h \<subseteq> set h'" "nodeReady n"
    "PreUpgradeBootID (job_Status base) = '''' \<or> BootID n \<noteq> PreUpgradeBootID (job_Status base)"
    "IsControlPlane n \<Longrightarrow> podsReady h' (node_Name n) ''''" for h'
    using that n unfolding rebootVerified_def by (intro exI [of _ n] exI [of _ a] exI [of _ msgs]) auto
  show ?thesis
    unfolding nodeUnhealthy_def
    by (intro runs_rules runs_podsReady) (auto intro!: bad healthy verified ext J simp: podsReady_def)
qed

lemma checkReboot_justified:
  assumes J: "justified (needsReboot j) h"
    and n: "EvGetNode (jobNode j) (Inr n) \<in> set h" "GetNodeInternalIP n = Inr a"
  shows "runs h (checkReboot E base start plan n a) (\<lambda>_. justified (needsReboot j))"
proof -
  have answers: "justified (needsReboot j) (h @ [EvNow t, EvTalosVersion x r])" for t x r
    using J by (intro justified_extend accumulates_needsReboot) (auto simp: needsReboot_def)
  have fail: "justified (needsReboot j) h' \<Longrightarrow>
      runs h' (failJob E base base msg err) (\<lambda>_. justified (needsReboot j))" for h' msg err
    by (rule reboot_quiet [OF onlyFails_failJob])
  have retry: "justified (needsReboot j) h' \<Longrightarrow>
      runs h' (retryOrFail E base base msg err) (\<lambda>_. justified (needsReboot j))" for h' msg err
    by (rule reboot_quiet [OF onlyFails_retryOrFail])
  show ?thesis
    unfolding checkReboot_def Let_def
    by (intro runs_rules runs_GetVersion runs_nodeUnhealthy [where base = base])
       (auto intro!: fail retry answers n finishReboot_justified runs_return)
qed

lemma justified_noWrite:
  assumes "justified (needsReboot j) h" and "list_all noWrite es"
  shows "justified (needsReboot j) (h @ es)"
proof (rule justified_extend [OF accumulates_needsReboot assms(1)])
  fix e
  assume "e \<in> set es"
  then have "noWrite e" using assms(2) by (simp add: list_all_iff)
  then show "needsReboot j e (h @ es)" by (cases e) (simp_all add: needsReboot_def noWrite_def)
qed

lemma justified_close: "justified (needsReboot j) es \<Longrightarrow> justified (needsReboot j) (es @ [EvTalosClose r])"
  by (rule justified_noWrite) (simp_all add: noWrite_def)

lemma emits_getPatchPlan_noWrite: "emits noWrite (getPatchPlan E job)"
  by (intro emits_rules) (simp add: noWrite_def)

text \<open>The write of a missing start of the reboot, and the handler that \<open>withTalos\<close> runs.\<close>

lemma rebootClock_justified:
  assumes phase: "jobPhase j = PatchJobPhaseRebooting" and J: "justified (needsReboot j) h"
  shows "runs h (patchStatus E j (setStatus j (\<lambda>s. s\<lparr>RebootStartTime := Some t\<rparr>)))
    (\<lambda>_ h'. justified (needsReboot j) h' \<and> set h \<subseteq> set h')"
proof (rule runs_emits)
  show "emits (\<lambda>e. \<forall>es. needsReboot j e es) (patchStatus E j (setStatus j (\<lambda>s. s\<lparr>RebootStartTime := Some t\<rparr>)))"
    by (rule emits_patchStatus) (simp_all add: needsReboot_def phase)
  fix es
  assume "list_all (\<lambda>e. \<forall>es. needsReboot j e es) es"
  then show "justified (needsReboot j) (h @ es) \<and> set h \<subseteq> set (h @ es)"
    using J by (auto intro!: justified_extend accumulates_needsReboot simp: list_all_iff)
qed

lemma rebootStart_justified:
  assumes phase: "jobPhase j = PatchJobPhaseRebooting" and J: "justified (needsReboot j) h"
    and n: "EvGetNode (jobNode j) (Inr n) \<in> set h" "GetNodeInternalIP n = Inr a"
  shows "runs h (do {
       start \<leftarrow> timeNow E;
       r \<leftarrow> patchStatus E j (setStatus j (\<lambda>s. s\<lparr>RebootStartTime := Some start\<rparr>));
       (case r of
          Inl err \<Rightarrow> return (0, Some err)
        | Inr job \<Rightarrow>
            checkReboot E job (case RebootStartTime (job_Status job) of Some t \<Rightarrow> t | None \<Rightarrow> start) plan n a)
     }) (\<lambda>_. justified (needsReboot j))"
proof (rule runs_bind, rule runs_perform, rule runs_bind, rule runs_mono, rule rebootClock_justified [OF phase])
  show "justified (needsReboot j) (h @ [EvNow t])" for t
    using justified_noWrite [OF J, of "[EvNow t]"] by (simp add: noWrite_def)
  fix t r h2
  assume "justified (needsReboot j) h2 \<and> set (h @ [EvNow t]) \<subseteq> set h2"
  then show "runs h2 (case r of
          Inl err \<Rightarrow> return (0, Some err)
        | Inr job \<Rightarrow>
            checkReboot E job (case RebootStartTime (job_Status job) of Some s \<Rightarrow> s | None \<Rightarrow> t) plan n a)
      (\<lambda>_. justified (needsReboot j))"
    using n by (intro runs_sum runs_return checkReboot_justified) auto
qed

lemma waitForReboot_justified:
  assumes phase: "jobPhase j = PatchJobPhaseRebooting"
  shows "runs [] (waitForReboot E j) (\<lambda>_. justified (needsReboot j))"
  unfolding waitForReboot_def
proof (rule runs_withTalos [where I = "justified (needsReboot j)"])
  fix h n a
  assume h: "justified (needsReboot j) h" "EvGetNode (jobNode j) (Inr n) \<in> set h" "GetNodeInternalIP n = Inr a"
  have read: "justified (needsReboot j) (h @ es)" "EvGetNode (jobNode j) (Inr n) \<in> set (h @ es)"
    if "list_all noWrite es" for es
    using justified_noWrite [OF h(1) that] h(2) by simp_all
  show "runs h (do {
       p \<leftarrow> getPatchPlan E j;
       (case p of
          Inl err \<Rightarrow> retryOrFail E j j ''failed to get PatchPlan'' err
        | Inr plan \<Rightarrow>
            (case RebootStartTime (job_Status j) of
               Some start \<Rightarrow> checkReboot E j start plan n a
             | None \<Rightarrow> do {
                 start \<leftarrow> timeNow E;
                 r \<leftarrow> patchStatus E j (setStatus j (\<lambda>s. s\<lparr>RebootStartTime := Some start\<rparr>));
                 (case r of
                    Inl err \<Rightarrow> return (0, Some err)
                  | Inr job \<Rightarrow>
                      checkReboot E job (case RebootStartTime (job_Status job) of Some t \<Rightarrow> t | None \<Rightarrow> start) plan n a)
               }))
     }) (\<lambda>_. justified (needsReboot j))"
    by (rule runs_bind, rule runs_emits [OF emits_getPatchPlan_noWrite], intro runs_sum runs_option)
       (auto intro!: reboot_quiet [OF onlyFails_retryOrFail] checkReboot_justified rebootStart_justified [OF phase] read h(3))
qed (auto intro: justified_noWrite reboot_quiet [OF onlyFails_retryOrFail] reboot_quiet [OF onlyFails_failJob]
      justified_event [OF accumulates_needsReboot] justified_close)

section \<open>After the Kubernetes rollout\<close>

lemma rollout_noWrite:
  assumes "justified needsRollout h" and "list_all noWrite es"
  shows "justified needsRollout (h @ es)"
proof (rule justified_extend [OF accumulates_needsRollout assms(1)])
  fix e
  assume "e \<in> set es"
  then have "noWrite e" using assms(2) by (simp add: list_all_iff)
  then show "needsRollout e (h @ es)" by (cases e) (simp_all add: needsRollout_def noWrite_def)
qed

lemma finishKubernetes_justified:
  assumes "kubernetesVerified job h" and "justified needsRollout h"
  shows "runs h (finishKubernetes E job) (\<lambda>_. justified needsRollout)"
proof (rule justified_emits [OF accumulates_needsRollout])
  show "emits (basedOn job) (finishKubernetes E job)"
    unfolding finishKubernetes_def storeStatus_def by (intro emits_rules basedOn_patchStatus)
  fix e es'
  assume e: "basedOn job e" and sub: "set h \<subseteq> set es'"
  have "kubernetesVerified job es'" using assms(1) sub by (rule kubernetesVerified_mono)
  then show "needsRollout e es'" using e by (cases e) (simp_all add: needsRollout_def basedOn_def)
qed (rule assms(2))

lemma checkKubernetes_justified:
  assumes J: "justified needsRollout h"
  shows "runs h (checkKubernetes E job start plan) (\<lambda>_. justified needsRollout)"
proof -
  have answers: "justified needsRollout (h @ es)" if "list_all noWrite es" for es
    using J that by (rule rollout_noWrite)
  have verified: "kubernetesVerified job (h @ EvNow t # EvGetNode (jobNode job) (Inr n) # es)"
    if "KubeletVersion n = KubernetesVersion (jobTarget job)"
      "IsControlPlane n \<Longrightarrow> \<exists>ps. EvListNamespacedPods kubeSystemNamespace (jobNode job) (Inr ps) \<in> set es \<and>
         length (foldl (noteComponent (KubernetesVersion (jobTarget job))) [] ps)
           = length (wantImages (KubernetesVersion (jobTarget job)))" for t n es
    using that unfolding kubernetesVerified_def podsReady_def by (intro exI [of _ n]) auto
  have fail: "justified needsRollout h' \<Longrightarrow> runs h' (failJob E job job msg err) (\<lambda>_. justified needsRollout)" for h' msg err
    by (rule rollout_quiet [OF onlyFails_failJob])
  have retry: "justified needsRollout h' \<Longrightarrow> runs h' (retryOrFail E job job msg err) (\<lambda>_. justified needsRollout)" for h' msg err
    by (rule rollout_quiet [OF onlyFails_retryOrFail])
  show ?thesis
    unfolding checkKubernetes_def Let_def
    by (intro runs_rules runs_podsReady)
       (auto intro!: fail retry answers finishKubernetes_justified runs_return
          simp: noWrite_def intro: verified)
qed

lemma waitForKubernetesUpgrade_justified:
  assumes phase: "jobPhase j = PatchJobPhaseValidatingKubernetes"
  shows "runs [] (waitForKubernetesUpgrade E j) (\<lambda>_. justified needsRollout)"
proof -
  let ?J = "justified needsRollout"
  have clock: "runs h (patchStatus E j (setStatus j (\<lambda>s. s\<lparr>KubernetesUpgradeStartTime := Some t\<rparr>))) (\<lambda>_. ?J)"
    if "?J h" for h t
  proof (rule justified_emits [OF accumulates_needsRollout _ _ that])
    show "emits (\<lambda>e. \<forall>es. needsRollout e es) (patchStatus E j (setStatus j (\<lambda>s. s\<lparr>KubernetesUpgradeStartTime := Some t\<rparr>)))"
      by (rule emits_patchStatus) (simp_all add: needsRollout_def phase)
  qed simp
  show ?thesis
    unfolding waitForKubernetesUpgrade_def
  proof (rule runs_bind, rule runs_emits [OF emits_getPatchPlan_noWrite], intro runs_sum runs_option)
    fix p :: "goerr + patchPlan" and es
    assume es: "list_all noWrite es"
    have h': "?J ([] @ es)" using es by (intro rollout_noWrite) simp_all
    show "runs ([] @ es) (retryOrFail E j j ''failed to get PatchPlan'' e) (\<lambda>_. ?J)" for e
      by (rule rollout_quiet [OF onlyFails_retryOrFail h'])
    show "runs ([] @ es) (checkKubernetes E j start plan) (\<lambda>_. ?J)" for start plan
      using h' by (rule checkKubernetes_justified)
    fix plan
    show "runs ([] @ es) (do {
               start \<leftarrow> timeNow E;
               r \<leftarrow> patchStatus E j (setStatus j (\<lambda>s. s\<lparr>KubernetesUpgradeStartTime := Some start\<rparr>));
               (case r of
                  Inl err \<Rightarrow> return (0, Some err)
                | Inr job \<Rightarrow>
                    checkKubernetes E job
                      (case KubernetesUpgradeStartTime (job_Status job) of Some t \<Rightarrow> t | None \<Rightarrow> start) plan)
             }) (\<lambda>_. ?J)"
    proof (rule runs_bind, rule runs_perform, rule runs_bind, rule runs_mono, rule clock)
      show "?J (([] @ es) @ [EvNow t])" for t
        using rollout_noWrite [OF h', of "[EvNow t]"] by (simp add: noWrite_def)
      fix t r h2
      assume "?J h2"
      then show "runs h2 (case r of
                  Inl err \<Rightarrow> return (0, Some err)
                | Inr job \<Rightarrow>
                    checkKubernetes E job
                      (case KubernetesUpgradeStartTime (job_Status job) of Some s \<Rightarrow> s | None \<Rightarrow> t) plan) (\<lambda>_. ?J)"
        by (intro runs_sum runs_return checkKubernetes_justified)
    qed
  qed
qed

section \<open>Eviction\<close>

text \<open>
  Pods are evicted only once the node is known to be cordoned, and deleted only when the plan read in
  this reconcile does not ask to respect disruption budgets.
\<close>

definition evictionReason :: "patchJob \<Rightarrow> event \<Rightarrow> event list \<Rightarrow> bool" where
  "evictionReason j e es =
     (case e of
        EvEvictPod p _ \<Rightarrow>
          (\<exists>n. EvGetNode (jobNode j) (Inr n) \<in> set es \<and> (Unschedulable n \<or> EvPatchNode n (cordoned n) None \<in> set es))
      | EvDeletePod p _ \<Rightarrow>
          (\<exists>plan. EvGetPlan (PatchPlanRef (job_Spec j)) (Inr plan) \<in> set es \<and> \<not> RespectPDBs (plan_Spec plan))
      | _ \<Rightarrow> True)"

lemma accumulates_evictionReason: "accumulates (evictionReason j)"
  unfolding accumulates_def
proof (intro allI impI)
  fix e es es'
  assume "evictionReason j e es" and "set es \<subseteq> set es'"
  then show "evictionReason j e es'"
    by (cases e; simp add: evictionReason_def; blast)
qed

definition noEviction :: "event \<Rightarrow> bool" where
  "noEviction e = (case e of EvEvictPod _ _ \<Rightarrow> False | EvDeletePod _ _ \<Rightarrow> False | _ \<Rightarrow> True)"

lemma evictionReason_none: "noEviction e \<Longrightarrow> evictionReason j e es"
  by (cases e) (simp_all add: noEviction_def evictionReason_def)

lemma eviction_quiet:
  "emits noEviction m \<Longrightarrow> justified (evictionReason j) h \<Longrightarrow> runs h m (\<lambda>_. justified (evictionReason j))"
  by (rule justified_emits [OF accumulates_evictionReason, where P = noEviction]) (auto intro: evictionReason_none)

lemma noEviction_storeStatus: "emits noEviction (storeStatus E original modified d)"
  unfolding storeStatus_def by (intro emits_rules emits_patchStatus) (simp_all add: noEviction_def)

lemma noEviction_failJob: "emits noEviction (failJob E original modified msg err)"
  unfolding failJob_def by (intro emits_rules emits_UncordonNode noEviction_storeStatus) (simp_all add: noEviction_def)

lemma noEviction_retryOrFail: "emits noEviction (retryOrFail E original modified msg err)"
  unfolding retryOrFail_def by (intro emits_rules noEviction_failJob) (simp_all add: noEviction_def)

lemma startDrain_justified: "runs [] (startDrain E j) (\<lambda>_. justified (evictionReason j))"
proof -
  let ?J = "justified (evictionReason j)"
  have calls: "?J es" if "list_all noEviction es" for es
    using that justified_extend [OF accumulates_evictionReason, of j "[]" es]
    by (auto simp: list_all_iff intro: evictionReason_none)
  have drain: "runs h (DrainNode E (jobNode j)
      \<lparr>opt_RespectPDBs = RespectPDBs (plan_Spec plan), EvictUnmanaged = eu, opt_Timeout = timeout\<rparr>) (\<lambda>_. ?J)"
    if J: "?J h" and plan: "EvGetPlan (PatchPlanRef (job_Spec j)) (Inr plan) \<in> set h"
      and node: "\<exists>n. EvGetNode (jobNode j) (Inr n) \<in> set h \<and> (Unschedulable n \<or> EvPatchNode n (cordoned n) None \<in> set h)"
      for h plan eu timeout
  proof (rule justified_emits [OF accumulates_evictionReason _ _ J])
    let ?P = "\<lambda>e. case e of EvDeletePod _ _ \<Rightarrow> \<not> RespectPDBs (plan_Spec plan) | _ \<Rightarrow> True"
    show "emits ?P (DrainNode E (jobNode j)
      \<lparr>opt_RespectPDBs = RespectPDBs (plan_Spec plan), EvictUnmanaged = eu, opt_Timeout = timeout\<rparr>)"
      by (intro emits_rules) simp_all
    show "evictionReason j e es'" if "?P e" "set h \<subseteq> set es'" for e es'
      using that plan node by (cases e) (auto simp: evictionReason_def)
  qed
  have cont: "runs h (case d of
        Inl err \<Rightarrow> if errIs err ErrUnmanagedPods then failJob E j job ''drain refused'' err
          else retryOrFail E j job ''failed to drain node'' err
      | Inr True \<Rightarrow> do {
          now \<leftarrow> timeNow E;
          (if now - start > opt_Timeout opts then
             failJob E j job ''drain timed out''
               (TextError (''pods still blocked by PodDisruptionBudgets after '' @ durString (opt_Timeout opts)))
           else storeStatus E j (setStatus job (\<lambda>s. s\<lparr>js_Message := ''drain blocked by PodDisruptionBudget, retrying''\<rparr>))
                  requeueForDrainCheck)
        }
      | Inr False \<Rightarrow> storeStatus E j (setStatus job
          (\<lambda>s. s\<lparr>js_Phase := PatchJobPhaseDraining, js_Message := ''draining node''\<rparr>)) requeueForDrainCheck) (\<lambda>_. ?J)"
    if "?J h" for h d job start opts
    using that
    by (intro eviction_quiet) (auto intro!: emits_rules noEviction_failJob noEviction_retryOrFail noEviction_storeStatus
          split: sum.splits bool.splits simp: noEviction_def)
  note go = runs_mono [OF drain cont]
  show ?thesis
    unfolding startDrain_def getPatchPlan_def CordonNode_def Let_def
    by (intro runs_rules go)
       (auto simp: cordoned_def noEviction_def intro!: calls eviction_quiet [OF noEviction_retryOrFail])
qed

section \<open>One upgrade call\<close>

definition isUpgrade :: "event \<Rightarrow> bool" where
  "isUpgrade e = (case e of EvTalosUpgrade _ _ _ \<Rightarrow> True | _ \<Rightarrow> False)"

definition noUpgrade :: "event \<Rightarrow> bool" where
  "noUpgrade e \<longleftrightarrow> \<not> isUpgrade e"

definition upgradeCalls :: "event list \<Rightarrow> nat" where
  "upgradeCalls es = length (filter isUpgrade es)"

lemma upgradeCalls_simps [simp]:
  "upgradeCalls [] = 0" "upgradeCalls (es @ es') = upgradeCalls es + upgradeCalls es'"
  "upgradeCalls (e # es) = (if isUpgrade e then Suc (upgradeCalls es) else upgradeCalls es)"
  by (simp_all add: upgradeCalls_def)

lemma noUpgrade_calls: "list_all noUpgrade es \<Longrightarrow> upgradeCalls es = 0"
  by (induction es) (simp_all add: noUpgrade_def)

lemma noWrite_upgrade: "noUpgrade (EvTalosClose r)" "noUpgrade (EvNow t)" "noUpgrade (EvTalosExtensions a re)"
  "noUpgrade (EvPatchJobStatus b m rj)"
  by (simp_all add: noUpgrade_def isUpgrade_def)

lemma noUpgrade_patchStatus: "emits noUpgrade (patchStatus E original modified)"
  by (rule emits_patchStatus) (simp_all add: noUpgrade_def isUpgrade_def)

lemma noUpgrade_failJob: "emits noUpgrade (failJob E original modified msg err)"
  unfolding failJob_def storeStatus_def
  by (intro emits_rules emits_UncordonNode noUpgrade_patchStatus) (simp_all add: noUpgrade_def isUpgrade_def)

lemma noUpgrade_retryOrFail: "emits noUpgrade (retryOrFail E original modified msg err)"
  unfolding retryOrFail_def
  by (intro emits_rules noUpgrade_failJob) (simp_all add: noUpgrade_def isUpgrade_def)

lemma noUpgrade_retryStatus: "emits noUpgrade (retryStatus E n original modified)"
  by (induction n; unfold retryStatus.simps; intro emits_rules noUpgrade_patchStatus)

definition atMostUpgrades :: "nat \<Rightarrow> ('s, 'a) io \<Rightarrow> bool" where
  "atMostUpgrades k m \<longleftrightarrow> (\<forall>h. runs h m (\<lambda>_ h'. upgradeCalls h' \<le> upgradeCalls h + k))"

lemma atMost_none: "emits noUpgrade m \<Longrightarrow> atMostUpgrades k m"
  unfolding atMostUpgrades_def by (auto intro!: runs_emits [of noUpgrade m] simp: noUpgrade_calls)

lemma atMost_bind:
  assumes "atMostUpgrades k m" and "\<And>a. atMostUpgrades l (f a)"
  shows "atMostUpgrades (k + l) (State_Monad.bind m f)"
  unfolding atMostUpgrades_def
proof (intro allI, rule runs_bind)
  fix h
  show "runs h m (\<lambda>a h'. runs h' (f a) (\<lambda>_ h''. upgradeCalls h'' \<le> upgradeCalls h + (k + l)))"
  proof (rule runs_mono)
    show "runs h m (\<lambda>_ h'. upgradeCalls h' \<le> upgradeCalls h + k)"
      using assms(1) by (simp add: atMostUpgrades_def)
    fix a h'
    assume le: "upgradeCalls h' \<le> upgradeCalls h + k"
    have "runs h' (f a) (\<lambda>_ h''. upgradeCalls h'' \<le> upgradeCalls h' + l)"
      using assms(2) by (simp add: atMostUpgrades_def)
    then show "runs h' (f a) (\<lambda>_ h''. upgradeCalls h'' \<le> upgradeCalls h + (k + l))"
      by (rule runs_mono) (use le in linarith)
  qed
qed

lemma atMost_quiet_bind:
  "emits noUpgrade m \<Longrightarrow> (\<And>a. atMostUpgrades l (f a)) \<Longrightarrow> atMostUpgrades l (State_Monad.bind m f)"
  using atMost_bind [of 0 m l f] by (simp add: atMost_none)

lemma atMost_Upgrade: "atMostUpgrades 1 (Upgrade E a img)"
  unfolding atMostUpgrades_def Upgrade_def by (intro allI runs_rules) (simp_all add: isUpgrade_def)

lemma atMost_cases:
  "(\<And>e. atMostUpgrades k (f e)) \<Longrightarrow> (\<And>a. atMostUpgrades k (g a)) \<Longrightarrow> atMostUpgrades k (case_sum f g x)"
  "atMostUpgrades k m \<Longrightarrow> (\<And>a. atMostUpgrades k (f' a)) \<Longrightarrow> atMostUpgrades k (case_option m f' y)"
  by (cases x, simp_all) (cases y, simp_all)

lemma atMost_withTalos:
  assumes "\<And>n a. atMostUpgrades k (fn n a)"
  shows "atMostUpgrades k (withTalos E original job fn)"
proof -
  have prep: "emits noUpgrade (getTalosConfig E job)" "\<And>c. emits noUpgrade (NewClient E c)"
    "emits noUpgrade (getNode E name)" "emits noUpgrade (do { Close E; return res })" for name and res :: ctrlResult
    by (intro emits_rules; simp add: noUpgrade_def isUpgrade_def)+
  have body: "atMostUpgrades k (do { nd \<leftarrow> getNode E (jobNode job);
      (case nd of
         Inl err \<Rightarrow> retryOrFail E original job ''failed to get node'' err
       | Inr n \<Rightarrow> (case GetNodeInternalIP n of
            Inl err \<Rightarrow> retryOrFail E original job ''failed to resolve node address'' err
          | Inr a \<Rightarrow> fn n a)) })"
    by (intro atMost_quiet_bind prep atMost_cases atMost_none noUpgrade_retryOrFail assms)
  note rest = atMost_bind [OF body atMost_none [OF prep(4), where k = 0], simplified add_0_right]
  show ?thesis
    unfolding withTalos_def
    by (rule atMost_quiet_bind, rule prep(1), rule atMost_cases(1), rule atMost_none, rule noUpgrade_retryOrFail,
        rule atMost_quiet_bind, rule prep(2), rule atMost_cases(2), rule rest, rule atMost_none, rule noUpgrade_failJob)
qed

lemma atMost_startUpgrade: "atMostUpgrades 1 (startUpgrade E j)"
proof -
  have sid: "emits noUpgrade (if b then GetSchematicID E a else return (Inr ''''))" for b a
    by (intro emits_rules) (simp add: noUpgrade_def isUpgrade_def)
  have now: "emits noUpgrade (timeNow E)" by (intro emits_rules) (simp add: noUpgrade_def isUpgrade_def)
  have after: "atMostUpgrades 0 (case u of
       Some err \<Rightarrow> retryOrFail E j j ''failed to start upgrade'' err
     | None \<Rightarrow> do {
         now \<leftarrow> timeNow E;
         r \<leftarrow> retryStatus E (retrySteps E) j (f now);
         (case r of Inl err \<Rightarrow> return (0, Some err) | Inr _ \<Rightarrow> return (d, None)) })" for u f d
    by (intro atMost_quiet_bind now atMost_cases noUpgrade_retryStatus atMost_none noUpgrade_retryOrFail emits_rules)
  have call: "atMostUpgrades 1 (do { u \<leftarrow> Upgrade E a img; (case u of
       Some err \<Rightarrow> retryOrFail E j j ''failed to start upgrade'' err
     | None \<Rightarrow> do {
         now \<leftarrow> timeNow E;
         r \<leftarrow> retryStatus E (retrySteps E) j (f now);
         (case r of Inl err \<Rightarrow> return (0, Some err) | Inr _ \<Rightarrow> return (d, None)) }) })" for a img f d
    using atMost_bind [OF atMost_Upgrade after] by simp
  show ?thesis
    unfolding startUpgrade_def Let_def
    by (intro atMost_withTalos atMost_quiet_bind sid atMost_cases call atMost_none noUpgrade_retryOrFail noUpgrade_failJob)
qed

lemma upgradeCalls_reconcilePhase:
  "runs [] (reconcilePhase E j) (\<lambda>_ es. upgradeCalls es \<le> (if jobPhase j = PatchJobPhaseUpgrading then 1 else 0))"
proof (cases "jobPhase j = PatchJobPhaseUpgrading")
  case True
  have "runs [] (startUpgrade E j) (\<lambda>_ h'. upgradeCalls h' \<le> upgradeCalls [] + 1)"
    using atMost_startUpgrade unfolding atMostUpgrades_def by blast
  then show ?thesis using True by (simp add: reconcilePhase_def)
next
  case False
  have "noUpgrade e" if "jobEvent E j e" for e
    using that False by (cases e) (simp_all add: noUpgrade_def isUpgrade_def jobEvent_def)
  then have "emits noUpgrade (reconcilePhase E j)"
    by (rule emits_mono [OF emits_reconcilePhase])
  then show ?thesis using False by (auto intro!: runs_emits simp: noUpgrade_calls)
qed

section \<open>Patience with errors\<close>

text \<open>
  The first error of an unbroken run is remembered; until \<open>transientErrorDeadline\<close> has passed since
  then, an error changes nothing but is handed back for a retry. A reconcile without an error forgets.
\<close>

lemma retryOrFail_patience:
  fixes E :: "('v, 's) env" and w :: "'s world" and modified :: patchJob
  defines "now \<equiv> fst (op_now E (server w))"
    and "now2 \<equiv> fst (op_now E (snd (op_now E (server w))))"
    and "since \<equiv> (case transientSince w (job_Name modified) of Some t \<Rightarrow> t | None \<Rightarrow> fst (op_now E (server w)))"
  shows "if now2 - since > transientErrorDeadline then
           run_state (retryOrFail E original modified msg err) w =
           run_state (failJob E original modified msg err)
             (w\<lparr>server := snd (op_now E (snd (op_now E (server w)))), calls := calls w @ [EvNow now, EvNow now2],
                transientSince := (transientSince w)(job_Name modified \<mapsto> since)\<rparr>)
         else
           run_state (retryOrFail E original modified msg err) w =
           ((0, Some (wrapErr (msg @ '' (will retry)'') err)),
            w\<lparr>server := snd (op_now E (snd (op_now E (server w)))), calls := calls w @ [EvNow now, EvNow now2],
                transientSince := (transientSince w)(job_Name modified \<mapsto> since)\<rparr>)"
  unfolding retryOrFail_def now_def now2_def since_def
  by (cases w) (auto simp: loadOrStoreSince_def fun_upd_idem split: option.splits)

lemma ReconcileJob_forgets:
  "case snd (fst (run_state (ReconcileJob E name) w)) of
     None \<Rightarrow> transientSince (snd (run_state (ReconcileJob E name) w)) name = None
   | Some _ \<Rightarrow> True"
  unfolding ReconcileJob_def
  by (auto simp: deleteSince_def split: sum.splits prod.splits option.splits)

end
