(* ===== verification/JobProperties.thy ===== *)
theory JobProperties imports JobTraces Fixture begin

text \<open>
  The properties of the job controller and of what it stands on (draining, the Talos client, the
  credentials). \<open>runs []\<close> quantifies over every environment state and every answer to every call;
  the history a property speaks of is the one of a single reconcile.
\<close>

section \<open>Concrete inputs\<close>

definition fixJob :: "patchJobPhase \<Rightarrow> patchJob" where
  "fixJob phase = \<lparr>job_Name = ''plan-c1'', job_Labels = [], job_DeletionTimestamp = None, job_Owner = Some ''plan'',
     job_Spec = \<lparr>NodeName = ''c1'', job_Target = fixTarget, PatchPlanRef = ''plan'', job_Group = GroupControlPlane\<rparr>,
     job_Status = \<lparr>js_Phase = phase, js_Message = '''', js_StartTime = None, js_CompletionTime = None,
       DrainStartTime = None, RebootStartTime = None, KubernetesUpgradeStartTime = None, PreUpgradeBootID = '''',
       CurrentTalosVersion = '''', TargetTalosVersion = ''v1.13.0'', CurrentKubernetesVersion = '''',
       TargetKubernetesVersion = ''''\<rparr>\<rparr>"

lemma jobPhase_fixJob [simp]: "jobPhase (fixJob p) = p"
  by (simp add: fixJob_def)

section \<open>What a reconcile may do\<close>

text \<open>
  C23: A reconcile of a job reads the job first. If it is gone or terminal nothing else happens. If it
  is not, every further call is one its phase allows: status writes follow the phase machine
  \<open>jobStep\<close>; Secrets are read in the operator's namespace only; an upgrade is requested in phase
  Upgrading only, with the image built from the target; machine configuration is patched in phase
  UpgradingKubernetes only and without reboot; pods are evicted in phase Pending only; nodes are only
  cordoned (when schedulable, in phase Pending) or released (when cordoned by the operator); and no
  other object is created, changed or deleted.
\<close>

theorem job_reconcile_footprint:
  "runs [] (ReconcileJob E name) (\<lambda>_ es. reconcileTrace E name es)"
  by (rule ReconcileJob_trace)

text \<open>
  C27: No unfinished job is forgotten: a reconcile returns an error (which controller-runtime retries),
  or asks to be run again after between a millisecond and a minute, or has just stored a terminal
  phase. A missing or terminal job ends without a requeue.
\<close>

theorem unfinished_job_is_revisited:
  "runs [] (ReconcileJob E name) (\<lambda>res es. case es of
      EvGetJob _ (Inl e) # _ \<Rightarrow> res = (if isNotFound e then (0, None) else (0, Some e))
    | EvGetJob _ (Inr j) # _ \<Rightarrow> (if IsTerminal (jobPhase j) then res = (0, None) else goodResult res es)
    | _ \<Rightarrow> False)"
proof (rule runs_ReconcileJob)
  fix j
  assume j: "\<not> IsTerminal (jobPhase j)"
  have "runs [EvGetJob name (Inr j)] (reconcilePhase E j) goodResult"
    by (rule always_runs [OF good_reconcilePhase [OF j]])
  from runs_conj [OF emits_runs [OF emits_reconcilePhase] this]
  show "runs [EvGetJob name (Inr j)] (reconcilePhase E j) (\<lambda>res es. case es of
      EvGetJob _ (Inl e) # _ \<Rightarrow> res = (if isNotFound e then (0, None) else (0, Some e))
    | EvGetJob _ (Inr j) # _ \<Rightarrow> (if IsTerminal (jobPhase j) then res = (0, None) else goodResult res es)
    | _ \<Rightarrow> False)"
    by (rule runs_mono) (use j in auto)
qed simp_all

text \<open>
  An upgrade of the operating system is requested at most once per reconcile, never outside phase
  Upgrading, and always with the installer image built from the job's target, preserving the
  machine's data and neither staged nor forced.
\<close>

theorem upgrade_requested_once:
  "runs [] (reconcilePhase E j) (\<lambda>_ es.
     upgradeCalls es \<le> (if jobPhase j = PatchJobPhaseUpgrading then 1 else 0) \<and>
     list_all (\<lambda>e. case e of
         EvTalosUpgrade _ opts _ \<Rightarrow>
           UpgradePreserve opts \<and> \<not> UpgradeStage opts \<and> \<not> UpgradeForce opts \<and>
           (\<exists>sid. BuildInstallerImage (jobTarget j) sid = Inr (UpgradeImage opts))
       | _ \<Rightarrow> True) es)"
proof -
  have "emits (\<lambda>e. case e of
         EvTalosUpgrade _ opts _ \<Rightarrow>
           UpgradePreserve opts \<and> \<not> UpgradeStage opts \<and> \<not> UpgradeForce opts \<and>
           (\<exists>sid. BuildInstallerImage (jobTarget j) sid = Inr (UpgradeImage opts))
       | _ \<Rightarrow> True) (reconcilePhase E j)"
    by (rule emits_mono [OF emits_reconcilePhase]) (auto simp: jobEvent_def upgradeRequest_def split: event.splits)
  from runs_conj [OF upgradeCalls_reconcilePhase emits_runs [OF this]]
  show ?thesis by (rule runs_mono) auto
qed

text \<open>
  C11: After a reboot a node counts as upgraded (the job is completed or goes on to Kubernetes) only when
  the same reconcile has read the node with a new boot ID (if the old one is known) and ready, the
  Talos API of that node has answered with the target version, and on a control plane node the three
  static pods were listed ready.
\<close>

theorem reboot_completes_only_when_verified:
  assumes "jobPhase j = PatchJobPhaseRebooting"
  shows "runs [] (reconcilePhase E j) (\<lambda>_. justified (needsReboot j))"
  using waitForReboot_justified [OF assms] assms by (simp add: reconcilePhase_def)

theorem reboot_completes_only_when_verified_witness:
  "runs [] (reconcilePhase fixEnv (fixJob PatchJobPhaseRebooting)) (\<lambda>_. justified (needsReboot (fixJob PatchJobPhaseRebooting)))"
  by (rule reboot_completes_only_when_verified) simp

text \<open>
  C34: A Kubernetes upgrade is completed only when the same reconcile has read the node with the target
  kubelet version and, on a control plane node, the three static pods with the target's images and ready.
\<close>

theorem rollout_completes_only_when_verified:
  assumes "jobPhase j = PatchJobPhaseValidatingKubernetes"
  shows "runs [] (reconcilePhase E j) (\<lambda>_. justified needsRollout)"
  using waitForKubernetesUpgrade_justified [OF assms] assms by (simp add: reconcilePhase_def)

theorem rollout_completes_only_when_verified_witness:
  "runs [] (reconcilePhase fixEnv (fixJob PatchJobPhaseValidatingKubernetes)) (\<lambda>_. justified needsRollout)"
  by (rule rollout_completes_only_when_verified) simp

section \<open>Draining\<close>

text \<open>
  C30: Before a pod is evicted the node was read cordoned or its cordon was accepted in the same
  reconcile, and a pod is deleted outright only when the plan read in that reconcile does not ask to
  respect disruption budgets.
\<close>

theorem eviction_follows_cordon:
  "runs [] (startDrain E j) (\<lambda>_. justified (evictionReason j))"
  by (rule startDrain_justified)


text \<open>
  The result of a drain tells the truth about the calls made: success means that every listed pod
  that blocks the drain had its eviction accepted, was gone, or was deleted after a refusal;
  \<open>blocked\<close> means that a budget to be respected refused an eviction; and a pod is deleted only after
  its eviction was refused.
\<close>

theorem drain_result_is_true:
  "runs [] (DrainNode E name opts) (drainOutcome name opts)"
  by (rule DrainNode_outcome)

text \<open>
  C35: Cordoning and then releasing a node gives back the node as it was, for every node the operator
  does not own already: a node cordoned by an administrator stays cordoned, a schedulable one is
  schedulable again without the ownership annotation.
\<close>

theorem uncordon_undoes_cordon:
  assumes "nodeStore E lookup" and "lookup (server w) name = Some n" and "node_Name n = name"
    and "map_of (node_Annotations n) CordonedByAnnotation = None"
  shows "lookup (server (snd (run_state (do { CordonNode E name; UncordonNode E name }) w))) name = Some n"
  using assms by (rule cordon_uncordon)

theorem uncordon_undoes_cordon_witness:
  "server (snd (run_state (do { CordonNode fixEnv ''c1''; UncordonNode fixEnv ''c1'' })
     (fixWorld\<lparr>server := [''c1'' \<mapsto> fixNode ''c1'' True]\<rparr>))) ''c1'' = Some (fixNode ''c1'' True)"
proof -
  have "nodeStore fixEnv (\<lambda>s. s)" by (auto simp: nodeStore_def fixEnv_def klib.defs split: option.splits)
  then show ?thesis
    by (rule uncordon_undoes_cordon [where lookup = "\<lambda>s. s"]) (simp_all add: fixNode_def)
qed

section \<open>Errors\<close>


text \<open>
  C31: A downgrade of Talos that the target does not explicitly allow, and any downgrade of Kubernetes,
  is refused when the job is initialised: no status other than Failed is written and no upgrade starts.
\<close>

theorem downgrade_is_refused:
  assumes "(needsTalosUpgrade (jobTarget job) current sid \<and> \<not> AllowTalosDowngrade (jobTarget job) \<and>
            isDowngrade E current (TalosVersion (jobTarget job))) \<or>
           (KubernetesVersion (jobTarget job) \<noteq> '''' \<and>
            isDowngrade E (KubeletVersion n) (KubernetesVersion (jobTarget job)))"
  shows "emits (\<lambda>e. onlyFails e \<and> \<not> isUpgrade e) (decideInit E original job n current sid)"
proof -
  have "emits (\<lambda>e. onlyFails e \<and> \<not> isUpgrade e) (failJob E original m msg err)" for m msg err
    unfolding failJob_def storeStatus_def
    by (intro emits_rules emits_patchStatus emits_UncordonNode) (simp_all add: isUpgrade_def)
  note fail = this
  have retry: "emits (\<lambda>e. onlyFails e \<and> \<not> isUpgrade e) (retryOrFail E original m msg err)" for m msg err
    unfolding retryOrFail_def by (intro emits_rules fail) (simp_all add: isUpgrade_def)
  have pods: "emits (\<lambda>e. onlyFails e \<and> \<not> isUpgrade e) (if b then controlPlaneStaticPodsReady E name v else return r)" for b name v r
    by (intro emits_rules) (simp_all add: isUpgrade_def)
  show ?thesis
    unfolding decideInit_def Let_def
    using assms by (intro emits_bind pods emits_sum retry) (auto intro: fail)
qed

theorem downgrade_is_refused_witness:
  "emits (\<lambda>e. onlyFails e \<and> \<not> isUpgrade e)
     (decideInit fixEnv (fixJob PatchJobPhaseNone) (fixJob PatchJobPhaseNone) (fixNode ''c1'' True) ''v1.14.0'' '''')"
proof (rule downgrade_is_refused)
  have "needsTalosUpgrade fixTarget ''v1.14.0'' ''''" by code_simp
  moreover have "isDowngrade fixEnv ''v1.14.0'' ''v1.13.0''" by code_simp
  ultimately show "(needsTalosUpgrade (jobTarget (fixJob PatchJobPhaseNone)) ''v1.14.0'' '''' \<and>
      \<not> AllowTalosDowngrade (jobTarget (fixJob PatchJobPhaseNone)) \<and>
      isDowngrade fixEnv ''v1.14.0'' (TalosVersion (jobTarget (fixJob PatchJobPhaseNone)))) \<or>
     (KubernetesVersion (jobTarget (fixJob PatchJobPhaseNone)) \<noteq> '''' \<and>
      isDowngrade fixEnv (KubeletVersion (fixNode ''c1'' True)) (KubernetesVersion (jobTarget (fixJob PatchJobPhaseNone))))"
    by (simp add: fixJob_def jobTarget_def fixTarget_def)
qed

section \<open>Credentials\<close>

text \<open>
  Talos credentials come from a complete Secret in the operator's own namespace: no other Secret is
  read, and a resolved configuration carries the three entries of the Secret the plan names.
\<close>

theorem credentials_from_operator_namespace:
  "runs [] (resolveTalosConfig E plan) (\<lambda>r es.
     list_all (\<lambda>e. case e of EvGetSecret ns _ _ \<Rightarrow> ns = operatorNamespace E | _ \<Rightarrow> False) es \<and>
     (case r of
        Inl _ \<Rightarrow> True
      | Inr cfg \<Rightarrow> (\<exists>ref m. SecretRef (TalosConfig (plan_Spec plan)) = Some ref \<and>
          es = [EvGetSecret (operatorNamespace E) (secret_Name ref) (Inr m)] \<and>
          map_of m ''ca.crt'' = Some (CACert cfg) \<and> map_of m ''tls.crt'' = Some (ClientCert cfg) \<and>
          map_of m ''tls.key'' = Some (ClientKey cfg))))"
proof -
  have "emits (\<lambda>e. case e of EvGetSecret ns _ _ \<Rightarrow> ns = operatorNamespace E | _ \<Rightarrow> False) (resolveTalosConfig E plan)"
    by (intro emits_rules) simp
  from runs_conj [OF emits_runs [OF this] resolveTalosConfig_sound]
  show ?thesis by (rule runs_mono) (auto split: sum.splits)
qed

end
