(* ===== verification/PlanState.thy ===== *)
theory PlanState imports PatchJob Scheduling begin

text \<open>
  What the parts of the plan controller share: the two ways a Go function hands an error on, the
  status writes of a plan, the jobs by node, the leases per group, and the counting of
  \<open>controllers/patchplan_controller.go\<close>. A function that changes the plan in memory returns the
  changed plan; after an error its caller returns, so the plan of a failed write is not kept.
\<close>

section \<open>Handing errors on\<close>

text \<open>\<open>if err != nil { return err }\<close> in a function with an error result, and in a reconcile.\<close>

definition ifOk :: "('s, goerr + 'a) io \<Rightarrow> ('a \<Rightarrow> ('s, goerr + 'b) io) \<Rightarrow> ('s, goerr + 'b) io" where
  "ifOk m f = do { r \<leftarrow> m; (case r of Inl err \<Rightarrow> return (Inl err) | Inr a \<Rightarrow> f a) }"

definition orReturn :: "('s, goerr + 'a) io \<Rightarrow> ('a \<Rightarrow> ('s, ctrlResult) io) \<Rightarrow> ('s, ctrlResult) io" where
  "orReturn m f = do { r \<leftarrow> m; (case r of Inl err \<Rightarrow> return (0, Some err) | Inr a \<Rightarrow> f a) }"

definition ok :: "'a \<Rightarrow> ('s, goerr + 'a) io" where
  "ok a = return (Inr a)"

lemma emits_ifOk [emits_rules]: "emits P m \<Longrightarrow> (\<And>a. emits P (f a)) \<Longrightarrow> emits P (ifOk m f)"
  unfolding ifOk_def by (intro emits_rules)

lemma emits_orReturn [emits_rules]: "emits P m \<Longrightarrow> (\<And>a. emits P (f a)) \<Longrightarrow> emits P (orReturn m f)"
  unfolding orReturn_def by (intro emits_rules)

lemma emits_ok [emits_rules]: "emits P (ok a)"
  unfolding ok_def by (rule emits_return)

lemma runs_ok [runs_rules]: "Q (Inr a) h \<Longrightarrow> runs h (ok a) Q"
  unfolding ok_def by (rule runs_return)

text \<open>The continuation only has to be looked at when the first part succeeds.\<close>

lemma runs_ifOk [runs_rules]:
  assumes "runs h m (\<lambda>r h'. case r of Inl e \<Rightarrow> Q (Inl e) h' | Inr a \<Rightarrow> runs h' (f a) Q)"
  shows "runs h (ifOk m f) Q"
  unfolding ifOk_def
  by (rule runs_bind, rule runs_mono [OF assms]) (auto intro!: runs_rules split: sum.splits)

lemma runs_orReturn [runs_rules]:
  assumes "runs h m (\<lambda>r h'. case r of Inl e \<Rightarrow> Q (0, Some e) h' | Inr a \<Rightarrow> runs h' (f a) Q)"
  shows "runs h (orReturn m f) Q"
  unfolding orReturn_def
  by (rule runs_bind, rule runs_mono [OF assms]) (auto intro!: runs_rules split: sum.splits)

section \<open>Requeue intervals\<close>

definition requeueWhenAtMaxConcurrency :: duration where "requeueWhenAtMaxConcurrency = 5 * second"
definition requeueForNextNode :: duration where "requeueForNextNode = 10 * second"
definition requeueWhenJobsInProgress :: duration where "requeueWhenJobsInProgress = 30 * second"
definition requeueWhenPaused :: duration where "requeueWhenPaused = minute"
definition requeueWhenPreflightFailed :: duration where "requeueWhenPreflightFailed = minute"
definition requeueWhenRetentionBlocked :: duration where "requeueWhenRetentionBlocked = hour"

lemmas plan_requeue_defs = requeueWhenAtMaxConcurrency_def requeueForNextNode_def
  requeueWhenJobsInProgress_def requeueWhenPaused_def requeueWhenPreflightFailed_def
  requeueWhenRetentionBlocked_def duration_units

section \<open>Status writes\<close>

definition withStatus :: "patchPlan \<Rightarrow> (planStatus \<Rightarrow> planStatus) \<Rightarrow> patchPlan" where
  "withStatus p f = p\<lparr>plan_Status := f (plan_Status p)\<rparr>"

definition updateStatus :: "('v, 's) env \<Rightarrow> patchPlan \<Rightarrow> (planStatus \<Rightarrow> planStatus) \<Rightarrow> ('s, goerr + patchPlan) io" where
  "updateStatus E plan mutate = patchPlanStatus E plan (withStatus plan mutate)"

definition setMessage :: "('v, 's) env \<Rightarrow> patchPlan \<Rightarrow> string \<Rightarrow> ('s, goerr + patchPlan) io" where
  "setMessage E plan msg =
     (if ps_Message (plan_Status plan) = msg then ok plan
      else updateStatus E plan (\<lambda>s. s\<lparr>ps_Message := msg\<rparr>))"

lemma withStatus_simps [simp]:
  "plan_Status (withStatus p f) = f (plan_Status p)" "plan_Spec (withStatus p f) = plan_Spec p"
  "plan_Name (withStatus p f) = plan_Name p" "plan_Generation (withStatus p f) = plan_Generation p"
  by (simp_all add: withStatus_def)

lemma emits_updateStatus [emits_rules]:
  "(\<And>r. P (EvPatchPlanStatus plan (withStatus plan mutate) r)) \<Longrightarrow> emits P (updateStatus E plan mutate)"
  unfolding updateStatus_def by (intro emits_rules)

lemma runs_updateStatus [runs_rules]:
  "(\<And>r. Q r (h @ [EvPatchPlanStatus plan (withStatus plan mutate) r])) \<Longrightarrow> runs h (updateStatus E plan mutate) Q"
  unfolding updateStatus_def by (intro runs_rules)

lemma emits_setMessage [emits_rules]:
  "(\<And>r. P (EvPatchPlanStatus plan (withStatus plan (\<lambda>s. s\<lparr>ps_Message := msg\<rparr>)) r)) \<Longrightarrow> emits P (setMessage E plan msg)"
  unfolding setMessage_def by (intro emits_rules)

section \<open>Jobs by node and leases per group\<close>

type_synonym jobMap = "(string \<times> patchJob) list"
type_synonym counts = "(string \<times> int) list"

text \<open>Of several jobs for one node the last one listed is kept.\<close>

definition indexJobs :: "patchJob list \<Rightarrow> jobMap" where
  "indexJobs jobs = foldl (\<lambda>m j. AList.update (jobNode j) j m) [] jobs"

definition countOf :: "counts \<Rightarrow> string \<Rightarrow> int" where
  "countOf m g = (case map_of m g of Some n \<Rightarrow> n | None \<Rightarrow> 0)"

definition increment :: "string \<Rightarrow> counts \<Rightarrow> counts" where
  "increment g m = AList.update g (countOf m g + 1) m"

definition listPatchJobs :: "('v, 's) env \<Rightarrow> string \<Rightarrow> ('s, goerr + patchJob list) io" where
  "listPatchJobs E planName = listJobs E planName"

lemma countOf_increment: "countOf (increment g m) g' = (if g = g' then countOf m g + 1 else countOf m g')"
  by (simp add: countOf_def increment_def update_conv')

lemma countOf_Nil [simp]: "countOf [] g = 0"
  by (simp add: countOf_def)

lemma indexJobs_map_of_aux:
  "map_of (foldl (\<lambda>m j. AList.update (jobNode j) j m) m jobs) n =
     (case List.find (\<lambda>j. jobNode j = n) (rev jobs) of Some j \<Rightarrow> Some j | None \<Rightarrow> map_of m n)"
proof (induction jobs arbitrary: m)
  case Nil
  then show ?case by simp
next
  case (Cons j js)
  have find_append: "List.find P (xs @ ys) = (case List.find P xs of Some x \<Rightarrow> Some x | None \<Rightarrow> List.find P ys)" for P xs ys
    by (induction xs) auto
  show ?case by (simp add: Cons find_append update_conv' split: option.splits)
qed

lemma indexJobs_map_of:
  "map_of (indexJobs jobs) n = List.find (\<lambda>j. jobNode j = n) (rev jobs)"
  by (simp add: indexJobs_def indexJobs_map_of_aux split: option.splits)

lemma indexJobs_None: "map_of (indexJobs jobs) n = None \<longleftrightarrow> n \<notin> jobNode ` set jobs"
  by (auto simp: indexJobs_map_of find_None_iff)

lemma indexJobs_Some: "map_of (indexJobs jobs) n = Some j \<Longrightarrow> j \<in> set jobs \<and> jobNode j = n"
  by (auto simp: indexJobs_map_of find_Some_iff in_set_conv_nth) (metis length_rev nth_mem set_rev in_set_conv_nth)

lemma indexJobs_empty: "indexJobs jobs = [] \<longleftrightarrow> jobs = []"
proof
  assume "indexJobs jobs = []"
  then have "map_of (indexJobs jobs) n = None" for n by simp
  then have "n \<notin> jobNode ` set jobs" for n using indexJobs_None by metis
  then show "jobs = []" by (cases jobs) auto
qed (simp add: indexJobs_def)

definition allNodesCompleted :: "node list \<Rightarrow> jobMap \<Rightarrow> bool" where
  "allNodesCompleted nodes jobsByNode =
     list_all (\<lambda>n. case map_of jobsByNode (node_Name n) of
         None \<Rightarrow> False | Some job \<Rightarrow> jobPhase job = PatchJobPhaseCompleted) nodes"

section \<open>Counting\<close>

record jobCounts =
  jc_Completed :: int
  jc_Failed :: int
  jc_Running :: int
  jc_Pending :: int

text \<open>\<open>newFailures\<close>: failed nodes not accepted yet by resuming the plan\<close>

definition newFailures :: "patchPlan \<Rightarrow> int \<Rightarrow> int" where
  "newFailures plan failed = max (failed - FailuresAcknowledged (plan_Status plan)) 0"

definition countNode :: "jobMap \<Rightarrow> groupStatus \<Rightarrow> node \<Rightarrow> groupStatus" where
  "countNode jobsByNode gs n =
     (case map_of jobsByNode (node_Name n) of
        None \<Rightarrow> gs\<lparr>gs_Pending := gs_Pending gs + 1\<rparr>
      | Some job \<Rightarrow>
          if jobPhase job = PatchJobPhaseCompleted then gs\<lparr>gs_Completed := gs_Completed gs + 1\<rparr>
          else if jobPhase job = PatchJobPhaseFailed then gs\<lparr>gs_Failed := gs_Failed gs + 1\<rparr>
          else gs\<lparr>gs_Running := gs_Running gs + 1\<rparr>)"

definition summarizeGroup :: "jobMap \<Rightarrow> counts \<Rightarrow> rolloutGroup \<Rightarrow> groupStatus" where
  "summarizeGroup jobsByNode active g =
     foldl (countNode jobsByNode)
       \<lparr>gs_Name = grp_Name g, gs_Concurrency = grp_Concurrency g, gs_Active = countOf active (grp_Name g),
        gs_Total = int (length (grp_Nodes g)), gs_Pending = 0, gs_Running = 0, gs_Completed = 0, gs_Failed = 0\<rparr>
       (grp_Nodes g)"

definition addCounts :: "jobCounts \<Rightarrow> groupStatus \<Rightarrow> jobCounts" where
  "addCounts c gs =
     \<lparr>jc_Completed = jc_Completed c + gs_Completed gs, jc_Failed = jc_Failed c + gs_Failed gs,
      jc_Running = jc_Running c + gs_Running gs, jc_Pending = jc_Pending c + gs_Pending gs\<rparr>"

definition summarize :: "patchPlan \<Rightarrow> rollout \<Rightarrow> jobMap \<Rightarrow> counts \<Rightarrow> jobCounts \<times> patchPlan" where
  "summarize plan r jobsByNode active =
     (let groups = map (summarizeGroup jobsByNode active) (rollout_Groups r);
          total = foldl addCounts \<lparr>jc_Completed = 0, jc_Failed = 0, jc_Running = 0, jc_Pending = 0\<rparr> groups
      in (total, withStatus plan (\<lambda>s. s\<lparr>TotalNodes := int (Total r), CompletedNodes := jc_Completed total,
            FailedNodes := jc_Failed total, RunningNodes := jc_Running total,
            PendingNodes := jc_Pending total, ps_Groups := groups\<rparr>)))"

end
