(* ===== verification/Leases.thy ===== *)
theory Leases imports PlanState begin

text \<open>
  \<open>controllers/leases.go\<close>: one Lease per unfinished job is the concurrency slot it occupies.
  \<open>syncLeases\<close> makes the Leases of a plan mirror its jobs and counts the held ones per group.
\<close>

definition groupOfJob :: "patchJob \<Rightarrow> rollout \<Rightarrow> string" where
  "groupOfJob job r =
     (if job_Group (job_Spec job) \<noteq> '''' then job_Group (job_Spec job) else fst (GroupOf r (jobNode job)))"

definition leaseOf :: "string \<Rightarrow> patchJob \<Rightarrow> string \<Rightarrow> time \<Rightarrow> lease" where
  "leaseOf ns job grp acquired =
     \<lparr>lease_Name = job_Name job, lease_Namespace = ns,
      lease_Labels = [(LabelPatchPlan, PatchPlanRef (job_Spec job)), (LabelGroup, grp), (LabelNode, jobNode job)],
      HolderIdentity = job_Name job, AcquireTime = acquired, lease_Owner = None\<rparr>"

definition acquireLease :: "('v, 's) env \<Rightarrow> patchJob \<Rightarrow> string \<Rightarrow> ('s, goerr + unit) io" where
  "acquireLease E job grp = do {
     acquired \<leftarrow> timeNow E;
     (case setOwnerOfLease E job (leaseOf (operatorNamespace E) job grp acquired) of
        Inl err \<Rightarrow> return (Inl (wrapErr (''failed to set owner reference on lease '' @ job_Name job) err))
      | Inr l \<Rightarrow> do {
          c \<leftarrow> createLease E l;
          (case c of
             None \<Rightarrow> ok ()
           | Some err \<Rightarrow>
               if isAlreadyExists err then ok ()
               else return (Inl (wrapErr (''failed to create lease '' @ lease_Name l) err)))
        })
   }"

text \<open>\<open>jobsByName\<close>, and the two loops of \<open>syncLeases\<close>: over the Leases, then over the jobs.\<close>

definition indexByName :: "patchJob list \<Rightarrow> jobMap" where
  "indexByName jobs = foldl (\<lambda>m j. AList.update (job_Name j) j m) [] jobs"

fun releaseLeases ::
  "('v, 's) env \<Rightarrow> rollout \<Rightarrow> jobMap \<Rightarrow> counts \<Rightarrow> string list \<Rightarrow> lease list \<Rightarrow> ('s, goerr + counts \<times> string list) io"
where
  "releaseLeases E r jobsByName active held [] = ok (active, held)"
| "releaseLeases E r jobsByName active held (l # ls) =
     (case map_of jobsByName (lease_Name l) of
        None \<Rightarrow> releaseLeases E r jobsByName active held ls
      | Some job \<Rightarrow>
          if IsTerminal (jobPhase job) then do {
            d \<leftarrow> deleteLease E l;
            (case d of
               None \<Rightarrow> releaseLeases E r jobsByName active held ls
             | Some err \<Rightarrow>
                 if isNotFound err then releaseLeases E r jobsByName active held ls
                 else return (Inl (wrapErr (''failed to release lease '' @ lease_Name l) err)))
          }
          else releaseLeases E r jobsByName (increment (groupOfJob job r) active) (lease_Name l # held) ls)"

fun healLeases ::
  "('v, 's) env \<Rightarrow> rollout \<Rightarrow> string list \<Rightarrow> counts \<Rightarrow> patchJob list \<Rightarrow> ('s, goerr + counts) io"
where
  "healLeases E r held active [] = ok active"
| "healLeases E r held active (job # jobs) =
     (if IsTerminal (jobPhase job) \<or> job_DeletionTimestamp job \<noteq> None then healLeases E r held active jobs
      else if job_Name job \<in> set held then healLeases E r held active jobs
      else ifOk (acquireLease E job (groupOfJob job r))
             (\<lambda>_. healLeases E r held (increment (groupOfJob job r) active) jobs))"

definition syncLeases :: "('v, 's) env \<Rightarrow> patchPlan \<Rightarrow> rollout \<Rightarrow> patchJob list \<Rightarrow> ('s, goerr + counts) io" where
  "syncLeases E plan r jobs = do {
     ls \<leftarrow> listLeases E (operatorNamespace E) (plan_Name plan);
     (case ls of
        Inl err \<Rightarrow> return (Inl (wrapErr ''failed to list leases'' err))
      | Inr leases \<Rightarrow>
          ifOk (releaseLeases E r (indexByName jobs) [] [] leases)
            (\<lambda>(active, held). healLeases E r held active jobs))
   }"

section \<open>Calls\<close>

text \<open>A Lease is only released when its job is among the listed ones and terminal.\<close>

definition releasable :: "jobMap \<Rightarrow> lease \<Rightarrow> bool" where
  "releasable jobsByName l =
     (case map_of jobsByName (lease_Name l) of None \<Rightarrow> False | Some job \<Rightarrow> IsTerminal (jobPhase job))"

lemma emits_acquireLease [emits_rules]:
  assumes "\<And>t. P (EvNow t)"
    and "\<And>t l r. setOwnerOfLease E job (leaseOf (operatorNamespace E) job grp t) = Inr l \<Longrightarrow> P (EvCreateLease l r)"
  shows "emits P (acquireLease E job grp)"
  unfolding acquireLease_def using assms by (intro emits_rules)

lemma emits_releaseLeases [emits_rules]:
  assumes "\<And>l x. releasable jobsByName l \<Longrightarrow> P (EvDeleteLease l x)"
  shows "emits P (releaseLeases E r jobsByName active held ls)"
proof (induction ls arbitrary: active held)
  case Nil
  show ?case by (simp add: emits_ok)
next
  case (Cons l ls)
  then show ?case
    by (auto intro!: emits_rules assms Cons.IH simp: releasable_def split: option.splits)
qed

lemma emits_healLeases [emits_rules]:
  assumes "\<And>t. P (EvNow t)"
    and "\<And>job t l x. job \<in> set jobs \<Longrightarrow> \<not> IsTerminal (jobPhase job) \<Longrightarrow> job_DeletionTimestamp job = None \<Longrightarrow>
      setOwnerOfLease E job (leaseOf (operatorNamespace E) job (groupOfJob job r) t) = Inr l \<Longrightarrow> P (EvCreateLease l x)"
  shows "emits P (healLeases E r held active jobs)"
  using assms(2)
proof (induction jobs arbitrary: active)
  case Nil
  show ?case by (simp add: emits_ok)
next
  case (Cons job jobs)
  have "emits P (healLeases E r held a jobs)" for a
    using Cons.prems by (intro Cons.IH) auto
  moreover have "emits P (acquireLease E job (groupOfJob job r))"
    if "\<not> IsTerminal (jobPhase job)" "job_DeletionTimestamp job = None"
    by (rule emits_acquireLease [OF assms(1) Cons.prems]) (use that in simp_all)
  ultimately show ?case by (auto intro!: emits_ifOk)
qed

lemma emits_syncLeases [emits_rules]:
  assumes "\<And>t. P (EvNow t)" and "\<And>x. P (EvListLeases (operatorNamespace E) (plan_Name plan) x)"
    and "\<And>l x. releasable (indexByName jobs) l \<Longrightarrow> P (EvDeleteLease l x)"
    and "\<And>job t l x. job \<in> set jobs \<Longrightarrow> \<not> IsTerminal (jobPhase job) \<Longrightarrow> job_DeletionTimestamp job = None \<Longrightarrow>
      setOwnerOfLease E job (leaseOf (operatorNamespace E) job (groupOfJob job r) t) = Inr l \<Longrightarrow> P (EvCreateLease l x)"
  shows "emits P (syncLeases E plan r jobs)"
  unfolding syncLeases_def using assms by (intro emits_rules) (auto intro!: emits_rules)

end
