(* ===== verification/Scheduler.thy ===== *)
theory Scheduler imports Leases begin

text \<open>
  \<open>controllers/scheduler.go\<close>: creating the jobs of the first unfinished group, the delay between
  nodes, the gate that keeps workers behind the control plane during a Kubernetes upgrade, and the
  kube-proxy rollout (with \<open>ensureKubeProxyUpgraded\<close> of \<open>patchplan_controller.go\<close>).
\<close>

section \<open>Delay\<close>

definition laterOf :: "time \<Rightarrow> patchJob \<Rightarrow> time" where
  "laterOf latest job =
     (case js_CompletionTime (job_Status job) of
        None \<Rightarrow> latest
      | Some t \<Rightarrow> if latest < t then t else latest)"

definition delayRemaining :: "('v, 's) env \<Rightarrow> patchPlan \<Rightarrow> jobMap \<Rightarrow> ('s, duration) io" where
  "delayRemaining E plan jobsByNode =
     (let latest0 = (case LastNodeScheduledAt (plan_Status plan) of Some t \<Rightarrow> t | None \<Rightarrow> zeroTime);
          latest = foldl laterOf latest0 (map snd jobsByNode)
      in if isZero latest then return 0
         else do {
           now \<leftarrow> timeNow E;
           return (latest + DelayBetweenNodes (plan_Spec plan) - now)
         })"

section \<open>Phase\<close>

definition markInProgress :: "('v, 's) env \<Rightarrow> patchPlan \<Rightarrow> ('s, goerr + patchPlan) io" where
  "markInProgress E plan =
     (if planPhase plan \<in> {PatchPhasePending, PatchPhaseFailed, PatchPhaseCompleted, PatchPhaseCancelled, PatchPhaseNone}
      then do {
        start \<leftarrow> (case ps_StartTime (plan_Status plan) of
                   Some t \<Rightarrow> return (Some t)
                 | None \<Rightarrow> do { now \<leftarrow> timeNow E; return (Some now) });
        updateStatus E plan (\<lambda>s. s\<lparr>ps_Phase := PatchPhaseInProgress, ps_StartTime := start, ps_CompletionTime := None\<rparr>)
      }
      else ok plan)"

section \<open>Workers after the control plane\<close>

definition jobFailed :: "jobMap \<Rightarrow> node \<Rightarrow> bool" where
  "jobFailed jobsByNode n =
     (case map_of jobsByNode (node_Name n) of None \<Rightarrow> False | Some job \<Rightarrow> jobPhase job = PatchJobPhaseFailed)"

definition waitForControlPlane ::
  "('v, 's) env \<Rightarrow> patchPlan \<Rightarrow> rollout \<Rightarrow> jobMap \<Rightarrow> node \<Rightarrow> ('s, goerr + duration \<times> patchPlan) io" where
  "waitForControlPlane E plan r jobsByNode n =
     (if KubernetesVersion (Target (plan_Spec plan)) = '''' \<or> IsControlPlane n then ok (0, plan)
      else let controlPlane = ControlPlaneNodes r in
        if controlPlane = [] then ok (0, plan)
        else if \<not> allNodesCompleted controlPlane jobsByNode then
          (case List.find (jobFailed jobsByNode) controlPlane of
             Some f \<Rightarrow>
               ifOk (setMessage E plan (''worker rollout blocked: control plane node '' @ node_Name f @ '' failed''))
                 (\<lambda>p. ok (requeueWhenJobsInProgress, p))
           | None \<Rightarrow> ok (requeueWhenJobsInProgress, plan))
        else ok (0, plan))"

definition kubeProxyDaemonSetName :: string where "kubeProxyDaemonSetName = ''kube-proxy''"
definition kubeProxyNamespace :: string where "kubeProxyNamespace = ''kube-system''"

definition ensureKubeProxyUpgraded :: "('v, 's) env \<Rightarrow> string \<Rightarrow> ('s, goerr + bool) io" where
  "ensureKubeProxyUpgraded E kubernetesVersion = do {
     g \<leftarrow> getDaemonSet E kubeProxyNamespace kubeProxyDaemonSetName;
     (case g of
        Inl err \<Rightarrow>
          if isNotFound err then ok True
          else return (Inl (wrapErr ''failed to get kube-proxy DaemonSet'' err))
      | Inr ds \<Rightarrow>
          (case ContainerImages ds of
             [] \<Rightarrow> return (Inl (TextError ''kube-proxy DaemonSet has no containers''))
           | current # rest \<Rightarrow>
               let targetImage = BuildKubeProxyImage kubernetesVersion in
               if current \<noteq> targetImage then do {
                 p \<leftarrow> patchDaemonSet E ds (ds\<lparr>ContainerImages := targetImage # rest\<rparr>);
                 (case p of
                    Some err \<Rightarrow> return (Inl (wrapErr ''failed to update kube-proxy image'' err))
                  | None \<Rightarrow> ok False)
               }
               else ok (ObservedGeneration ds \<ge> ds_Generation ds \<and>
                        UpdatedNumberScheduled ds = DesiredNumberScheduled ds \<and>
                        NumberReady ds = DesiredNumberScheduled ds)))
   }"

definition lastCompletion :: "node list \<Rightarrow> jobMap \<Rightarrow> time" where
  "lastCompletion nodes jobsByNode =
     foldl (\<lambda>latest n. case map_of jobsByNode (node_Name n) of None \<Rightarrow> latest | Some job \<Rightarrow> laterOf latest job)
       zeroTime nodes"

definition ensureKubeProxy ::
  "('v, 's) env \<Rightarrow> patchPlan \<Rightarrow> rollout \<Rightarrow> jobMap \<Rightarrow> ('s, goerr + duration \<times> patchPlan) io" where
  "ensureKubeProxy E plan r jobsByNode =
     (if KubernetesVersion (Target (plan_Spec plan)) = '''' \<or> KubeProxyUpgraded (plan_Status plan) then ok (0, plan)
      else let controlPlane = ControlPlaneNodes r in
        if controlPlane = [] \<or> \<not> allNodesCompleted controlPlane jobsByNode then ok (0, plan)
        else ifOk (ensureKubeProxyUpgraded E (KubernetesVersion (Target (plan_Spec plan)))) (\<lambda>done.
          if \<not> done then do {
            now \<leftarrow> timeNow E;
            let timeout = kubernetesTimeoutOf plan;
            let message =
              (if now - lastCompletion controlPlane jobsByNode > timeout then
                 ''kube-proxy rollout not finished '' @ durString timeout
                   @ '' after the control plane completed; check the kube-proxy DaemonSet in '' @ kubeProxyNamespace
               else ''Waiting for the kube-proxy rollout'');
            ifOk (setMessage E plan message) (\<lambda>p. ok (requeueForNextNode, p))
          }
          else ifOk (updateStatus E plan (\<lambda>s. s\<lparr>KubeProxyUpgraded := True\<rparr>)) (\<lambda>p. ok (0, p))))"

section \<open>Creating jobs\<close>

definition emptyJobStatus :: jobStatus where
  "emptyJobStatus = \<lparr>js_Phase = PatchJobPhaseNone, js_Message = '''', js_StartTime = None, js_CompletionTime = None,
     DrainStartTime = None, RebootStartTime = None, KubernetesUpgradeStartTime = None, PreUpgradeBootID = '''',
     CurrentTalosVersion = '''', TargetTalosVersion = '''', CurrentKubernetesVersion = '''', TargetKubernetesVersion = ''''\<rparr>"

definition newPatchJob :: "patchPlan \<Rightarrow> node \<Rightarrow> string \<Rightarrow> patchJob" where
  "newPatchJob plan n grp =
     \<lparr>job_Name = plan_Name plan @ ''-'' @ node_Name n,
      job_Labels = [(LabelPatchPlan, plan_Name plan), (LabelGroup, grp), (LabelNode, node_Name n)],
      job_DeletionTimestamp = None, job_Owner = None,
      job_Spec = \<lparr>NodeName = node_Name n, job_Target = Target (plan_Spec plan), PatchPlanRef = plan_Name plan, job_Group = grp\<rparr>,
      job_Status = emptyJobStatus\<rparr>"

definition createPatchJob :: "('v, 's) env \<Rightarrow> patchPlan \<Rightarrow> node \<Rightarrow> string \<Rightarrow> ('s, goerr + patchPlan) io" where
  "createPatchJob E plan n grp =
     (case setOwnerOfJob E plan (newPatchJob plan n grp) of
        Inl err \<Rightarrow> return (Inl err)
      | Inr j \<Rightarrow> do {
          c \<leftarrow> createJob E j;
          (case c of
             Inl err \<Rightarrow> if isAlreadyExists err then ok plan else return (Inl err)
           | Inr created \<Rightarrow>
               ifOk (acquireLease E created grp) (\<lambda>_. do {
                 now \<leftarrow> timeNow E;
                 updateStatus E plan (\<lambda>s. s\<lparr>LastNodeScheduledAt := Some now,
                   ps_Message := ''Patching node '' @ node_Name n @ '' (group '' @ grp @ '')''\<rparr>)
               }))
        })"

text \<open>
  The loop over the nodes a group may start now; \<open>created\<close> counts the jobs created so far. (The Go
  loop also increments \<open>activeLeases\<close>, which is not read again.)
\<close>

fun scheduleLoop ::
  "('v, 's) env \<Rightarrow> patchPlan \<Rightarrow> rollout \<Rightarrow> jobMap \<Rightarrow> string \<Rightarrow> nat \<Rightarrow> node list \<Rightarrow> ('s, ctrlResult) io" where
  "scheduleLoop E plan r jobsByNode grp created [] = return (requeueForNextNode, None)"
| "scheduleLoop E plan r jobsByNode grp created (n # ns) =
     orReturn (waitForControlPlane E plan r jobsByNode n) (\<lambda>(wait, p).
       if wait > 0 then return (if created = 0 then wait else requeueForNextNode, None)
       else orReturn (createPatchJob E p n grp) (\<lambda>p2.
         scheduleLoop E p2 r jobsByNode grp (Suc created) ns))"

definition pendingNodes :: "jobMap \<Rightarrow> rolloutGroup \<Rightarrow> node list" where
  "pendingNodes jobsByNode g = filter (\<lambda>n. map_of jobsByNode (node_Name n) = None) (grp_Nodes g)"

definition groupFinished :: "jobMap \<Rightarrow> rolloutGroup \<Rightarrow> bool" where
  "groupFinished jobsByNode g =
     list_all (\<lambda>n. case map_of jobsByNode (node_Name n) of None \<Rightarrow> False | Some job \<Rightarrow> IsTerminal (jobPhase job))
       (grp_Nodes g)"

text \<open>What \<open>scheduleNodes\<close> does with the first group that is not finished.\<close>

definition scheduleGroup ::
  "('v, 's) env \<Rightarrow> patchPlan \<Rightarrow> rollout \<Rightarrow> jobMap \<Rightarrow> counts \<Rightarrow> rolloutGroup \<Rightarrow> ('s, ctrlResult) io" where
  "scheduleGroup E plan r jobsByNode active g =
     (let pending = pendingNodes jobsByNode g;
          free = grp_Concurrency g - countOf active (grp_Name g)
      in if pending = [] then return (requeueWhenJobsInProgress, None)
         else if free \<le> 0 then return (requeueWhenAtMaxConcurrency, None)
         else do {
           wait \<leftarrow> delayRemaining E plan jobsByNode;
           (if wait > 0 then return (wait, None)
            else orReturn (markInProgress E plan) (\<lambda>p.
              scheduleLoop E p r jobsByNode (grp_Name g) 0 (take (nat free) pending)))
         })"

definition scheduleNodes ::
  "('v, 's) env \<Rightarrow> patchPlan \<Rightarrow> rollout \<Rightarrow> jobMap \<Rightarrow> counts \<Rightarrow> ('s, ctrlResult) io" where
  "scheduleNodes E plan r jobsByNode active =
     (case List.find (\<lambda>g. \<not> groupFinished jobsByNode g) (rollout_Groups r) of
        None \<Rightarrow> return (requeueWhenJobsInProgress, None)
      | Some g \<Rightarrow> scheduleGroup E plan r jobsByNode active g)"

section \<open>Invalid strategies\<close>

definition reasonInvalidStrategy :: string where "reasonInvalidStrategy = ''InvalidStrategy''"

definition failInvalidStrategy :: "('v, 's) env \<Rightarrow> patchPlan \<Rightarrow> goerr \<Rightarrow> ('s, ctrlResult) io" where
  "failInvalidStrategy E plan cause =
     orReturn (updateStatus E plan (\<lambda>s. s\<lparr>
         ps_Conditions := setCondition E (ps_Conditions s)
           \<lparr>cond_Type = ConditionPreflightPassed, cond_Status = False, cond_Reason = reasonInvalidStrategy,
            cond_Message = errText cause, cond_ObservedGeneration = plan_Generation plan\<rparr>,
         ps_Phase := PatchPhaseFailed,
         ps_Message := ''Invalid strategy: '' @ errText cause\<rparr>))
       (\<lambda>_. return (requeueWhenPreflightFailed, None))"

end
