(* ===== verification/Preflight.thy ===== *)
theory Preflight imports PlanState begin

text \<open>
  \<open>controllers/preflight.go\<close>: the checks that run before the first job of a plan exists. A check
  appends its findings to the failures (reason and message) or to the passed messages of the run. The
  Talos probes of the nodes run concurrently in the program; their results are collected in the order
  of the nodes, in which they are modelled.
\<close>

section \<open>Results\<close>

record preflightResult =
  failures :: "(string \<times> string) list"
  passed :: "string list"

definition fail :: "string \<Rightarrow> string \<Rightarrow> preflightResult \<Rightarrow> preflightResult" where
  "fail reason message res = res\<lparr>failures := failures res @ [(reason, message)]\<rparr>"

definition pass :: "string \<Rightarrow> preflightResult \<Rightarrow> preflightResult" where
  "pass message res = res\<lparr>passed := passed res @ [message]\<rparr>"

definition reasonPreflightPassed :: string where "reasonPreflightPassed = ''PreflightPassed''"
definition reasonNoNodesSelected :: string where "reasonNoNodesSelected = ''NoNodesSelected''"
definition reasonPlanConflict :: string where "reasonPlanConflict = ''PlanConflict''"
definition reasonKubernetesAPIUnhealthy :: string where "reasonKubernetesAPIUnhealthy = ''KubernetesAPIUnhealthy''"
definition reasonTalosCredentialsInvalid :: string where "reasonTalosCredentialsInvalid = ''TalosCredentialsInvalid''"
definition reasonNodeUnreachable :: string where "reasonNodeUnreachable = ''NodeUnreachable''"
definition reasonInvalidTarget :: string where "reasonInvalidTarget = ''InvalidTarget''"
definition reasonTalosImageUnavailable :: string where "reasonTalosImageUnavailable = ''TalosImageUnavailable''"
definition reasonKubernetesImageUnavailable :: string where "reasonKubernetesImageUnavailable = ''KubernetesImageUnavailable''"
definition reasonUnsupportedVersionCombo :: string where "reasonUnsupportedVersionCombo = ''UnsupportedVersionCombination''"
definition reasonControlPlaneOrder :: string where "reasonControlPlaneOrder = ''ControlPlaneOrderRequired''"
definition reasonControlPlaneQuorum :: string where "reasonControlPlaneQuorum = ''ControlPlaneQuorumRisk''"
definition reasonKubeletNewerThanAPIServer :: string where "reasonKubeletNewerThanAPIServer = ''KubeletNewerThanAPIServer''"
definition reasonDowngrade :: string where "reasonDowngrade = ''DowngradeNotSupported''"

record nodeProbe =
  probe_node :: string
  probe_version :: string
  probe_kubernetesVersion :: string
  probe_schematicID :: string

definition preflightMaxNamesInMessages :: nat where "preflightMaxNamesInMessages = 20"

definition truncatedList :: "string list \<Rightarrow> nat \<Rightarrow> string" where
  "truncatedList items limit =
     (if length items \<le> limit then joinStrings '', '' items
      else joinStrings '', '' (take limit items) @ '' and '' @ showInt (int (length items) - int limit) @ '' more'')"

abbreviation names :: "string list \<Rightarrow> string" where
  "names items \<equiv> truncatedList items preflightMaxNamesInMessages"

definition describeRollout :: "rollout \<Rightarrow> string" where
  "describeRollout r = joinStrings ''; ''
     (map (\<lambda>g. grp_Name g @ '': '' @ showInt (int (length (grp_Nodes g))) @ '' node(s), concurrency ''
             @ showInt (grp_Concurrency g)) (rollout_Groups r))"

section \<open>Order and version skew\<close>

definition checkUpgradeOrder :: "targetSpec \<Rightarrow> rollout \<Rightarrow> preflightResult \<Rightarrow> preflightResult" where
  "checkUpgradeOrder target r res =
     (if KubernetesVersion target = '''' then res
      else (case CheckControlPlaneFirst r of
          Some err \<Rightarrow> fail reasonControlPlaneOrder
            (''the requested Kubernetes upgrade requires control plane nodes to be upgraded before worker nodes, but ''
              @ errText err @ ''; no PatchJobs have been created'') res
        | None \<Rightarrow> pass ''strategy.order upgrades control plane nodes before worker nodes'' res))"

definition checkKubeletSkew :: "('v, 'm) klib_scheme \<Rightarrow> string \<Rightarrow> string \<Rightarrow> preflightResult \<Rightarrow> preflightResult" where
  "checkKubeletSkew K targetVersion apiServerVersion res =
     (case parseGeneric K targetVersion of
        Inl err \<Rightarrow> fail reasonInvalidTarget
          (''invalid kubernetesVersion '' @ quoted targetVersion @ '': '' @ errText err) res
      | Inr target \<Rightarrow>
          (case parseGeneric K apiServerVersion of
             Inl err \<Rightarrow> fail reasonKubernetesAPIUnhealthy
               (''unparsable API server version '' @ quoted apiServerVersion @ '': '' @ errText err) res
           | Inr srv \<Rightarrow>
               if verMajor K target > verMajor K srv \<or>
                  (verMajor K target = verMajor K srv \<and> verMinor K target > verMinor K srv) then
                 fail reasonKubeletNewerThanAPIServer
                   (''target Kubernetes '' @ targetVersion @ '' is newer than the running API server '' @ apiServerVersion
                     @ '' and no control plane node is in the rollout to upgrade it first'') res
               else pass (''target Kubernetes '' @ targetVersion @ '' does not outrun the API server '' @ apiServerVersion) res))"

definition checkAPIServerSkew ::
  "('v, 's) env \<Rightarrow> targetSpec \<Rightarrow> rollout \<Rightarrow> preflightResult \<Rightarrow> ('s, preflightResult) io" where
  "checkAPIServerSkew E target r res =
     (if KubernetesVersion target = '''' \<or> \<not> hasDiscovery E \<or> ControlPlaneNodes r \<noteq> [] then return res
      else do {
        info \<leftarrow> serverVersion E;
        (case info of
           Inl err \<Rightarrow> return (fail reasonKubernetesAPIUnhealthy
             (''unable to read the Kubernetes API server version: '' @ errText err) res)
         | Inr gitVersion \<Rightarrow> return (checkKubeletSkew E (KubernetesVersion target) gitVersion res))
      })"

section \<open>Conflicting plans\<close>

definition blocksPlan :: "patchPlan \<Rightarrow> patchPlan \<Rightarrow> bool" where
  "blocksPlan other plan =
     (case planPhase other of
        PatchPhaseInProgress \<Rightarrow> True
      | PatchPhasePaused \<Rightarrow> True
      | PatchPhaseNone \<Rightarrow> plan_CreationTimestamp other < plan_CreationTimestamp plan \<or>
          (plan_CreationTimestamp other = plan_CreationTimestamp plan \<and> strLess (plan_Name other) (plan_Name plan))
      | PatchPhasePending \<Rightarrow> plan_CreationTimestamp other < plan_CreationTimestamp plan \<or>
          (plan_CreationTimestamp other = plan_CreationTimestamp plan \<and> strLess (plan_Name other) (plan_Name plan))
      | PatchPhasePreflighting \<Rightarrow> plan_CreationTimestamp other < plan_CreationTimestamp plan \<or>
          (plan_CreationTimestamp other = plan_CreationTimestamp plan \<and> strLess (plan_Name other) (plan_Name plan))
      | _ \<Rightarrow> False)"

definition skipsPlan :: "patchPlan \<Rightarrow> patchPlan \<Rightarrow> bool" where
  "skipsPlan plan other \<longleftrightarrow>
     plan_Name other = plan_Name plan \<or> plan_DeletionTimestamp other \<noteq> None \<or> IsAutoUpdateTemplate other \<or>
     \<not> blocksPlan other plan"

definition overlapWith :: "string list \<Rightarrow> rollout \<Rightarrow> string list" where
  "overlapWith mine r = filter (\<lambda>n. n \<in> set mine) (map node_Name (Nodes r))"

fun conflictLoop ::
  "('v, 's) env \<Rightarrow> patchPlan \<Rightarrow> string list \<Rightarrow> nat \<Rightarrow> preflightResult \<Rightarrow> patchPlan list \<Rightarrow>
   ('s, goerr + nat \<times> preflightResult) io" where
  "conflictLoop E plan mine conflicts res [] = ok (conflicts, res)"
| "conflictLoop E plan mine conflicts res (other # others) =
     (if skipsPlan plan other then conflictLoop E plan mine conflicts res others
      else ifOk (ListMatchingNodes E (NodeSelector (plan_Spec other))) (\<lambda>nodes.
        case Resolve E nodes (plan_Spec other) of
          Inl _ \<Rightarrow> conflictLoop E plan mine conflicts res others
        | Inr otherRollout \<Rightarrow>
            let overlap = overlapWith mine otherRollout in
            if overlap \<noteq> [] then
              conflictLoop E plan mine (Suc conflicts)
                (fail reasonPlanConflict (''PatchPlan '' @ plan_Name other @ '' is '' @ patchPhaseString (planPhase other)
                   @ '' and targets the same node(s): '' @ names overlap) res) others
            else conflictLoop E plan mine conflicts res others))"

definition checkConflictingPlans ::
  "('v, 's) env \<Rightarrow> patchPlan \<Rightarrow> node list \<Rightarrow> preflightResult \<Rightarrow> ('s, goerr + preflightResult) io" where
  "checkConflictingPlans E plan targetNodes res = do {
     l \<leftarrow> listPlans E;
     (case l of
        Inl err \<Rightarrow> return (Inl (wrapErr ''failed to list PatchPlans'' err))
      | Inr plans \<Rightarrow>
          ifOk (conflictLoop E plan (map node_Name targetNodes) 0 res plans) (\<lambda>(conflicts, res2).
            ok (if conflicts = 0 then pass ''no other active PatchPlan targets the same nodes'' res2 else res2)))
   }"

section \<open>The APIs\<close>

definition checkKubernetesAPI :: "('v, 's) env \<Rightarrow> preflightResult \<Rightarrow> ('s, preflightResult) io" where
  "checkKubernetesAPI E res =
     (if \<not> hasDiscovery E then return res
      else do {
        r \<leftarrow> readyz E;
        (case r of
           Some err \<Rightarrow> return (fail reasonKubernetesAPIUnhealthy (''Kubernetes API /readyz check failed: '' @ errText err) res)
         | None \<Rightarrow> return (pass ''Kubernetes API /readyz is healthy'' res))
      })"

definition probeNode :: "('v, 's) env \<Rightarrow> node \<Rightarrow> bool \<Rightarrow> ('s, goerr + nodeProbe) io" where
  "probeNode E n needSchematic =
     (case GetNodeInternalIP n of
        Inl err \<Rightarrow> return (Inl err)
      | Inr addr \<Rightarrow>
          ifOk (GetVersion E addr) (\<lambda>version.
            let probe = \<lparr>probe_node = node_Name n, probe_version = version,
                         probe_kubernetesVersion = KubeletVersion n, probe_schematicID = ''''\<rparr> in
            if needSchematic then
              ifOk (GetSchematicID E addr) (\<lambda>sid. ok (probe\<lparr>probe_schematicID := sid\<rparr>))
            else ok probe))"

fun probeAll :: "('v, 's) env \<Rightarrow> bool \<Rightarrow> node list \<Rightarrow> ('s, (node \<times> (goerr + nodeProbe)) list) io" where
  "probeAll E needSchematic [] = return []"
| "probeAll E needSchematic (n # ns) = do {
     p \<leftarrow> probeNode E n needSchematic;
     rest \<leftarrow> probeAll E needSchematic ns;
     return ((n, p) # rest)
   }"

definition noteProbe ::
  "preflightResult \<times> nodeProbe list \<Rightarrow> node \<times> (goerr + nodeProbe) \<Rightarrow> preflightResult \<times> nodeProbe list" where
  "noteProbe acc outcome =
     (case (acc, outcome) of ((res, probes), (n, Inl err)) \<Rightarrow>
          (fail reasonNodeUnreachable (''node '' @ node_Name n @ '' is not reachable via the Talos API: '' @ errText err) res, probes)
      | ((res, probes), (_, Inr p)) \<Rightarrow> (res, probes @ [p]))"

definition checkTalosNodes ::
  "('v, 's) env \<Rightarrow> patchPlan \<Rightarrow> node list \<Rightarrow> preflightResult \<Rightarrow> ('s, preflightResult \<times> nodeProbe list) io" where
  "checkTalosNodes E plan targetNodes res = do {
     opened \<leftarrow> openTalos E plan;
     (case opened of
        Some err \<Rightarrow> return (fail reasonTalosCredentialsInvalid (errText err) res, [])
      | None \<Rightarrow> do {
          out \<leftarrow> do {
            conn \<leftarrow> CheckConnection E;
            (case conn of
               Some err \<Rightarrow> return (fail reasonTalosCredentialsInvalid (errText err) res, [])
             | None \<Rightarrow> do {
                 let target = Target (plan_Spec plan);
                 outcomes \<leftarrow> probeAll E (TalosVersion target \<noteq> '''' \<and> Source target = ''factory'') targetNodes;
                 (case foldl noteProbe
                    (pass (''Talos credentials accepted by endpoints ''
                       @ joinStrings '', '' (Endpoints (TalosConfig (plan_Spec plan)))) res, []) outcomes of
                    (res2, probes) \<Rightarrow>
                      return (if list_all (\<lambda>x. \<not> isl (snd x)) outcomes
                              then pass (''all '' @ showInt (int (length probes)) @ '' node(s) reachable via the Talos API'') res2
                              else res2, probes))
               })
          };
          Close E;
          return out
        })
   }"

section \<open>Versions and images\<close>

definition olderNodes :: "('v, 'm) klib_scheme \<Rightarrow> (nodeProbe \<Rightarrow> string) \<Rightarrow> string \<Rightarrow> nodeProbe list \<Rightarrow> string list" where
  "olderNodes K version target probes =
     map (\<lambda>p. probe_node p @ '' ('' @ version p @ '')'')
       (filter (\<lambda>p. target \<noteq> '''' \<and> isDowngrade K (version p) target) probes)"

definition checkNoDowngrade ::
  "('v, 'm) klib_scheme \<Rightarrow> targetSpec \<Rightarrow> nodeProbe list \<Rightarrow> preflightResult \<Rightarrow> preflightResult" where
  "checkNoDowngrade K target probes res =
     (let talosOlder = olderNodes K probe_version (TalosVersion target) probes;
          k8sOlder = olderNodes K probe_kubernetesVersion (KubernetesVersion target) probes;
          res2 = (if talosOlder = [] then res
            else if AllowTalosDowngrade target then
              pass (''Talos downgrade to '' @ TalosVersion target @ '' explicitly allowed for: '' @ names talosOlder) res
            else fail reasonDowngrade (''target Talos '' @ TalosVersion target @ '' is older than the running version on: ''
              @ names talosOlder @ ''; set target.allowTalosDowngrade: true to roll back'') res)
      in if k8sOlder = [] then res2
         else fail reasonDowngrade (''target Kubernetes '' @ KubernetesVersion target
           @ '' is older than the running version on: '' @ names k8sOlder
           @ ''; Kubernetes downgrades are never allowed'') res2)"

text \<open>The nodes that need each installer image; \<open>True\<close> when an image could not be built.\<close>

fun collectImages ::
  "targetSpec \<Rightarrow> (string \<times> string list) list \<times> bool \<times> preflightResult \<Rightarrow> nodeProbe list \<Rightarrow>
   (string \<times> string list) list \<times> bool \<times> preflightResult" where
  "collectImages target acc [] = acc"
| "collectImages target (images, invalid, res) (p # ps) =
     (if \<not> needsTalosUpgrade target (probe_version p) (probe_schematicID p)
      then collectImages target (images, invalid, res) ps
      else (case BuildInstallerImage target (probe_schematicID p) of
          Inl err \<Rightarrow> collectImages target (images, True,
            fail reasonInvalidTarget (''node '' @ probe_node p @ '': '' @ errText err) res) ps
        | Inr img \<Rightarrow> collectImages target
            (AList.update img ((case map_of images img of Some ns \<Rightarrow> ns | None \<Rightarrow> []) @ [probe_node p]) images,
             invalid, res) ps))"

text \<open>One round trip per image; \<open>describe\<close> gives the messages for a present, a missing and an unverified image.\<close>

fun checkImages ::
  "('v, 's) env \<Rightarrow> string \<Rightarrow> (string \<Rightarrow> string) \<Rightarrow> (string \<Rightarrow> string) \<Rightarrow> (string \<Rightarrow> string) \<Rightarrow>
   string list \<Rightarrow> preflightResult \<Rightarrow> ('s, preflightResult) io" where
  "checkImages E reason present absent unverified [] res = return res"
| "checkImages E reason present absent unverified (img # imgs) res = do {
     r \<leftarrow> Exists E img;
     checkImages E reason present absent unverified imgs
       (case r of
          None \<Rightarrow> pass (present img) res
        | Some err \<Rightarrow>
            if errIs err ErrImageNotFound then fail reason (absent img) res
            else fail reason (unverified img @ '': '' @ errText err) res)
   }"

definition checkTalosImages ::
  "('v, 's) env \<Rightarrow> targetSpec \<Rightarrow> nodeProbe list \<Rightarrow> preflightResult \<Rightarrow> ('s, preflightResult) io" where
  "checkTalosImages E target probes res =
     (if TalosVersion target = '''' then return res
      else (case collectImages target ([], False, res) probes of (images, invalid, res2) \<Rightarrow>
        (let imageNames = sortFunc strCompare (map fst images) in
         if imageNames = [] then
           return (if invalid then res2 else pass (''no node needs the Talos upgrade to '' @ TalosVersion target) res2)
         else checkImages E reasonTalosImageUnavailable
           (\<lambda>img. ''installer image '' @ img @ '' exists'')
           (\<lambda>img. ''installer image '' @ img @ '' does not exist (needed by ''
              @ names (case map_of images img of Some ns \<Rightarrow> ns | None \<Rightarrow> []) @ '')'')
           (\<lambda>img. ''unable to verify installer image '' @ img)
           imageNames res2)))"

definition checkKubernetesImages :: "('v, 's) env \<Rightarrow> targetSpec \<Rightarrow> preflightResult \<Rightarrow> ('s, preflightResult) io" where
  "checkKubernetesImages E target res =
     (let v = KubernetesVersion target in
      if v = '''' then return res
      else checkImages E reasonKubernetesImageUnavailable
        (\<lambda>img. ''Kubernetes image '' @ img @ '' exists'')
        (\<lambda>img. ''Kubernetes image '' @ img @ '' does not exist'')
        (\<lambda>img. ''unable to verify Kubernetes image '' @ img)
        [BuildKubeletImage v, BuildAPIServerImage v, BuildControllerManagerImage v, BuildSchedulerImage v] res)"

text \<open>A version pair is a Talos and a Kubernetes version; a transition leads from one pair to another.\<close>

type_synonym versionPair = "string \<times> string"

definition pairString :: "versionPair \<Rightarrow> string" where
  "pairString v = ''Talos '' @ fst v @ '' + Kubernetes '' @ snd v"

definition transitionOf :: "targetSpec \<Rightarrow> nodeProbe \<Rightarrow> versionPair \<times> versionPair" where
  "transitionOf target p =
     ((probe_version p, probe_kubernetesVersion p),
      (firstNonEmpty (TalosVersion target) (probe_version p),
       firstNonEmpty (KubernetesVersion target) (probe_kubernetesVersion p)))"

fun collectTransitions :: "(versionPair \<times> versionPair) list \<Rightarrow> (versionPair \<times> versionPair) list \<Rightarrow> (versionPair \<times> versionPair) list" where
  "collectTransitions seen [] = []"
| "collectTransitions seen (t # ts) =
     (if t \<in> set seen \<or> snd (snd t) = '''' \<or> fst (snd t) = '''' then collectTransitions seen ts
      else t # collectTransitions (t # seen) ts)"

definition transitionCompare :: "versionPair \<times> versionPair \<Rightarrow> versionPair \<times> versionPair \<Rightarrow> int" where
  "transitionCompare a b =
     strCompare (pairString (fst a) @ pairString (snd a)) (pairString (fst b) @ pairString (snd b))"

definition checkTransition ::
  "('v, 'm) klib_scheme \<Rightarrow> preflightResult \<Rightarrow> versionPair \<times> versionPair \<Rightarrow> preflightResult" where
  "checkTransition K res t =
     (let current = fst t; desired = snd t;
          res2 = (if snd current \<noteq> '''' then
              (case ValidateKubernetesVersion K (fst current) (snd current) of
                 Some err \<Rightarrow>
                   if \<not> errIs err ErrUnknownTalosVersion then
                     pass (''current combination '' @ pairString current @ '' is outside the support matrix (''
                       @ errText err @ '')'') res
                   else res
               | None \<Rightarrow> res)
            else res)
      in if current = desired then res2
         else (case ValidateKubernetesVersion K (fst desired) (snd desired) of
             None \<Rightarrow> pass (''target combination '' @ pairString desired @ '' is supported (from '' @ pairString current @ '')'') res2
           | Some err \<Rightarrow>
               if errIs err ErrUnknownTalosVersion then
                 pass (''target combination '' @ pairString desired @ '' not verified (Talos version missing from the matrix)'') res2
               else fail reasonUnsupportedVersionCombo (''target combination '' @ pairString desired
                 @ '' is invalid (from '' @ pairString current @ ''): '' @ errText err) res2))"

definition checkVersionCompatibility ::
  "('v, 'm) klib_scheme \<Rightarrow> targetSpec \<Rightarrow> nodeProbe list \<Rightarrow> preflightResult \<Rightarrow> preflightResult" where
  "checkVersionCompatibility K target probes res =
     foldl (checkTransition K) res
       (sortFunc transitionCompare (collectTransitions [] (map (transitionOf target) probes)))"

section \<open>The whole run\<close>

definition noNodesMessage :: "('v, 'm) klib_scheme \<Rightarrow> patchPlan \<Rightarrow> rollout \<Rightarrow> string" where
  "noNodesMessage K plan r =
     (if Selected r = 0 then
        ''nodeSelector '' @ formatSelector K (NodeSelector (plan_Spec plan)) @ '' matched no nodes''
      else ''none of the '' @ showInt (int (Selected r)) @ '' selected node(s) matches a group in strategy.order [''
        @ joinStrings '', '' (Order (plan_Spec plan)) @ '']'')"

definition openingResult :: "rollout \<Rightarrow> preflightResult" where
  "openingResult r =
     (let targetNodes = Nodes r;
          res = pass (''rollout plan: '' @ describeRollout r)
            (pass (showInt (int (length targetNodes)) @ '' node(s) selected: '' @ names (map node_Name targetNodes))
              \<lparr>failures = [], passed = []\<rparr>)
      in if Unassigned r \<noteq> [] then
           pass (showInt (int (length (Unassigned r)))
             @ '' selected node(s) match no group in strategy.order and are left untouched: '' @ names (Unassigned r)) res
         else res)"

definition checkQuorum :: "rollout \<Rightarrow> preflightResult \<Rightarrow> preflightResult" where
  "checkQuorum r res =
     (case CheckControlPlaneQuorum r of
        Some err \<Rightarrow> fail reasonControlPlaneQuorum (errText err) res
      | None \<Rightarrow> res)"

definition runPreflight :: "('v, 's) env \<Rightarrow> patchPlan \<Rightarrow> rollout \<Rightarrow> ('s, goerr + preflightResult) io" where
  "runPreflight E plan r =
     (let targetNodes = Nodes r; target = Target (plan_Spec plan) in
      if targetNodes = [] then
        ok (fail reasonNoNodesSelected (noNodesMessage E plan r) \<lparr>failures = [], passed = []\<rparr>)
      else do {
        res1 \<leftarrow> checkAPIServerSkew E target r (checkUpgradeOrder target r (openingResult r));
        ifOk (checkConflictingPlans E plan targetNodes (checkQuorum r res1)) (\<lambda>res2. do {
          res3 \<leftarrow> checkKubernetesAPI E res2;
          (res4, probes) \<leftarrow> checkTalosNodes E plan targetNodes res3;
          res5 \<leftarrow> checkTalosImages E target probes (checkNoDowngrade E target probes res4);
          res6 \<leftarrow> checkKubernetesImages E target res5;
          ok (checkVersionCompatibility E target probes res6)
        })
      })"

definition preflightCondition :: "patchPlan \<Rightarrow> preflightResult \<Rightarrow> condition" where
  "preflightCondition plan res =
     (case failures res of
        [] \<Rightarrow> \<lparr>cond_Type = ConditionPreflightPassed, cond_Status = True, cond_Reason = reasonPreflightPassed,
               cond_Message = joinStrings ''; '' (passed res), cond_ObservedGeneration = plan_Generation plan\<rparr>
      | (reason, _) # _ \<Rightarrow> \<lparr>cond_Type = ConditionPreflightPassed, cond_Status = False, cond_Reason = reason,
               cond_Message = joinStrings ''; '' (map snd (failures res)),
               cond_ObservedGeneration = plan_Generation plan\<rparr>)"

definition preflightDone :: "('v, 'm) klib_scheme \<Rightarrow> patchPlan \<Rightarrow> bool" where
  "preflightDone K plan =
     (case findCondition K (ps_Conditions (plan_Status plan)) ConditionPreflightPassed of
        None \<Rightarrow> False
      | Some c \<Rightarrow> cond_Status c \<and> cond_ObservedGeneration c = plan_Generation plan)"

text \<open>The second half of \<open>ensurePreflight\<close>, once the plan is marked as preflighting.\<close>

definition recordPreflight :: "('v, 's) env \<Rightarrow> patchPlan \<Rightarrow> rollout \<Rightarrow> ('s, goerr + bool \<times> patchPlan) io" where
  "recordPreflight E plan r =
     ifOk (runPreflight E plan r) (\<lambda>res.
       let result = preflightCondition plan res;
           passed = (failures res = []) in
       ifOk (updateStatus E plan (\<lambda>s. s\<lparr>
           ps_Conditions := setCondition E (ps_Conditions s) result,
           ps_Phase := (if passed then PatchPhasePending else PatchPhaseFailed),
           ps_Message := (if passed then ''Preflight passed: '' else ''Preflight failed: '') @ cond_Message result\<rparr>))
         (\<lambda>p. ok (passed, p)))"

definition ensurePreflight ::
  "('v, 's) env \<Rightarrow> patchPlan \<Rightarrow> rollout \<Rightarrow> jobMap \<Rightarrow> ('s, goerr + bool \<times> patchPlan) io" where
  "ensurePreflight E plan r jobsByNode =
     (if jobsByNode \<noteq> [] then ok (True, plan)
      else if preflightDone E plan then ok (True, plan)
      else if planPhase plan = PatchPhaseNone \<or> planPhase plan = PatchPhasePending then
        ifOk (updateStatus E plan (\<lambda>s. s\<lparr>ps_Phase := PatchPhasePreflighting, ps_Message := ''Running preflight checks''\<rparr>))
          (\<lambda>p. recordPreflight E p r)
      else recordPreflight E plan r)"


end
