(* ===== verification/Retention.thy ===== *)
theory Retention imports PlanState begin

text \<open>
  \<open>controllers/retention.go\<close>: when a finished plan is looked at again, and the removal of its jobs
  once the history has been kept long enough.
\<close>

definition isFinishedPhase :: "patchPhase \<Rightarrow> bool" where
  "isFinishedPhase phase \<longleftrightarrow>
     phase = PatchPhaseCompleted \<or> phase = PatchPhaseFailed \<or> phase = PatchPhaseCancelled"

definition terminalResult :: "('v, 's) env \<Rightarrow> patchPlan \<Rightarrow> ('s, ctrlResult) io" where
  "terminalResult E plan =
     (case ps_CompletionTime (plan_Status plan) of
        None \<Rightarrow> return (0, None)
      | Some t \<Rightarrow> do {
          now \<leftarrow> timeNow E;
          let wait = t + HistoryRetention plan - now;
          return (if wait \<le> 0 then requeueWhenRetentionBlocked else wait, None)
        })"

fun deleteJobs :: "('v, 's) env \<Rightarrow> patchJob list \<Rightarrow> ('s, goerr option) io" where
  "deleteJobs E [] = return None"
| "deleteJobs E (j # js) = do {
     d \<leftarrow> deleteJob E j;
     (case d of
        None \<Rightarrow> deleteJobs E js
      | Some err \<Rightarrow> if isNotFound err then deleteJobs E js else return (Some err))
   }"

definition applyRetention :: "('v, 's) env \<Rightarrow> patchPlan \<Rightarrow> ('s, goerr + bool \<times> patchPlan) io" where
  "applyRetention E plan =
     (case ps_CompletionTime (plan_Status plan) of
        None \<Rightarrow> ok (False, plan)
      | Some completed \<Rightarrow>
          if \<not> isFinishedPhase (planPhase plan) then ok (False, plan)
          else if HistoryPurged (plan_Status plan) then ok (True, plan)
          else do {
            now \<leftarrow> timeNow E;
            (if now - completed < HistoryRetention plan then ok (False, plan)
             else ifOk (listPatchJobs E (plan_Name plan)) (\<lambda>jobs.
               if list_ex (\<lambda>j. \<not> IsTerminal (jobPhase j)) jobs then ok (False, plan)
               else do {
                 d \<leftarrow> deleteJobs E jobs;
                 (case d of
                    Some err \<Rightarrow> return (Inl err)
                  | None \<Rightarrow> ifOk (updateStatus E plan (\<lambda>s. s\<lparr>HistoryPurged := True\<rparr>)) (\<lambda>p. ok (True, p)))
               }))
          })"

lemma emits_terminalResult [emits_rules]: "(\<And>t. P (EvNow t)) \<Longrightarrow> emits P (terminalResult E plan)"
  unfolding terminalResult_def by (intro emits_rules)

lemma emits_deleteJobs [emits_rules]:
  "(\<And>j r. j \<in> set jobs \<Longrightarrow> P (EvDeleteJob j r)) \<Longrightarrow> emits P (deleteJobs E jobs)"
  by (induction jobs) (auto intro!: emits_rules)

lemma emits_applyRetention [emits_rules]:
  assumes "\<And>t. P (EvNow t)" and "\<And>r. P (EvListJobs (plan_Name plan) r)"
    and "\<And>j r. isFinishedPhase (planPhase plan) \<Longrightarrow> IsTerminal (jobPhase j) \<Longrightarrow> P (EvDeleteJob j r)"
    and "\<And>r. isFinishedPhase (planPhase plan) \<Longrightarrow>
          P (EvPatchPlanStatus plan (withStatus plan (\<lambda>s. s\<lparr>HistoryPurged := True\<rparr>)) r)"
  shows "emits P (applyRetention E plan)"
  unfolding applyRetention_def listPatchJobs_def using assms
  by (intro emits_rules) (auto simp: list_ex_iff)

end
