(* ===== verification/AutoUpdate.thy ===== *)
theory AutoUpdate imports Preflight begin

text \<open>
  \<open>controllers/autoupdate.go\<close>: an auto-update template. It patches no node; once no child plan is
  unfinished it looks for a newer release and creates the child plan that rolls it out. The releases
  come from \<open>release.Fetcher\<close>, the only implementation of the interface \<open>releaseLister\<close>.
\<close>

definition minAutoUpdateCheckInterval :: duration where "minAutoUpdateCheckInterval = minute"
definition requeueAutoUpdateRetry :: duration where "requeueAutoUpdateRetry = 5 * minute"
definition waitingMessagePrefix :: string where "waitingMessagePrefix = ''Waiting for PatchPlan''"

definition errOf :: "goerr + 'a \<Rightarrow> goerr option" where
  "errOf r = (case r of Inl e \<Rightarrow> Some e | Inr _ \<Rightarrow> None)"

definition phaseOrPending :: "patchPhase \<Rightarrow> patchPhase" where
  "phaseOrPending phase = (if phase = PatchPhaseNone then PatchPhasePending else phase)"

definition versionStringOf :: "('v, 'm) klib_scheme \<Rightarrow> 'v release option \<Rightarrow> string" where
  "versionStringOf K r = (case r of None \<Rightarrow> '''' | Some x \<Rightarrow> VersionString K (rel_Version x))"

definition emptyAutoUpdateStatus :: autoUpdateStatus where
  "emptyAutoUpdateStatus = \<lparr>LastCheckTime = None, CurrentVersion = '''', LatestVersion = '''',
     PendingVersion = '''', LastCreatedPlan = ''''\<rparr>"

definition updateTemplateStatus ::
  "('v, 's) env \<Rightarrow> patchPlan \<Rightarrow> patchPhase \<Rightarrow> string \<Rightarrow> (autoUpdateStatus \<Rightarrow> autoUpdateStatus) \<Rightarrow>
   ('s, goerr + patchPlan) io" where
  "updateTemplateStatus E plan phase message mutate =
     (let modified = withStatus plan (\<lambda>s. s\<lparr>ps_Phase := phase, ps_Message := message,
            ps_AutoUpdate := Some (mutate (case ps_AutoUpdate s of Some a \<Rightarrow> a | None \<Rightarrow> emptyAutoUpdateStatus))\<rparr>)
      in if plan_Status plan = plan_Status modified then ok modified
         else patchPlanStatus E plan modified)"

definition emptyPlanStatus :: planStatus where
  "emptyPlanStatus = \<lparr>ps_Phase = PatchPhaseNone, ps_AutoUpdate = None, ps_TargetTalosVersion = '''',
     ps_TargetKubernetesVersion = '''', KubeProxyUpgraded = False, TotalNodes = 0, PendingNodes = 0,
     RunningNodes = 0, CompletedNodes = 0, FailedNodes = 0, ps_Groups = [], FailuresAcknowledged = 0,
     HistoryPurged = False, LastNodeScheduledAt = None, ps_Message = '''', ps_StartTime = None,
     ps_CompletionTime = None, ps_Conditions = []\<rparr>"

definition childPlan :: "patchPlan \<Rightarrow> string \<Rightarrow> patchPlan" where
  "childPlan parent version =
     \<lparr>plan_Name = plan_Name parent @ ''-'' @ version,
      plan_Labels = [(LabelParentPlan, plan_Name parent)],
      plan_Generation = 0, plan_CreationTimestamp = zeroTime, plan_DeletionTimestamp = None, plan_Owner = None,
      plan_Spec = (plan_Spec parent)\<lparr>
         Target := (Target (plan_Spec parent))\<lparr>AutoUpdate := None, TalosVersion := version\<rparr>,
         Paused := False, Cancelled := False\<rparr>,
      plan_Status = emptyPlanStatus\<rparr>"

definition createChildPlan :: "('v, 's) env \<Rightarrow> patchPlan \<Rightarrow> string \<Rightarrow> ('s, goerr + string \<times> bool) io" where
  "createChildPlan E parent version =
     (case setOwnerOfPlan E parent (childPlan parent version) of
        Inl err \<Rightarrow> return (Inl err)
      | Inr child \<Rightarrow> do {
          c \<leftarrow> createPlan E child;
          (case c of
             None \<Rightarrow> ok (plan_Name child, True)
           | Some err \<Rightarrow>
               if isAlreadyExists err then ok (plan_Name child, False)
               else return (Inl (wrapErr (''failed to create PatchPlan '' @ plan_Name child) err)))
        })"

text \<open>The loop of \<open>lowestTalosVersion\<close>; \<open>None\<close> before the first node.\<close>

fun lowestLoop :: "('v, 's) env \<Rightarrow> 'v option \<Rightarrow> node list \<Rightarrow> ('s, goerr + 'v option) io" where
  "lowestLoop E lowest [] = ok lowest"
| "lowestLoop E lowest (n # ns) = do {
     p \<leftarrow> probeNode E n False;
     (case p of
        Inl err \<Rightarrow> return (Inl (wrapErr (''node '' @ node_Name n @ '' is not reachable via the Talos API'') err))
      | Inr probe \<Rightarrow>
          (case ParseVersion E (probe_version probe) of
             Inl err \<Rightarrow> return (Inl (wrapErr (''node '' @ node_Name n) err))
           | Inr v \<Rightarrow> lowestLoop E
               (case lowest of None \<Rightarrow> Some v | Some low \<Rightarrow> if CompareVersion E v low < 0 then Some v else Some low) ns))
   }"

definition lowestTalosVersion :: "('v, 's) env \<Rightarrow> patchPlan \<Rightarrow> node list \<Rightarrow> ('s, goerr + 'v option) io" where
  "lowestTalosVersion E plan nodes = do {
     opened \<leftarrow> openTalos E plan;
     (case opened of
        Some err \<Rightarrow> return (Inl err)
      | None \<Rightarrow> do {
          res \<leftarrow> lowestLoop E None nodes;
          Close E;
          return res
        })
   }"

text \<open>
  \<open>checkForRelease\<close>. The lowest version of a non-empty list of nodes is never \<open>None\<close>
  (\<open>lowestLoop_Some\<close> below), so the branch for it stands for nothing the program can do.
\<close>

definition checkForRelease ::
  "('v, 's) env \<Rightarrow> patchPlan \<Rightarrow> autoUpdateSpec \<Rightarrow> ('s, goerr + 'v \<times> 'v selection) io" where
  "checkForRelease E plan spec =
     ifOk (ListMatchingNodes E (NodeSelector (plan_Spec plan))) (\<lambda>nodes.
       case Resolve E nodes (plan_Spec plan) of
         Inl err \<Rightarrow> return (Inl err)
       | Inr r \<Rightarrow>
           let targetNodes = Nodes r in
           if targetNodes = [] then return (Inl (TextError ''nodeSelector and strategy.order matched no nodes''))
           else ifOk (lowestTalosVersion E plan targetNodes) (\<lambda>lowest.
             case lowest of
               None \<Rightarrow> return (Inl (TextError ''no version''))
             | Some current \<Rightarrow>
                 ifOk (ListReleases E) (\<lambda>releases. do {
                   now \<leftarrow> timeNow E;
                   ok (current, Select E releases current (Allow spec) (MinReleaseAge spec) now)
                 })))"

text \<open>
  What follows a successful check: a child plan for the selected release, the message, and the
  plan created, if any.
\<close>

definition rollOut ::
  "('v, 's) env \<Rightarrow> patchPlan \<Rightarrow> autoUpdateSpec \<Rightarrow> 'v \<Rightarrow> 'v selection \<Rightarrow> ('s, goerr + string \<times> string) io" where
  "rollOut E plan spec current result =
     (case sel_Target result of
        Some target \<Rightarrow>
          let version = VersionString E (rel_Version target) in
          ifOk (createChildPlan E plan version) (\<lambda>(name, created).
            ok (if created then (''Created PatchPlan '' @ name @ '' for Talos '' @ version, name)
                else (''PatchPlan '' @ name @ '' already exists but nodes still run Talos '' @ VersionString E current, '''')))
      | None \<Rightarrow>
          (case sel_Pending result of
             Some p \<Rightarrow> ok (''Talos '' @ VersionString E (rel_Version p) @ '' is newer than '' @ VersionString E current
                @ '' but not eligible until '' @ formatRFC3339 (PublishedAt p + MinReleaseAge spec)
                @ '' (minReleaseAge '' @ durString (MinReleaseAge spec) @ '')'', '''')
           | None \<Rightarrow> ok (''Up to date'', '''')))"

definition checkAndRollOut :: "('v, 's) env \<Rightarrow> patchPlan \<Rightarrow> autoUpdateSpec \<Rightarrow> duration \<Rightarrow> ('s, ctrlResult) io" where
  "checkAndRollOut E plan spec interval = do {
     checked \<leftarrow> checkForRelease E plan spec;
     (case checked of
        Inl err \<Rightarrow> do {
          st \<leftarrow> updateTemplateStatus E plan PatchPhaseWatching (''Release check failed: '' @ errText err) (\<lambda>a. a);
          return (min interval requeueAutoUpdateRetry, errOf st)
        }
      | Inr (current, result) \<Rightarrow>
          orReturn (rollOut E plan spec current result) (\<lambda>(message, createdPlan). do {
            now \<leftarrow> timeNow E;
            st \<leftarrow> updateTemplateStatus E plan PatchPhaseWatching message (\<lambda>a.
              let a2 = a\<lparr>LastCheckTime := Some now, CurrentVersion := VersionString E current,
                         LatestVersion := versionStringOf E (sel_Latest result),
                         PendingVersion := versionStringOf E (sel_Pending result)\<rparr>
              in if createdPlan \<noteq> '''' then a2\<lparr>LastCreatedPlan := createdPlan\<rparr> else a2);
            return (interval, errOf st)
          }))
   }"

text \<open>What \<open>reconcileAutoUpdate\<close> does once every child plan is completed.\<close>

definition checkWhenDue :: "('v, 's) env \<Rightarrow> patchPlan \<Rightarrow> autoUpdateSpec \<Rightarrow> duration \<Rightarrow> ('s, ctrlResult) io" where
  "checkWhenDue E plan spec interval =
     (case (case ps_AutoUpdate (plan_Status plan) of None \<Rightarrow> None | Some a \<Rightarrow> LastCheckTime a) of
        None \<Rightarrow> checkAndRollOut E plan spec interval
      | Some lastCheck \<Rightarrow> do {
          now \<leftarrow> timeNow E;
          let wait = interval - (now - lastCheck);
          (if wait > 0 then
             (if hasPrefix (ps_Message (plan_Status plan)) waitingMessagePrefix then do {
                st \<leftarrow> updateTemplateStatus E plan PatchPhaseWatching
                       (''Next release check at '' @ formatRFC3339 (lastCheck + interval)) (\<lambda>a. a);
                return (wait, errOf st)
              }
              else return (wait, None))
           else checkAndRollOut E plan spec interval)
        })"

definition watchReleases :: "('v, 's) env \<Rightarrow> patchPlan \<Rightarrow> autoUpdateSpec \<Rightarrow> duration \<Rightarrow> ('s, ctrlResult) io" where
  "watchReleases E plan spec interval = do {
     l \<leftarrow> listChildPlans E (plan_Name plan);
     (case l of
        Inl err \<Rightarrow> return (0, Some (wrapErr ''failed to list child PatchPlans'' err))
      | Inr children \<Rightarrow>
          (case List.find (\<lambda>c. planPhase c \<noteq> PatchPhaseCompleted) children of
             Some child \<Rightarrow> do {
               st \<leftarrow> updateTemplateStatus E plan PatchPhaseWatching
                      (waitingMessagePrefix @ '' '' @ plan_Name child @ '' (''
                        @ patchPhaseString (phaseOrPending (planPhase child)) @ '') to complete before creating another'') (\<lambda>a. a);
               return (interval, errOf st)
             }
           | None \<Rightarrow> checkWhenDue E plan spec interval))
   }"

definition reconcileAutoUpdate :: "('v, 's) env \<Rightarrow> patchPlan \<Rightarrow> autoUpdateSpec \<Rightarrow> ('s, ctrlResult) io" where
  "reconcileAutoUpdate E plan spec =
     (let interval = max (CheckInterval spec) minAutoUpdateCheckInterval in
      if Cancelled (plan_Spec plan) then do {
        st \<leftarrow> updateTemplateStatus E plan PatchPhaseCancelled ''Auto-update cancelled by user'' (\<lambda>a. a);
        return (0, errOf st)
      }
      else if Paused (plan_Spec plan) then do {
        st \<leftarrow> updateTemplateStatus E plan PatchPhasePaused ''Auto-update paused by user'' (\<lambda>a. a);
        return (requeueWhenPaused, errOf st)
      }
      else if planPhase plan \<noteq> PatchPhaseWatching then
        orReturn (updateTemplateStatus E plan PatchPhaseWatching ''Watching for new Talos releases'' (\<lambda>a. a))
          (\<lambda>p. watchReleases E p spec interval)
      else watchReleases E plan spec interval)"

end
