(* ===== verification/PatchPlan.thy ===== *)
theory PatchPlan imports Scheduler Preflight Retention AutoUpdate Maintenance begin

text \<open>
  \<open>controllers/patchplan_controller.go\<close>: one reconcile of a plan. The guards come in the order of the
  Go function (template, purged history, invalid strategy, cancellation, pause, preflight, kube-proxy,
  failure budget, completion, maintenance window); a job is created only behind all of them.
\<close>

section \<open>Cancellation and pause\<close>

definition ensureCancelledState :: "('v, 's) env \<Rightarrow> patchPlan \<Rightarrow> ('s, goerr + bool \<times> patchPlan) io" where
  "ensureCancelledState E plan =
     (if \<not> Cancelled (plan_Spec plan) then ok (False, plan)
      else if planPhase plan \<noteq> PatchPhaseCancelled then do {
        now \<leftarrow> timeNow E;
        ifOk (updateStatus E plan (\<lambda>s. s\<lparr>ps_Phase := PatchPhaseCancelled,
            ps_Message := ''Patching cancelled by user'', ps_CompletionTime := Some now\<rparr>))
          (\<lambda>p. ok (True, p))
      }
      else ok (True, plan))"

definition ensurePauseState :: "('v, 's) env \<Rightarrow> patchPlan \<Rightarrow> int \<Rightarrow> ('s, goerr + bool \<times> patchPlan) io" where
  "ensurePauseState E plan failedCount =
     (if Paused (plan_Spec plan) then
        (if planPhase plan \<noteq> PatchPhasePaused then
           ifOk (updateStatus E plan (\<lambda>s. s\<lparr>ps_Phase := PatchPhasePaused, ps_Message := ''Patching paused by user''\<rparr>))
             (\<lambda>p. ok (True, p))
         else ok (True, plan))
      else if planPhase plan = PatchPhasePaused then
        (let acknowledge = policy_Type (FailurePolicy (plan_Spec plan)) = FailurePolicyPause \<and>
               Exceeded (FailurePolicy (plan_Spec plan)) (newFailures plan failedCount) in
         ifOk (updateStatus E plan (\<lambda>s.
             let s2 = s\<lparr>ps_Phase := PatchPhaseInProgress, ps_Message := ''Resuming patching operation''\<rparr>
             in if acknowledge then s2\<lparr>FailuresAcknowledged := failedCount\<rparr> else s2))
           (\<lambda>p. ok (False, p)))
      else ok (False, plan))"

section \<open>Failures and completion\<close>

definition pauseOnFailures :: "('v, 's) env \<Rightarrow> patchPlan \<Rightarrow> int \<Rightarrow> ('s, goerr + patchPlan) io" where
  "pauseOnFailures E plan failedCount =
     (let mark = (\<lambda>p. updateStatus E p (\<lambda>s. s\<lparr>ps_Phase := PatchPhasePaused,
            ps_Message := ''Paused by failure policy: '' @ showInt failedCount
              @ '' failed node(s). Inspect or delete the failed PatchJobs, then set spec.paused=false to resume''\<rparr>))
      in if \<not> Paused (plan_Spec plan) then do {
           r \<leftarrow> patchPlanObject E plan (plan\<lparr>plan_Spec := (plan_Spec plan)\<lparr>Paused := True\<rparr>\<rparr>);
           (case r of
              Inl err \<Rightarrow> return (Inl (wrapErr ''failed to pause PatchPlan'' err))
            | Inr p \<Rightarrow> mark p)
         }
         else mark plan)"

definition failureBudgetExceeded :: "('v, 's) env \<Rightarrow> patchPlan \<Rightarrow> int \<Rightarrow> ('s, goerr + bool \<times> patchPlan) io" where
  "failureBudgetExceeded E plan failedCount =
     (let policy = FailurePolicy (plan_Spec plan) in
      if \<not> Exceeded policy (newFailures plan failedCount) then ok (False, plan)
      else if policy_Type policy = FailurePolicyPause then
        ifOk (pauseOnFailures E plan failedCount) (\<lambda>p. ok (True, p))
      else if planPhase plan \<noteq> PatchPhaseFailed then do {
        now \<leftarrow> timeNow E;
        ifOk (updateStatus E plan (\<lambda>s. s\<lparr>ps_Phase := PatchPhaseFailed,
            ps_Message := ''failure policy Halt: '' @ showInt failedCount @ '' failed node(s), maxFailures ''
              @ showInt (MaxFailures policy),
            ps_CompletionTime := Some now\<rparr>))
          (\<lambda>p. ok (True, p))
      }
      else ok (True, plan))"

definition allNodesProcessed ::
  "('v, 's) env \<Rightarrow> patchPlan \<Rightarrow> jobCounts \<Rightarrow> nat \<Rightarrow> ('s, goerr + bool \<times> patchPlan) io" where
  "allNodesProcessed E plan jobSummary totalNodes =
     (if jc_Completed jobSummary + jc_Failed jobSummary < int totalNodes then ok (False, plan)
      else if planPhase plan \<noteq> PatchPhaseCompleted then do {
        now \<leftarrow> timeNow E;
        ifOk (updateStatus E plan (\<lambda>s. s\<lparr>ps_Phase := PatchPhaseCompleted, ps_Message := ''all nodes processed'',
            ps_CompletionTime := Some now\<rparr>))
          (\<lambda>p. ok (True, p))
      }
      else ok (True, plan))"

section \<open>Reconcile\<close>

text \<open>The end of \<open>Reconcile\<close>: wait for a maintenance window, or schedule.\<close>

definition waitForWindow :: "('v, 's) env \<Rightarrow> patchPlan \<Rightarrow> ('s, ctrlResult) io" where
  "waitForWindow E plan = do {
     now \<leftarrow> timeNow E;
     (case NextMaintenanceWindow (Maintenance (plan_Spec plan)) now of
        Inl err \<Rightarrow>
          orReturn (setMessage E plan (''Outside maintenance window and no window found: '' @ errText err))
            (\<lambda>_. return (15 * minute, None))
      | Inr nextWindow \<Rightarrow>
          orReturn (setMessage E plan (''Waiting for maintenance window opening at '' @ formatRFC3339 nextWindow))
            (\<lambda>_. do {
              now2 \<leftarrow> timeNow E;
              return (max (nextWindow - now2) second, None)
            }))
   }"

definition scheduleInWindow ::
  "('v, 's) env \<Rightarrow> patchPlan \<Rightarrow> rollout \<Rightarrow> jobMap \<Rightarrow> counts \<Rightarrow> ('s, ctrlResult) io" where
  "scheduleInWindow E plan r jobsByNode active = do {
     now \<leftarrow> timeNow E;
     (if \<not> fst (IsInMaintenanceWindow (Maintenance (plan_Spec plan)) now) then waitForWindow E plan
      else scheduleNodes E plan r jobsByNode active)
   }"

definition advancePlan ::
  "('v, 's) env \<Rightarrow> patchPlan \<Rightarrow> rollout \<Rightarrow> jobMap \<Rightarrow> counts \<Rightarrow> jobCounts \<Rightarrow> ('s, ctrlResult) io" where
  "advancePlan E plan0 r jobsByNode active jobSummary =
     orReturn (ensureCancelledState E plan0) (\<lambda>(cancelled, plan1).
       if cancelled then terminalResult E plan1
       else orReturn (ensurePauseState E plan1 (jc_Failed jobSummary)) (\<lambda>(paused, plan2).
         if paused then return (requeueWhenPaused, None)
         else orReturn (ensurePreflight E plan2 r jobsByNode) (\<lambda>(preflightPassed, plan3).
           if \<not> preflightPassed then return (requeueWhenPreflightFailed, None)
           else orReturn (ensureKubeProxy E plan3 r jobsByNode) (\<lambda>(wait, plan4).
             if wait > 0 then return (wait, None)
             else orReturn (failureBudgetExceeded E plan4 (jc_Failed jobSummary)) (\<lambda>(exceeded, plan5).
               if exceeded then terminalResult E plan5
               else orReturn (allNodesProcessed E plan5 jobSummary (Total r)) (\<lambda>(allProcessed, plan6).
                 if allProcessed then terminalResult E plan6
                 else scheduleInWindow E plan6 r jobsByNode active))))))"

text \<open>The counts and the target shown in the status.\<close>

definition summarizePlan :: "patchPlan \<Rightarrow> rollout \<Rightarrow> jobMap \<Rightarrow> counts \<Rightarrow> jobCounts \<times> patchPlan" where
  "summarizePlan plan r jobsByNode active =
     (case summarize plan r jobsByNode active of (jobSummary, p) \<Rightarrow>
        (jobSummary, withStatus p (\<lambda>s. s\<lparr>
           FailuresAcknowledged := min (FailuresAcknowledged s) (jc_Failed jobSummary),
           ps_TargetTalosVersion := TalosVersion (Target (plan_Spec p)),
           ps_TargetKubernetesVersion := KubernetesVersion (Target (plan_Spec p))\<rparr>)))"

text \<open>From the resolved rollout on.\<close>

definition reconcileRollout :: "('v, 's) env \<Rightarrow> patchPlan \<Rightarrow> rollout \<Rightarrow> ('s, ctrlResult) io" where
  "reconcileRollout E plan r =
     orReturn (listPatchJobs E (plan_Name plan)) (\<lambda>jobs.
       let jobsByNode = indexJobs jobs in
       orReturn (syncLeases E plan r jobs) (\<lambda>active.
         case summarizePlan plan r jobsByNode active of (jobSummary, counted) \<Rightarrow>
           if plan_Status plan \<noteq> plan_Status counted then
             orReturn (patchPlanStatus E plan counted) (\<lambda>p. advancePlan E p r jobsByNode active jobSummary)
           else advancePlan E counted r jobsByNode active jobSummary))"

definition reconcilePlan :: "('v, 's) env \<Rightarrow> patchPlan \<Rightarrow> ('s, ctrlResult) io" where
  "reconcilePlan E plan0 =
     orReturn (applyRetention E plan0) (\<lambda>(purged, plan).
       if purged then return (0, None)
       else orReturn (ListMatchingNodes E (NodeSelector (plan_Spec plan))) (\<lambda>nodes.
         case Resolve E nodes (plan_Spec plan) of
           Inl err \<Rightarrow> failInvalidStrategy E plan err
         | Inr r \<Rightarrow> reconcileRollout E plan r))"

definition Reconcile :: "('v, 's) env \<Rightarrow> string \<Rightarrow> ('s, ctrlResult) io" where
  "Reconcile E name = do {
     g \<leftarrow> getPlan E name;
     (case g of
        Inl err \<Rightarrow> if isNotFound err then return (0, None) else return (0, Some err)
      | Inr plan \<Rightarrow>
          (case AutoUpdate (Target (plan_Spec plan)) of
             Some spec \<Rightarrow>
               if IsAutoUpdateTemplate plan then reconcileAutoUpdate E plan spec else reconcilePlan E plan
           | None \<Rightarrow> reconcilePlan E plan))
   }"

end
