(* ===== verification/PlanCalls.thy ===== *)
theory PlanCalls imports PatchPlan begin

text \<open>
  The calls each function of the plan controller can make, ending in one predicate for a whole
  reconcile: reads, Leases, jobs, child plans, the status of the plan and the kube-proxy image, but
  never a node, a pod or a machine.
\<close>

section \<open>Reading\<close>

definition inspects :: "('v, 's) env \<Rightarrow> event \<Rightarrow> bool" where
  "inspects E e = (case e of
      EvNow _ \<Rightarrow> True
    | EvListNodes _ _ \<Rightarrow> True
    | EvListPlans _ \<Rightarrow> True
    | EvListChildPlans _ _ \<Rightarrow> True
    | EvGetSecret ns _ _ \<Rightarrow> ns = operatorNamespace E
    | EvTalosDial _ _ _ \<Rightarrow> True
    | EvTalosClose _ \<Rightarrow> True
    | EvTalosVersion _ _ \<Rightarrow> True
    | EvTalosExtensions _ _ \<Rightarrow> True
    | EvServerVersion _ \<Rightarrow> True
    | EvReadyz _ \<Rightarrow> True
    | EvHttpHead _ _ _ \<Rightarrow> True
    | EvHttpGet _ _ \<Rightarrow> True
    | _ \<Rightarrow> False)"

lemma inspects_simps [simp]:
  "inspects E (EvNow t)" "inspects E (EvListNodes sel rn)" "inspects E (EvListPlans rp)"
  "inspects E (EvListChildPlans a rp)" "inspects E (EvGetSecret ns a rs) \<longleftrightarrow> ns = operatorNamespace E"
  "inspects E (EvTalosDial xs tls ro)" "inspects E (EvTalosClose ro)" "inspects E (EvTalosVersion an rv)"
  "inspects E (EvTalosExtensions a re)" "inspects E (EvServerVersion rss)" "inspects E (EvReadyz ro)"
  "inspects E (EvHttpHead a b rh)" "inspects E (EvHttpGet a rg)"
  by (simp_all add: inspects_def)

lemma inspects_openTalos: "emits (inspects E) (openTalos E plan)"
  by (intro emits_rules) simp_all

lemma inspects_probeNode: "emits (inspects E) (probeNode E n s)"
  unfolding probeNode_def Let_def by (intro emits_rules) simp_all

lemma inspects_probeAll: "emits (inspects E) (probeAll E s ns)"
  by (induction ns) (auto intro!: emits_rules inspects_probeNode)

lemma inspects_conflictLoop: "emits (inspects E) (conflictLoop E plan mine k res others)"
proof (induction others arbitrary: k res)
  case Nil
  show ?case by (simp add: emits_ok)
next
  case (Cons p ps)
  then show ?case by (auto simp: Let_def intro!: emits_rules split: sum.split)
qed

lemma inspects_checkTalosNodes: "emits (inspects E) (checkTalosNodes E plan ns res)"
  unfolding checkTalosNodes_def Let_def
  by (intro emits_rules inspects_openTalos inspects_probeAll) simp_all

lemma inspects_checkImages: "emits (inspects E) (checkImages E reason a b c imgs res)"
  by (induction imgs arbitrary: res) (auto intro!: emits_rules)

lemma inspects_runPreflight: "emits (inspects E) (runPreflight E plan r)"
  unfolding runPreflight_def checkAPIServerSkew_def checkConflictingPlans_def checkKubernetesAPI_def
    checkTalosImages_def checkKubernetesImages_def Let_def
  by (intro emits_rules inspects_conflictLoop inspects_checkTalosNodes inspects_checkImages) simp_all

lemma inspects_lowestLoop: "emits (inspects E) (lowestLoop E low ns)"
  by (induction ns arbitrary: low) (auto intro!: emits_rules inspects_probeNode split: sum.split)

lemma inspects_lowestTalosVersion: "emits (inspects E) (lowestTalosVersion E plan ns)"
  unfolding lowestTalosVersion_def
  by (intro emits_rules inspects_openTalos inspects_lowestLoop) simp_all

lemma inspects_checkForRelease: "emits (inspects E) (checkForRelease E plan spec)"
  unfolding checkForRelease_def Let_def
  by (intro emits_rules inspects_lowestTalosVersion) simp_all

section \<open>Writing\<close>

text \<open>The phases from which a plan may move to \<open>InProgress\<close>: not started, finished or paused.\<close>

definition mayStart :: "patchPhase \<Rightarrow> bool" where
  "mayStart p \<longleftrightarrow> p \<in> {PatchPhaseNone, PatchPhasePending, PatchPhaseFailed, PatchPhaseCompleted,
     PatchPhaseCancelled, PatchPhasePaused}"

definition planStep :: "patchPhase \<Rightarrow> patchPhase \<Rightarrow> bool" where
  "planStep p q \<longleftrightarrow> p = q \<or>
     (case q of
        PatchPhaseNone \<Rightarrow> False
      | PatchPhasePreflighting \<Rightarrow> p \<in> {PatchPhaseNone, PatchPhasePending}
      | PatchPhaseInProgress \<Rightarrow> mayStart p
      | _ \<Rightarrow> True)"

definition planEvent :: "('v, 's) env \<Rightarrow> event \<Rightarrow> bool" where
  "planEvent E e = (case e of
      EvListJobs _ _ \<Rightarrow> True
    | EvListLeases ns _ _ \<Rightarrow> ns = operatorNamespace E
    | EvGetDaemonSet ns n _ \<Rightarrow> ns = kubeProxyNamespace \<and> n = kubeProxyDaemonSetName
    | EvPatchDaemonSet d d2 _ \<Rightarrow>
        (\<exists>v. d2 = d\<lparr>ContainerImages := BuildKubeProxyImage v # tl (ContainerImages d)\<rparr>)
    | EvPatchPlanStatus b m _ \<Rightarrow> (\<exists>f. m = withStatus b f) \<and> planStep (planPhase b) (planPhase m)
    | EvPatchPlan b m _ \<Rightarrow> policy_Type (FailurePolicy (plan_Spec b)) = FailurePolicyPause \<and>
        m = b\<lparr>plan_Spec := (plan_Spec b)\<lparr>Paused := True\<rparr>\<rparr>
    | EvCreateJob j _ \<Rightarrow> (\<exists>p n grp. setOwnerOfJob E p (newPatchJob p n grp) = Inr j)
    | EvDeleteJob j _ \<Rightarrow> IsTerminal (jobPhase j)
    | EvCreateLease l _ \<Rightarrow>
        (\<exists>j grp t. setOwnerOfLease E j (leaseOf (operatorNamespace E) j grp t) = Inr l)
    | EvDeleteLease l _ \<Rightarrow> True
    | EvCreatePlan c _ \<Rightarrow> (\<exists>p v. setOwnerOfPlan E p (childPlan p v) = Inr c)
    | _ \<Rightarrow> inspects E e)"

lemma planEvent_inspects: "inspects E e \<Longrightarrow> planEvent E e"
  by (cases e) (simp_all add: inspects_def planEvent_def)

lemma planEvent_simps [simp]:
  "planEvent E (EvNow t)" "planEvent E (EvListJobs a rj)" "planEvent E (EvListNodes sel rn)"
  "planEvent E (EvListLeases ns a rl) \<longleftrightarrow> ns = operatorNamespace E"
  "planEvent E (EvGetDaemonSet ns a rd) \<longleftrightarrow> ns = kubeProxyNamespace \<and> a = kubeProxyDaemonSetName"
  "planEvent E (EvPatchPlanStatus b m rp) \<longleftrightarrow> (\<exists>f. m = withStatus b f) \<and> planStep (planPhase b) (planPhase m)"
  "planEvent E (EvPatchPlan b m rp) \<longleftrightarrow> policy_Type (FailurePolicy (plan_Spec b)) = FailurePolicyPause \<and>
     m = b\<lparr>plan_Spec := (plan_Spec b)\<lparr>Paused := True\<rparr>\<rparr>"
  "planEvent E (EvDeleteJob j ro) \<longleftrightarrow> IsTerminal (jobPhase j)"
  "planEvent E (EvDeleteLease l ro)" "planEvent E (EvListChildPlans a rq)"
  by (simp_all add: planEvent_def inspects_def)

text \<open>Past the purge of old history no job is deleted, and a plan that is no template creates no plan.\<close>

definition rolloutEvent :: "('v, 's) env \<Rightarrow> event \<Rightarrow> bool" where
  "rolloutEvent E e \<longleftrightarrow> planEvent E e \<and>
     (case e of EvDeleteJob _ _ \<Rightarrow> False | EvCreatePlan _ _ \<Rightarrow> False | _ \<Rightarrow> True)"

lemma rolloutEvent_inspects: "inspects E e \<Longrightarrow> rolloutEvent E e"
  by (cases e) (simp_all add: inspects_def rolloutEvent_def planEvent_def)

lemma rolloutEvent_simps [simp]:
  "rolloutEvent E (EvNow t)" "rolloutEvent E (EvListJobs a rj)" "rolloutEvent E (EvListNodes sel rn)"
  "rolloutEvent E (EvListLeases ns a rl) \<longleftrightarrow> ns = operatorNamespace E"
  "rolloutEvent E (EvGetDaemonSet ns a rd) \<longleftrightarrow> ns = kubeProxyNamespace \<and> a = kubeProxyDaemonSetName"
  "rolloutEvent E (EvPatchPlanStatus b m rp) \<longleftrightarrow> (\<exists>f. m = withStatus b f) \<and> planStep (planPhase b) (planPhase m)"
  "rolloutEvent E (EvPatchPlan b m rp) \<longleftrightarrow> policy_Type (FailurePolicy (plan_Spec b)) = FailurePolicyPause \<and>
     m = b\<lparr>plan_Spec := (plan_Spec b)\<lparr>Paused := True\<rparr>\<rparr>"
  "rolloutEvent E (EvDeleteLease l ro)" "rolloutEvent E (EvListChildPlans a rq)"
  by (simp_all add: rolloutEvent_def)

lemmas emits_inspects = emits_mono [OF _ rolloutEvent_inspects]

lemma planStep_refl [simp]: "planStep p p"
  by (simp add: planStep_def)

lemma withStatus_ex [simp]: "\<exists>f. withStatus p g = withStatus p f"
  by blast

lemma emits_planStatus:
  "planStep (planPhase plan) (ps_Phase (mutate (plan_Status plan))) \<Longrightarrow> emits (rolloutEvent E) (updateStatus E plan mutate)"
  by (intro emits_rules) simp

lemma emits_planMessage: "emits (rolloutEvent E) (setMessage E plan msg)"
  by (intro emits_rules) simp

lemma emits_planAcquire: "emits (rolloutEvent E) (acquireLease E j grp)"
  by (intro emits_rules) (auto simp: rolloutEvent_def planEvent_def)

lemma emits_planSync: "emits (rolloutEvent E) (syncLeases E plan r jobs)"
  by (intro emits_rules) (auto simp: rolloutEvent_def planEvent_def)

lemma emits_createPatchJob: "emits (rolloutEvent E) (createPatchJob E plan n grp)"
  unfolding createPatchJob_def
  by (intro emits_rules emits_planAcquire) (auto simp: rolloutEvent_def planEvent_def inspects_def)

lemma emits_waitForControlPlane: "emits (rolloutEvent E) (waitForControlPlane E plan r jobsByNode n)"
  unfolding waitForControlPlane_def Let_def by (intro emits_rules emits_planMessage)

lemma emits_scheduleLoop: "emits (rolloutEvent E) (scheduleLoop E plan r jobsByNode grp k ns)"
proof (induction ns arbitrary: plan k)
  case Nil
  show ?case by (simp add: emits_return)
next
  case (Cons n ns)
  then show ?case
    by (auto intro!: emits_orReturn emits_if emits_return emits_waitForControlPlane emits_createPatchJob)
qed

lemma emits_markInProgress: "emits (rolloutEvent E) (markInProgress E plan)"
  unfolding markInProgress_def
  by (intro emits_rules) (auto simp: planStep_def mayStart_def)

lemma emits_scheduleNodes: "emits (rolloutEvent E) (scheduleNodes E plan r jobsByNode active)"
  unfolding scheduleNodes_def scheduleGroup_def delayRemaining_def Let_def
  by (intro emits_rules emits_scheduleLoop emits_markInProgress) simp_all

lemma emits_ensureKubeProxy: "emits (rolloutEvent E) (ensureKubeProxy E plan r jobsByNode)"
  unfolding ensureKubeProxy_def ensureKubeProxyUpgraded_def Let_def
  by (intro emits_rules emits_planMessage)
     (auto simp: rolloutEvent_def planEvent_def inspects_def split: list.split intro!: emits_rules)

section \<open>A reconcile\<close>

lemma emits_ensurePreflight: "emits (rolloutEvent E) (ensurePreflight E plan r jobsByNode)"
  unfolding ensurePreflight_def recordPreflight_def Let_def
  by (intro emits_rules emits_planStatus emits_inspects [OF inspects_runPreflight])
     (auto simp: planStep_def)

lemma emits_ensureCancelledState: "emits (rolloutEvent E) (ensureCancelledState E plan)"
  unfolding ensureCancelledState_def
  by (intro emits_rules emits_planStatus) (auto simp: planStep_def)

lemma emits_ensurePauseState: "emits (rolloutEvent E) (ensurePauseState E plan failedCount)"
  unfolding ensurePauseState_def Let_def
  by (intro emits_rules emits_planStatus) (auto simp: planStep_def mayStart_def)

lemma emits_failureBudgetExceeded: "emits (rolloutEvent E) (failureBudgetExceeded E plan failedCount)"
  unfolding failureBudgetExceeded_def pauseOnFailures_def Let_def
  by (intro emits_rules emits_planStatus) (auto simp: planStep_def)

lemma emits_allNodesProcessed: "emits (rolloutEvent E) (allNodesProcessed E plan c k)"
  unfolding allNodesProcessed_def
  by (intro emits_rules emits_planStatus) (auto simp: planStep_def)

lemma emits_scheduleInWindow: "emits (rolloutEvent E) (scheduleInWindow E plan r jobsByNode active)"
  unfolding scheduleInWindow_def waitForWindow_def
  by (intro emits_rules emits_planMessage emits_scheduleNodes) simp_all

lemma emits_advancePlan: "emits (rolloutEvent E) (advancePlan E plan r jobsByNode active c)"
  unfolding advancePlan_def
  by (intro emits_rules emits_ensureCancelledState emits_ensurePauseState emits_ensurePreflight
      emits_ensureKubeProxy emits_failureBudgetExceeded emits_allNodesProcessed emits_scheduleInWindow) simp_all

lemma summarizePlan_withStatus:
  "summarizePlan plan r jobsByNode active = (c, p) \<Longrightarrow> (\<exists>f. p = withStatus plan f) \<and> planPhase p = planPhase plan"
proof -
  assume A: "summarizePlan plan r jobsByNode active = (c, p)"
  have compose: "\<exists>h. withStatus (withStatus q f) g = withStatus q h" for q f g
    by (intro exI [of _ "\<lambda>s. g (f s)"]) (simp add: withStatus_def)
  show ?thesis
    using A compose by (auto simp: summarizePlan_def summarize_def Let_def)
qed

lemma emits_reconcileRollout: "emits (rolloutEvent E) (reconcileRollout E plan r)"
proof -
  have count: "emits (rolloutEvent E) (case summarizePlan plan r m a of (c, counted) \<Rightarrow>
      if plan_Status plan \<noteq> plan_Status counted
      then orReturn (patchPlanStatus E plan counted) (\<lambda>p. advancePlan E p r m a c)
      else advancePlan E counted r m a c)" for m a
    using summarizePlan_withStatus [of plan r m a]
    by (cases "summarizePlan plan r m a") (auto intro!: emits_rules emits_advancePlan)
  show ?thesis
    unfolding reconcileRollout_def listPatchJobs_def Let_def
    by (intro emits_orReturn emits_planSync count) (auto intro!: emits_rules)
qed

lemma planEvent_rollout: "rolloutEvent E e \<Longrightarrow> planEvent E e"
  by (simp add: rolloutEvent_def)

lemmas emits_planned = emits_mono [OF _ planEvent_rollout]

lemma emits_failInvalidStrategy: "emits (rolloutEvent E) (failInvalidStrategy E plan cause)"
  unfolding failInvalidStrategy_def
  by (intro emits_rules emits_planStatus) (auto simp: planStep_def)

text \<open>Everything \<open>reconcilePlan\<close> does after the purge.\<close>

lemma emits_resolved:
  "emits (rolloutEvent E) (orReturn (ListMatchingNodes E (NodeSelector (plan_Spec plan))) (\<lambda>nodes.
     case Resolve E nodes (plan_Spec plan) of
       Inl err \<Rightarrow> failInvalidStrategy E plan err
     | Inr r \<Rightarrow> reconcileRollout E plan r))"
  by (intro emits_rules emits_failInvalidStrategy emits_reconcileRollout) simp

lemma emits_reconcilePlan: "emits (planEvent E) (reconcilePlan E plan)"
  unfolding reconcilePlan_def
  by (intro emits_rules emits_planned [OF emits_resolved]) (auto simp: planStep_def)

lemma emits_updateTemplateStatus:
  "planStep (planPhase plan) phase \<Longrightarrow> emits (rolloutEvent E) (updateTemplateStatus E plan phase msg mutate)"
  unfolding updateTemplateStatus_def Let_def by (intro emits_rules) simp

lemma emits_watch: "emits (rolloutEvent E) (updateTemplateStatus E plan PatchPhaseWatching msg mutate)"
  by (rule emits_updateTemplateStatus) (simp add: planStep_def)

lemma emits_rollOut: "emits (planEvent E) (rollOut E plan spec current result)"
  unfolding rollOut_def createChildPlan_def Let_def
  by (intro emits_rules) (auto simp: planEvent_def inspects_def)

lemma emits_watchReleases: "emits (planEvent E) (watchReleases E plan spec interval)"
  unfolding watchReleases_def checkWhenDue_def checkAndRollOut_def Let_def
  by (intro emits_rules emits_planned [OF emits_watch] emits_rollOut emits_planned [OF emits_inspects [OF inspects_checkForRelease]]) simp_all

lemma emits_reconcileAutoUpdate: "emits (planEvent E) (reconcileAutoUpdate E plan spec)"
  unfolding reconcileAutoUpdate_def Let_def
  by (intro emits_rules emits_watchReleases emits_planned [OF emits_updateTemplateStatus]) (simp_all add: planStep_def)

lemma Reconcile_trace:
  "runs [] (Reconcile E name) (\<lambda>_ es. case es of
      EvGetPlan n _ # rest \<Rightarrow> n = name \<and> list_all (planEvent E) rest
    | _ \<Rightarrow> False)"
proof -
  have "runs ([] @ [EvGetPlan name g]) m (\<lambda>_ es. case es of
      EvGetPlan n _ # rest \<Rightarrow> n = name \<and> list_all (planEvent E) rest | _ \<Rightarrow> False)"
    if "emits (planEvent E) m" for g m
    by (rule runs_emits [OF that]) simp
  note rest = this
  show ?thesis
    unfolding Reconcile_def
    by (rule runs_bind, rule runs_perform, rule rest)
       (intro emits_rules emits_reconcileAutoUpdate emits_reconcilePlan)
qed

end
