(* ===== verification/PlanTraces.thy ===== *)
theory PlanTraces imports PlanCalls begin

text \<open>
  What a reconcile of a plan has established when it creates a job: the calls it makes are collected
  per function in facts of the form \<open>runs [] m P\<close> (from an empty history) and put together with
  the frame rules of the first section.
\<close>

section \<open>Framing\<close>

lemma runs_seq:
  assumes "runs [] m P" and "\<And>a es. P a es \<Longrightarrow> runs (h @ es) (f a) Q"
  shows "runs h (State_Monad.bind m f) Q"
  using assms by (intro runs_bind) (rule runs_frame)

lemma runs_thenOk:
  assumes "runs [] m P" and "\<And>e es. P (Inl e) es \<Longrightarrow> Q (Inl e) (h @ es)"
    and "\<And>a es. P (Inr a) es \<Longrightarrow> runs (h @ es) (f a) Q"
  shows "runs h (ifOk m f) Q"
  by (rule runs_ifOk, rule runs_frame [OF assms(1)]) (auto intro: assms split: sum.splits)

lemma runs_thenReturn:
  assumes "runs [] m P" and "\<And>e es. P (Inl e) es \<Longrightarrow> Q (0, Some e) (h @ es)"
    and "\<And>a es. P (Inr a) es \<Longrightarrow> runs (h @ es) (f a) Q"
  shows "runs h (orReturn m f) Q"
  by (rule runs_orReturn, rule runs_frame [OF assms(1)]) (auto intro: assms split: sum.splits)

section \<open>Created jobs\<close>

fun createdJobs :: "event list \<Rightarrow> patchJob list" where
  "createdJobs [] = []"
| "createdJobs (e # es) = (case e of EvCreateJob j _ \<Rightarrow> j # createdJobs es | _ \<Rightarrow> createdJobs es)"

definition creates :: "event \<Rightarrow> bool" where
  "creates e = (case e of EvCreateJob _ _ \<Rightarrow> True | _ \<Rightarrow> False)"

lemma createdJobs_append [simp]: "createdJobs (es @ es') = createdJobs es @ createdJobs es'"
  by (induction es) (auto split: event.split)

lemma createdJobs_Cons: "createdJobs (e # es) = (if creates e then createdJobs [e] else []) @ createdJobs es"
  by (cases e) (simp_all add: creates_def)

lemma createdJobs_Nil: "createdJobs es = [] \<longleftrightarrow> list_all (\<lambda>e. \<not> creates e) es"
proof (induction es)
  case (Cons e es)
  then show ?case by (cases e) (simp_all add: creates_def)
qed simp

lemma creates_simps [simp]:
  "\<not> creates (EvNow t)" "\<not> creates (EvGetDaemonSet a b rd)" "\<not> creates (EvListNodes sel rl)"
  "\<not> creates (EvListJobs a rj)" "\<not> creates (EvListLeases a b rx)" "\<not> creates (EvListPlans rp)"
  "\<not> creates (EvListChildPlans a rp)" "\<not> creates (EvPatchPlanStatus p q rs)" "\<not> creates (EvPatchPlan p q rs)"
  "\<not> creates (EvPatchDaemonSet d d2 ro)" "\<not> creates (EvDeleteJob j ro)" "\<not> creates (EvCreateLease l ro)"
  "\<not> creates (EvDeleteLease l ro)" "\<not> creates (EvTalosDial ns tls ro)" "\<not> creates (EvTalosClose ro)"
  "\<not> creates (EvTalosVersion an rv)" "\<not> creates (EvTalosExtensions a re)" "\<not> creates (EvServerVersion rss)"
  "\<not> creates (EvReadyz ro)" "\<not> creates (EvHttpHead a b rh)" "\<not> creates (EvHttpGet a rg)"
  "\<not> creates (EvGetSecret a b rsec)" "\<not> creates (EvCreatePlan p ro)" "creates (EvCreateJob j rc)"
  by (simp_all add: creates_def)

lemma runs_quiet: "emits (\<lambda>e. \<not> creates e) m \<Longrightarrow> runs [] m (\<lambda>_ es. createdJobs es = [])"
  by (rule runs_emits) (simp_all add: createdJobs_Nil)

text \<open>A version of a plan is the plan itself or an answer of the API server to a write of it.\<close>

definition answered :: "event \<Rightarrow> patchPlan \<Rightarrow> bool" where
  "answered e p = (case e of
      EvPatchPlanStatus _ _ (Inr q) \<Rightarrow> q = p
    | EvPatchPlan _ _ (Inr q) \<Rightarrow> q = p
    | _ \<Rightarrow> False)"

definition version :: "patchPlan \<Rightarrow> event list \<Rightarrow> patchPlan \<Rightarrow> bool" where
  "version plan es p \<longleftrightarrow> p = plan \<or> list_ex (\<lambda>e. answered e p) es"

lemma answered_simps [simp]:
  "answered (EvPatchPlanStatus b m (Inr q)) p \<longleftrightarrow> q = p" "answered (EvPatchPlan b m (Inr q)) p \<longleftrightarrow> q = p"
  by (simp_all add: answered_def)

lemma version_self [simp]: "version plan es plan"
  by (simp add: version_def)

lemma version_Cons: "version plan (e # es) p \<longleftrightarrow> answered e p \<or> version plan es p"
  by (auto simp: version_def)

lemma version_append: "version plan (es @ es') p \<longleftrightarrow> version plan es p \<or> version plan es' p"
  by (auto simp: version_def)

lemma version_trans: "version plan es p \<Longrightarrow> version p es' q \<Longrightarrow> version plan (es @ es') q"
  by (auto simp: version_def)

section \<open>Scheduling\<close>

text \<open>
  A job created for node \<open>n\<close> in group \<open>grp\<close>: the job of some plan \<open>p\<close>, and if that plan upgrades
  Kubernetes the node is of the control plane or the jobs of the whole control plane are completed.
\<close>

definition createdFor :: "('v, 'm) klib_scheme \<Rightarrow> rollout \<Rightarrow> jobMap \<Rightarrow> string \<Rightarrow> node \<Rightarrow> patchJob \<Rightarrow> bool" where
  "createdFor K r jobsByNode grp n j \<longleftrightarrow>
     (\<exists>p. setOwnerOfJob K p (newPatchJob p n grp) = Inr j \<and>
        (KubernetesVersion (Target (plan_Spec p)) = '''' \<or> IsControlPlane n \<or>
         allNodesCompleted (ControlPlaneNodes r) jobsByNode))"

lemma waitForControlPlane_outcome:
  "runs [] (waitForControlPlane E plan r jobsByNode n) (\<lambda>res es. createdJobs es = [] \<and>
     (case res of Inl _ \<Rightarrow> True
      | Inr (wait, p) \<Rightarrow> wait = 0 \<and> p = plan \<and>
            (KubernetesVersion (Target (plan_Spec p)) = '''' \<or> IsControlPlane n \<or>
             allNodesCompleted (ControlPlaneNodes r) jobsByNode) \<or>
          wait = requeueWhenJobsInProgress))"
  unfolding waitForControlPlane_def setMessage_def Let_def
  by (intro runs_rules) (auto simp: allNodesCompleted_def intro!: runs_rules split: sum.splits)

lemma emits_createPatchJob_lease:
  "runs [] (acquireLease E j grp) (\<lambda>_ es. createdJobs es = [])"
  by (rule runs_quiet) (intro emits_rules; simp)

lemma createPatchJob_outcome:
  "runs [] (createPatchJob E plan n grp) (\<lambda>res es.
     (isl res \<and> createdJobs es = []) \<or>
     (\<exists>j. setOwnerOfJob E plan (newPatchJob plan n grp) = Inr j \<and> createdJobs es = [j]))"
  unfolding createPatchJob_def
  by (intro runs_rules)
     (auto intro!: runs_frame [OF emits_createPatchJob_lease] runs_rules split: sum.splits)

lemma scheduleLoop_outcome:
  "runs [] (scheduleLoop E plan r jobsByNode grp k ns) (\<lambda>_ es.
     \<exists>m. list_all2 (createdFor E r jobsByNode grp) (take m ns) (createdJobs es))"
proof (induction ns arbitrary: plan k)
  case Nil
  show ?case by (auto intro!: runs_rules)
next
  case (Cons n ns)
  show ?case
  proof (simp only: scheduleLoop.simps, rule runs_thenReturn [OF waitForControlPlane_outcome], goal_cases)
    case (1 e es)
    then show ?case by (intro exI [of _ 0]) simp
  next
    case (2 a es)
    let ?Q = "\<lambda>(_ :: ctrlResult) es. \<exists>m. list_all2 (createdFor E r jobsByNode grp) (take m (n # ns)) (createdJobs es)"
    obtain wait p where a: "a = (wait, p)" by fastforce
    have none: "?Q res es'" if "createdJobs es' = []" for res es'
      using that by (intro exI [of _ 0]) simp
    show ?case
    proof (cases "wait > 0")
      case True
      then show ?thesis using 2 none by (auto simp: a intro!: runs_return)
    next
      case False
      then have gate: "KubernetesVersion (Target (plan_Spec p)) = [] \<or> IsControlPlane n \<or>
          allNodesCompleted (ControlPlaneNodes r) jobsByNode" and es: "createdJobs es = []"
        using 2 by (auto simp: a plan_requeue_defs)
      have "runs es (orReturn (createPatchJob E p n grp) (\<lambda>p2. scheduleLoop E p2 r jobsByNode grp (Suc k) ns)) ?Q"
      proof (rule runs_thenReturn [OF createPatchJob_outcome], goal_cases)
        case (1 e es2)
        then show ?case
        proof
          assume "\<exists>j. setOwnerOfJob E p (newPatchJob p n grp) = Inr j \<and> createdJobs es2 = [j]"
          then show ?thesis using es gate by (intro exI [of _ 1]) (auto simp: createdFor_def)
        qed (auto intro!: none simp: es)
      next
        case C: (2 p2 es2)
        show ?case
        proof (rule runs_frame [OF Cons.IH], elim exE)
          fix res es3 m
          assume "list_all2 (createdFor E r jobsByNode grp) (take m ns) (createdJobs es3)"
          then show "?Q res ((es @ es2) @ es3)"
            using C es gate by (intro exI [of _ "Suc m"]) (auto simp: createdFor_def)
        qed
      qed
      then show ?thesis using False by (simp add: a)
    qed
  qed
qed

text \<open>
  The jobs a schedule run creates: for the first nodes without a job of the first unfinished group, and
  for no more of them than the group has free slots.
\<close>

definition firstUnfinished :: "rollout \<Rightarrow> jobMap \<Rightarrow> rolloutGroup option" where
  "firstUnfinished r jobsByNode = List.find (\<lambda>g. \<not> groupFinished jobsByNode g) (rollout_Groups r)"

definition scheduled ::
  "('v, 'm) klib_scheme \<Rightarrow> rollout \<Rightarrow> jobMap \<Rightarrow> counts \<Rightarrow> patchJob list \<Rightarrow> bool" where
  "scheduled K r jobsByNode active created \<longleftrightarrow>
     (case firstUnfinished r jobsByNode of
        None \<Rightarrow> created = []
      | Some g \<Rightarrow> \<exists>m. int m \<le> max 0 (grp_Concurrency g - countOf active (grp_Name g)) \<and>
          list_all2 (createdFor K r jobsByNode (grp_Name g)) (take m (pendingNodes jobsByNode g)) created)"

lemma scheduled_Nil [simp]: "scheduled K r jobsByNode active []"
  by (auto simp: scheduled_def intro!: exI [of _ "0 :: nat"] split: option.split)

lemma delayRemaining_outcome: "runs [] (delayRemaining E plan jobsByNode) (\<lambda>_ es. createdJobs es = [])"
  unfolding delayRemaining_def Let_def by (rule runs_quiet) (intro emits_rules; simp)

lemma markInProgress_outcome:
  "runs [] (markInProgress E plan) (\<lambda>_ es. createdJobs es = [])"
  unfolding markInProgress_def by (rule runs_quiet) (intro emits_rules; simp)

lemma scheduleNodes_outcome:
  "runs [] (scheduleNodes E plan r jobsByNode active) (\<lambda>_ es. scheduled E r jobsByNode active (createdJobs es))"
proof (cases "firstUnfinished r jobsByNode")
  case None
  then show ?thesis by (auto simp: scheduleNodes_def firstUnfinished_def intro!: runs_return)
next
  case (Some g)
  let ?free = "grp_Concurrency g - countOf active (grp_Name g)"
  have "runs [] (scheduleGroup E plan r jobsByNode active g) (\<lambda>_ es. scheduled E r jobsByNode active (createdJobs es))"
    unfolding scheduleGroup_def Let_def
  proof (intro runs_if, goal_cases)
    case 3
    show ?case
    proof (rule runs_seq [OF delayRemaining_outcome], rule runs_if, goal_cases)
      case (2 wait es)
      then show ?case
      proof (intro runs_thenReturn [OF markInProgress_outcome], goal_cases)
        case (2 p es2)
        show ?case
        proof (rule runs_frame [OF scheduleLoop_outcome], elim exE)
          fix res es3 m
          assume "list_all2 (createdFor E r jobsByNode (grp_Name g))
            (take m (take (nat ?free) (pendingNodes jobsByNode g))) (createdJobs es3)"
          then show "scheduled E r jobsByNode active (createdJobs ((([] @ es) @ es2) @ es3))"
            using 2 Some by (auto simp: scheduled_def intro!: exI [of _ "min m (nat ?free)"])
        qed
      qed simp
    qed (auto intro!: runs_return)
  qed (auto intro!: runs_return)
  then show ?thesis using Some by (simp add: scheduleNodes_def firstUnfinished_def)
qed

section \<open>The guards of a reconcile\<close>

text \<open>A stored success of the preflight checks.\<close>

definition preflightRecorded :: "('v, 'm) klib_scheme \<Rightarrow> event \<Rightarrow> bool" where
  "preflightRecorded K e = (case e of
      EvPatchPlanStatus b m (Inr _) \<Rightarrow>
        (\<exists>c. ps_Conditions (plan_Status m) = setCondition K (ps_Conditions (plan_Status b)) c \<and>
          cond_Type c = ConditionPreflightPassed \<and> cond_Status c)
    | _ \<Rightarrow> False)"

text \<open>A stored failure of the checks, a stored completion, and a kube-proxy that is still to be upgraded.\<close>

definition preflightRefused :: "('v, 'm) klib_scheme \<Rightarrow> event \<Rightarrow> bool" where
  "preflightRefused K e = (case e of
      EvPatchPlanStatus b m (Inr _) \<Rightarrow>
        (\<exists>c. ps_Conditions (plan_Status m) = setCondition K (ps_Conditions (plan_Status b)) c \<and>
          cond_Type c = ConditionPreflightPassed \<and> \<not> cond_Status c)
    | _ \<Rightarrow> False)"

definition completionStored :: "event \<Rightarrow> bool" where
  "completionStored e = (case e of EvPatchPlanStatus b m (Inr _) \<Rightarrow> planPhase m = PatchPhaseCompleted | _ \<Rightarrow> False)"

definition awaitsKubeProxy :: "patchPlan \<Rightarrow> rollout \<Rightarrow> jobMap \<Rightarrow> bool" where
  "awaitsKubeProxy plan r jobsByNode \<longleftrightarrow>
     KubernetesVersion (Target (plan_Spec plan)) \<noteq> '''' \<and> \<not> KubeProxyUpgraded (plan_Status plan) \<and>
     ControlPlaneNodes r \<noteq> [] \<and> allNodesCompleted (ControlPlaneNodes r) jobsByNode"

text \<open>
  The outcome of one of the functions that guard the scheduling: no job is created, and if there is no
  error the result is a version of the plan and satisfies \<open>G\<close> together with the answer.
\<close>

definition continues ::
  "patchPlan \<Rightarrow> ('a \<Rightarrow> patchPlan \<Rightarrow> event list \<Rightarrow> bool) \<Rightarrow> (goerr + 'a \<times> patchPlan) \<Rightarrow> event list \<Rightarrow> bool" where
  "continues plan G res es \<longleftrightarrow> createdJobs es = [] \<and>
     (case res of Inl _ \<Rightarrow> True | Inr (a, p) \<Rightarrow> version plan es p \<and> G a p es)"

definition budgetUsed :: "patchPlan \<Rightarrow> int \<Rightarrow> bool" where
  "budgetUsed p failedCount \<longleftrightarrow> Exceeded (FailurePolicy (plan_Spec p)) (newFailures p failedCount)"

lemma ensureCancelledState_outcome:
  "runs [] (ensureCancelledState E plan)
     (continues plan (\<lambda>b p _. if b then Cancelled (plan_Spec plan) else p = plan \<and> \<not> Cancelled (plan_Spec plan)))"
  unfolding ensureCancelledState_def
  by (intro runs_rules) (auto simp: continues_def version_Cons version_append intro!: runs_rules split: sum.split)

lemma ensurePauseState_outcome:
  "runs [] (ensurePauseState E plan failedCount) (continues plan (\<lambda>b _ _. b = Paused (plan_Spec plan)))"
  unfolding ensurePauseState_def Let_def
  by (intro runs_rules) (auto simp: continues_def version_Cons version_append intro!: runs_rules split: sum.split)

lemma preflightRecorded_stored:
  "failures res = [] \<Longrightarrow> preflightRecorded K (EvPatchPlanStatus plan (withStatus plan (\<lambda>s. s\<lparr>
     ps_Conditions := setCondition K (ps_Conditions s) (preflightCondition plan res), ps_Phase := a, ps_Message := b\<rparr>)) (Inr p))"
  by (auto simp: preflightRecorded_def preflightCondition_def)

lemma preflightRefused_stored:
  "failures res \<noteq> [] \<Longrightarrow> preflightRefused K (EvPatchPlanStatus plan (withStatus plan (\<lambda>s. s\<lparr>
     ps_Conditions := setCondition K (ps_Conditions s) (preflightCondition plan res), ps_Phase := a, ps_Message := b\<rparr>)) (Inr p))"
  by (cases "failures res") (auto simp: preflightRefused_def preflightCondition_def)

lemma recordPreflight_outcome:
  "runs [] (recordPreflight E plan r) (continues plan (\<lambda>b _ es.
     (b \<longrightarrow> list_ex (preflightRecorded E) es) \<and> (\<not> b \<longrightarrow> list_ex (preflightRefused E) es)))"
proof -
  have pre: "runs [] (runPreflight E plan r) (\<lambda>_ es. createdJobs es = [])"
    by (rule runs_quiet [OF emits_mono [OF inspects_runPreflight]]) (auto simp: inspects_def creates_def split: event.splits)
  show ?thesis
    unfolding recordPreflight_def Let_def
  proof (rule runs_thenOk [OF pre], goal_cases)
    case (2 res es)
    then show ?case
      by (auto simp: continues_def version_append version_Cons
            intro!: runs_rules preflightRecorded_stored preflightRefused_stored split: sum.split)
  qed (simp add: continues_def)
qed

lemma continues_frame:
  assumes "continues p G res es" and "createdJobs h = []" and "version plan h p"
    and "\<And>a q es. G a q es \<Longrightarrow> H a q (h @ es)"
  shows "continues plan H res (h @ es)"
  using assms version_trans by (fastforce simp: continues_def split: sum.splits)

lemma ensurePreflight_outcome:
  "runs [] (ensurePreflight E plan r jobsByNode) (continues plan (\<lambda>b _ es.
     (b \<longrightarrow> 0 < length jobsByNode \<or> preflightDone E plan \<or> list_ex (preflightRecorded E) es) \<and>
     (\<not> b \<longrightarrow> jobsByNode = [] \<and> list_ex (preflightRefused E) es)))"
proof -
  let ?G = "\<lambda>b (_ :: patchPlan) es.
     (b \<longrightarrow> 0 < length jobsByNode \<or> preflightDone E plan \<or> list_ex (preflightRecorded E) es) \<and>
     (\<not> b \<longrightarrow> jobsByNode = [] \<and> list_ex (preflightRefused E) es)"
  have rec: "runs h (recordPreflight E p r) (continues plan ?G)"
    if "createdJobs h = []" "version plan h p" "jobsByNode = []" for h p
    by (rule runs_frame [OF recordPreflight_outcome], erule continues_frame) (use that in auto)
  have skip: "runs h (ok (True, plan)) (continues plan ?G)"
    if "createdJobs h = []" "0 < length jobsByNode \<or> preflightDone E plan" for h
    by (rule runs_ok) (use that in \<open>auto simp: continues_def\<close>)
  show ?thesis
    unfolding ensurePreflight_def
  proof (intro runs_if, goal_cases)
    case 3
    show ?case
    proof (rule runs_ifOk, rule runs_updateStatus, goal_cases)
      case (1 x)
      show ?case
      proof (cases x)
        case (Inr p)
        then show ?thesis by (simp only: sum.case) (rule rec, use 3 in \<open>simp_all add: version_Cons\<close>)
      qed (simp add: continues_def)
    qed
  qed (rule skip rec; simp)+
qed

lemma ensureKubeProxy_outcome:
  "runs [] (ensureKubeProxy E plan r jobsByNode) (continues plan (\<lambda>wait _ _. 0 < wait \<longrightarrow> awaitsKubeProxy plan r jobsByNode))"
proof -
  have ds: "runs [] (ensureKubeProxyUpgraded E v) (\<lambda>_ es. createdJobs es = [])" for v
    unfolding ensureKubeProxyUpgraded_def Let_def
    by (rule runs_quiet) (auto intro!: emits_rules split: list.split)
  show ?thesis
    unfolding ensureKubeProxy_def setMessage_def Let_def
    by (intro runs_if runs_thenOk [OF ds])
       (auto simp: continues_def version_append version_Cons awaitsKubeProxy_def intro!: runs_rules split: sum.split)
qed

lemma failureBudgetExceeded_outcome:
  "runs [] (failureBudgetExceeded E plan failedCount)
     (continues plan (\<lambda>b p _. b = budgetUsed plan failedCount \<and> (b \<or> p = plan)))"
  unfolding failureBudgetExceeded_def pauseOnFailures_def budgetUsed_def Let_def
  by (intro runs_rules)
     (auto simp: continues_def version_Cons version_append intro!: runs_rules split: sum.split)

definition allDone :: "jobCounts \<Rightarrow> nat \<Rightarrow> bool" where
  "allDone c k \<longleftrightarrow> int k \<le> jc_Completed c + jc_Failed c"

lemma allNodesProcessed_outcome:
  "runs [] (allNodesProcessed E plan c k) (continues plan (\<lambda>b p es. b = allDone c k \<and> (b \<or> p = plan) \<and>
     (b \<longrightarrow> planPhase plan = PatchPhaseCompleted \<or> list_ex completionStored es)))"
  unfolding allNodesProcessed_def allDone_def
  by (intro runs_rules)
     (auto simp: continues_def version_Cons version_append completionStored_def intro!: runs_rules split: sum.split)

definition windowOpen :: "patchPlan \<Rightarrow> event \<Rightarrow> bool" where
  "windowOpen plan e = (case e of
      EvNow t \<Rightarrow> fst (IsInMaintenanceWindow (Maintenance (plan_Spec plan)) t)
    | _ \<Rightarrow> False)"

lemma waitForWindow_outcome: "runs [] (waitForWindow E plan) (\<lambda>_ es. createdJobs es = [])"
  unfolding waitForWindow_def by (rule runs_quiet) (intro emits_rules; simp)

lemma scheduleInWindow_outcome:
  "runs [] (scheduleInWindow E plan r jobsByNode active) (\<lambda>_ es.
     scheduled E r jobsByNode active (createdJobs es) \<and>
     (createdJobs es = [] \<or> list_ex (windowOpen plan) es))"
  unfolding scheduleInWindow_def
proof (rule runs_bind, rule runs_perform, rule runs_if, goal_cases)
  case (1 now)
  show ?case by (rule runs_frame [OF waitForWindow_outcome]) simp
next
  case (2 now)
  then show ?case
    by (intro runs_frame [OF scheduleNodes_outcome]) (simp add: windowOpen_def)
qed

section \<open>The ways through a reconcile\<close>

text \<open>
  After the plan is counted, a reconcile ends with an error, stops because the plan is cancelled, out of
  budget or done, waits, or passes every guard and schedules.
\<close>

definition passedGuards ::
  "('v, 'm) klib_scheme \<Rightarrow> patchPlan \<Rightarrow> jobMap \<Rightarrow> jobCounts \<Rightarrow> nat \<Rightarrow> event list \<Rightarrow> patchPlan \<Rightarrow> bool" where
  "passedGuards K plan jobsByNode c k es p \<longleftrightarrow>
     \<not> Cancelled (plan_Spec plan) \<and> \<not> Paused (plan_Spec plan) \<and>
     (0 < length jobsByNode \<or> (\<exists>q. version plan es q \<and> preflightDone K q) \<or> list_ex (preflightRecorded K) es) \<and>
     \<not> allDone c k \<and> version plan es p \<and> \<not> budgetUsed p (jc_Failed c)"

definition isCompletedPlan :: "patchPlan \<Rightarrow> event list \<Rightarrow> bool" where
  "isCompletedPlan plan es \<longleftrightarrow> (\<exists>q. version plan es q \<and> planPhase q = PatchPhaseCompleted) \<or> list_ex completionStored es"

definition mayStop :: "patchPlan \<Rightarrow> jobCounts \<Rightarrow> nat \<Rightarrow> event list \<Rightarrow> bool" where
  "mayStop plan c k es \<longleftrightarrow>
     Cancelled (plan_Spec plan) \<or> allDone c k \<and> isCompletedPlan plan es \<or>
     (\<exists>q. version plan es q \<and> budgetUsed q (jc_Failed c))"

definition mayHold :: "('v, 'm) klib_scheme \<Rightarrow> patchPlan \<Rightarrow> rollout \<Rightarrow> jobMap \<Rightarrow> event list \<Rightarrow> bool" where
  "mayHold K plan r jobsByNode es \<longleftrightarrow>
     Paused (plan_Spec plan) \<or> jobsByNode = [] \<and> list_ex (preflightRefused K) es \<or>
     (\<exists>q. version plan es q \<and> awaitsKubeProxy q r jobsByNode)"

lemma runs_guard:
  assumes "runs [] m (continues plan G)"
    and "\<And>e es. createdJobs es = [] \<Longrightarrow> Q (0, Some e) (h @ es)"
    and "\<And>a p es. createdJobs es = [] \<Longrightarrow> version plan es p \<Longrightarrow> G a p es \<Longrightarrow> runs (h @ es) (f a p) Q"
  shows "runs h (orReturn m (\<lambda>(a, p). f a p)) Q"
proof (rule runs_thenReturn [OF assms(1)], goal_cases)
  case (2 ap es)
  then show ?case using assms(3) by (cases ap) (auto simp: continues_def)
qed (auto simp: continues_def assms(2))

lemma advancePlan_exits:
  assumes err: "\<And>e es. createdJobs es = [] \<Longrightarrow> Q (0, Some e) es"
    and stop: "\<And>p es. createdJobs es = [] \<Longrightarrow> mayStop plan c (Total r) es \<Longrightarrow> version plan es p \<Longrightarrow>
      runs es (terminalResult E p) Q"
    and wait: "\<And>d es. createdJobs es = [] \<Longrightarrow> 0 < d \<Longrightarrow> mayHold E plan r jobsByNode es \<Longrightarrow> Q (d, None) es"
    and go: "\<And>p es. createdJobs es = [] \<Longrightarrow> passedGuards E plan jobsByNode c (Total r) es p \<Longrightarrow>
      runs es (scheduleInWindow E p r jobsByNode active) Q"
  shows "runs [] (advancePlan E plan r jobsByNode active c) Q"
  unfolding advancePlan_def
proof (rule runs_guard [OF ensureCancelledState_outcome], simp add: err, rule runs_if, goal_cases)
  case (1 b p1 h1)
  then show ?case by (intro stop) (simp_all add: mayStop_def)
next
  case (2 b p1 h1)
  then have p1: "p1 = plan" and A: "createdJobs h1 = []" "\<not> Cancelled (plan_Spec plan)" by auto
  show ?case
    unfolding p1
  proof (rule runs_guard [OF ensurePauseState_outcome], simp add: err A, rule runs_if, goal_cases)
    case (2 b p2 h2)
    show ?case
    proof (rule runs_guard [OF ensurePreflight_outcome], simp add: err A 2, rule runs_if, goal_cases)
      case P: (2 b p3 h3)
      show ?case
      proof (rule runs_guard [OF ensureKubeProxy_outcome], simp add: err A 2 P, rule runs_if, goal_cases)
        case K: (2 w p4 h4)
        have v: "version plan (((([] @ h1) @ h2) @ h3) @ h4) p4"
          using version_trans [OF version_trans [OF 2(2) P(2)] K(2)] by (auto simp: version_append)
        show ?case
        proof (rule runs_guard [OF failureBudgetExceeded_outcome], simp add: err A 2 P K, rule runs_if, goal_cases)
          case F: (1 b p5 h5)
          then show ?case
            using v version_trans [OF v F(2)] by (intro stop) (auto simp: A 2 P K mayStop_def version_append)
        next
          case F: (2 b p5 h5)
          show ?case
          proof (rule runs_guard [OF allNodesProcessed_outcome], simp add: err A 2 P K F, rule runs_if, goal_cases)
            case (1 b p6 h6)
            then have "isCompletedPlan plan ((((([] @ h1) @ h2) @ h3) @ h4) @ h5 @ h6)"
              using F version_trans [OF v F(2)] unfolding isCompletedPlan_def by (auto simp: version_append)
            then show ?case
              using 1 version_trans [OF v F(2)] F version_trans [of plan _ p4 h6 p6] v
              by (intro stop) (auto simp: A 2 P K mayStop_def version_append)
          next
            case D: (2 b p6 h6)
            then show ?case
              using A 2 P K F v by (intro go) (auto simp: passedGuards_def version_append)
          qed
        qed
      next
        case K: (1 w p4 h4)
        have "version plan (((([] @ h1) @ h2) @ h3) @ h4) p3"
          using version_trans [OF 2(2) P(2)] by (auto simp: version_append)
        then have "mayHold E plan r jobsByNode (((([] @ h1) @ h2) @ h3) @ h4)"
          using K by (auto simp: mayHold_def)
        then show ?case using A 2 P K by (intro runs_return wait) simp_all
      qed
    qed (auto intro!: runs_return wait simp: A 2 plan_requeue_defs mayHold_def)
  qed (auto intro!: runs_return wait simp: A plan_requeue_defs mayHold_def)
qed

text \<open>What must have held for a job to be created.\<close>

lemma terminalResult_quiet:
  "createdJobs h = [] \<Longrightarrow> runs h (terminalResult E plan) (\<lambda>_ es. createdJobs es = [])"
  by (rule runs_frame [OF runs_quiet]) (auto intro!: emits_terminalResult)

lemma passedGuards_append: "passedGuards K plan jobsByNode c k es p \<Longrightarrow> passedGuards K plan jobsByNode c k (es @ es') p"
  by (auto simp: passedGuards_def version_append)

lemma advancePlan_outcome:
  "runs [] (advancePlan E plan r jobsByNode active c) (\<lambda>_ es.
     scheduled E r jobsByNode active (createdJobs es) \<and>
     (createdJobs es = [] \<or> (\<exists>p. passedGuards E plan jobsByNode c (Total r) es p \<and> list_ex (windowOpen p) es)))"
proof (rule advancePlan_exits, goal_cases)
  case (2 p es)
  show ?case by (rule runs_mono [OF terminalResult_quiet [OF 2(1)]]) simp
next
  case (4 p es)
  show ?case
    by (rule runs_frame [OF scheduleInWindow_outcome]) (use 4 passedGuards_append in fastforce)
qed simp_all

section \<open>From the listing of the jobs on\<close>

text \<open>
  A reconcile up to the guards: it lists the jobs, counts the Leases (\<open>S\<close> says what is known of that part)
  and stores the counts if they have changed; then it goes on with the plan it has.
\<close>

lemma summarizePlan_unchanged:
  assumes "summarizePlan plan r m active = (c, p)" and "plan_Status plan = plan_Status p"
  shows "p = plan"
proof -
  obtain f where f: "p = withStatus plan f" using summarizePlan_withStatus [OF assms(1)] by blast
  have "f (plan_Status plan) = plan_Status plan" using assms(2) unfolding f withStatus_simps by (rule sym)
  then show ?thesis unfolding f by (simp add: withStatus_def)
qed

lemma runs_reconcileRollout:
  assumes sync: "\<And>jobs. runs [] (syncLeases E plan r jobs) (S jobs)"
    and unlisted: "\<And>e. Q (0, Some e) [EvListJobs (plan_Name plan) (Inl e)]"
    and unsynced: "\<And>jobs e es. S jobs (Inl e) es \<Longrightarrow> Q (0, Some e) (EvListJobs (plan_Name plan) (Inr jobs) # es)"
    and uncounted: "\<And>jobs active c counted e es. S jobs (Inr active) es \<Longrightarrow>
      summarizePlan plan r (indexJobs jobs) active = (c, counted) \<Longrightarrow>
      Q (0, Some e) (EvListJobs (plan_Name plan) (Inr jobs) # es @ [EvPatchPlanStatus plan counted (Inl e)])"
    and counted: "\<And>jobs active c counted p es. S jobs (Inr active) es \<Longrightarrow>
      summarizePlan plan r (indexJobs jobs) active = (c, counted) \<Longrightarrow>
      runs (EvListJobs (plan_Name plan) (Inr jobs) # es @ [EvPatchPlanStatus plan counted (Inr p)])
        (advancePlan E p r (indexJobs jobs) active c) Q"
    and unchanged: "\<And>jobs active c es. S jobs (Inr active) es \<Longrightarrow>
      summarizePlan plan r (indexJobs jobs) active = (c, plan) \<Longrightarrow>
      runs (EvListJobs (plan_Name plan) (Inr jobs) # es) (advancePlan E plan r (indexJobs jobs) active c) Q"
  shows "runs [] (reconcileRollout E plan r) Q"
  unfolding reconcileRollout_def listPatchJobs_def Let_def
proof (rule runs_orReturn, rule runs_perform, goal_cases)
  case (1 listed)
  show ?case
  proof (cases listed)
    case (Inl e)
    then show ?thesis using unlisted by simp
  next
    case (Inr jobs)
    have "runs [EvListJobs (plan_Name plan) (Inr jobs)] (orReturn (syncLeases E plan r jobs) (\<lambda>active.
        case summarizePlan plan r (indexJobs jobs) active of (c, counted) \<Rightarrow>
          if plan_Status plan \<noteq> plan_Status counted then
            orReturn (patchPlanStatus E plan counted) (\<lambda>p. advancePlan E p r (indexJobs jobs) active c)
          else advancePlan E counted r (indexJobs jobs) active c)) Q"
    proof (rule runs_thenReturn [OF sync], goal_cases)
      case (2 active es)
      show ?case
      proof (intro runs_prod runs_if runs_orReturn runs_perform, goal_cases)
        case (1 c p a)
        then show ?case using uncounted [OF 2 1(1)] counted [OF 2 1(1)] by (cases a) simp_all
      next
        case (2 c p)
        then show ?case using unchanged [OF \<open>S jobs (Inr active) es\<close>] summarizePlan_unchanged [OF 2(1)] by simp
      qed
    qed (simp add: unsynced)
    then show ?thesis using Inr by simp
  qed
qed


end
