(* ===== verification/LeaseCounts.thy ===== *)
theory LeaseCounts imports PlanTraces begin

text \<open>
  What \<open>syncLeases\<close> counts, and what it means for the concurrency of a group: the count is never
  below the number of unfinished jobs of the group, so a scheduling run that fills the free slots
  keeps the number of unfinished jobs within the limit.
\<close>

section \<open>The count\<close>

text \<open>The unfinished job a Lease stands for, if it is among the listed ones.\<close>

definition heldBy :: "jobMap \<Rightarrow> lease \<Rightarrow> patchJob option" where
  "heldBy jobsByName l =
     (case map_of jobsByName (lease_Name l) of
        None \<Rightarrow> None
      | Some job \<Rightarrow> if IsTerminal (jobPhase job) then None else Some job)"

definition heldLeases :: "jobMap \<Rightarrow> lease list \<Rightarrow> lease list" where
  "heldLeases jobsByName ls = filter (\<lambda>l. heldBy jobsByName l \<noteq> None) ls"

definition heldIn :: "rollout \<Rightarrow> jobMap \<Rightarrow> string \<Rightarrow> lease \<Rightarrow> bool" where
  "heldIn r jobsByName g l =
     (case heldBy jobsByName l of None \<Rightarrow> False | Some job \<Rightarrow> groupOfJob job r = g)"

text \<open>A job that needs a slot: unfinished and not being deleted.\<close>

definition needsSlot :: "patchJob \<Rightarrow> bool" where
  "needsSlot job \<longleftrightarrow> \<not> IsTerminal (jobPhase job) \<and> job_DeletionTimestamp job = None"

definition slotsUsed :: "rollout \<Rightarrow> patchJob list \<Rightarrow> string \<Rightarrow> nat" where
  "slotsUsed r jobs g = length (filter (\<lambda>j. needsSlot j \<and> groupOfJob j r = g) jobs)"

lemma releaseLeases_outcome:
  "runs [] (releaseLeases E r jobsByName active held ls) (\<lambda>res es. case res of
      Inl _ \<Rightarrow> True
    | Inr (active', held') \<Rightarrow>
        held' = rev (map lease_Name (heldLeases jobsByName ls)) @ held \<and>
        (\<forall>g. countOf active' g = countOf active g + int (length (filter (heldIn r jobsByName g) ls))))"
proof (induction ls arbitrary: active held)
  case Nil
  show ?case by (auto simp: heldLeases_def intro!: runs_rules)
next
  case (Cons l ls)
  have skip: "runs h (releaseLeases E r jobsByName active held ls) (\<lambda>res es. case res of
      Inl _ \<Rightarrow> True
    | Inr (active', held') \<Rightarrow>
        held' = rev (map lease_Name (heldLeases jobsByName (l # ls))) @ held \<and>
        (\<forall>g. countOf active' g = countOf active g + int (length (filter (heldIn r jobsByName g) (l # ls)))))"
    if "heldBy jobsByName l = None" for h
    by (rule runs_frame [OF Cons.IH]) (use that in \<open>auto simp: heldLeases_def heldIn_def split: sum.splits\<close>)
  show ?case
  proof (cases "heldBy jobsByName l")
    case None
    then show ?thesis
      using skip [OF None] by (auto simp: heldBy_def intro!: runs_rules split: option.splits if_splits)
  next
    case (Some job)
    then have job: "map_of jobsByName (lease_Name l) = Some job" "\<not> IsTerminal (jobPhase job)"
      by (auto simp: heldBy_def split: option.splits if_splits)
    show ?thesis
      using job by simp (rule runs_mono [OF Cons.IH],
        use Some in \<open>auto simp: heldLeases_def heldIn_def countOf_increment split: sum.splits\<close>)
  qed
qed

lemma acquireLease_outcome: "runs [] (acquireLease E job grp) (\<lambda>_ _. True)"
  unfolding acquireLease_def by (intro runs_rules) auto

lemma healLeases_outcome:
  "runs [] (healLeases E r held active jobs) (\<lambda>res es. case res of
      Inl _ \<Rightarrow> True
    | Inr active' \<Rightarrow> \<forall>g. countOf active' g = countOf active g +
        int (length (filter (\<lambda>j. needsSlot j \<and> job_Name j \<notin> set held \<and> groupOfJob j r = g) jobs)))"
proof (induction jobs arbitrary: active)
  case Nil
  show ?case by (auto intro!: runs_rules)
next
  case (Cons job jobs)
  show ?case
  proof (cases "needsSlot job \<and> job_Name job \<notin> set held")
    case True
    then show ?thesis
      by (auto simp: needsSlot_def countOf_increment intro!: runs_thenOk [OF acquireLease_outcome] runs_frame [OF Cons.IH]
          split: sum.splits)
  next
    case False
    then show ?thesis
      by (auto simp: needsSlot_def intro!: runs_mono [OF Cons.IH] split: sum.splits)
  qed
qed

definition leaseCount :: "rollout \<Rightarrow> patchJob list \<Rightarrow> lease list \<Rightarrow> string \<Rightarrow> nat" where
  "leaseCount r jobs ls g =
     length (filter (heldIn r (indexByName jobs) g) ls) +
     length (filter (\<lambda>j. needsSlot j \<and> job_Name j \<notin> lease_Name ` set (heldLeases (indexByName jobs) ls) \<and>
       groupOfJob j r = g) jobs)"

lemma syncLeases_outcome:
  "runs [] (syncLeases E plan r jobs) (\<lambda>res es. case res of
      Inl _ \<Rightarrow> True
    | Inr active \<Rightarrow> (\<exists>ls rest. es = EvListLeases (operatorNamespace E) (plan_Name plan) (Inr ls) # rest \<and>
        (\<forall>g. countOf active g = int (leaseCount r jobs ls g))))"
proof -
  have heal: "runs (EvListLeases (operatorNamespace E) (plan_Name plan) (Inr ls) # es) (healLeases E r held' active' jobs) (\<lambda>res es. case res of
        Inl _ \<Rightarrow> True
      | Inr active \<Rightarrow> (\<exists>ls rest. es = EvListLeases (operatorNamespace E) (plan_Name plan) (Inr ls) # rest \<and>
        (\<forall>g. countOf active g = int (leaseCount r jobs ls g))))"
    if "held' = rev (map lease_Name (heldLeases (indexByName jobs) ls))"
      and "\<And>g. countOf active' g = int (length (filter (heldIn r (indexByName jobs) g) ls))"
    for es held' active' ls
    by (rule runs_frame [OF healLeases_outcome])
       (use that in \<open>auto simp: leaseCount_def split: sum.splits\<close>)
  show ?thesis
    unfolding syncLeases_def
  proof (rule runs_bind, rule runs_perform)
    fix res
    show "runs ([] @ [EvListLeases (operatorNamespace E) (plan_Name plan) res])
      (case res of Inl err \<Rightarrow> return (Inl (wrapErr ''failed to list leases'' err))
       | Inr leases \<Rightarrow> ifOk (releaseLeases E r (indexByName jobs) [] [] leases)
            (\<lambda>(active, held). healLeases E r held active jobs))
      (\<lambda>res es. case res of
        Inl _ \<Rightarrow> True
      | Inr active \<Rightarrow> (\<exists>ls rest. es = EvListLeases (operatorNamespace E) (plan_Name plan) (Inr ls) # rest \<and>
        (\<forall>g. countOf active g = int (leaseCount r jobs ls g))))"
    proof (cases res)
      case (Inr ls)
      show ?thesis
        unfolding Inr sum.case
        by (rule runs_thenOk [OF releaseLeases_outcome]) (auto intro!: heal)
    qed (auto intro!: runs_return)
  qed
qed

section \<open>The limit\<close>

lemma indexByName_map_of:
  assumes "distinct (map job_Name jobs)"
  shows "map_of (indexByName jobs) n = List.find (\<lambda>j. job_Name j = n) jobs"
proof -
  have aux: "map_of (foldl (\<lambda>m j. AList.update (job_Name j) j m) m jobs) n =
      (case List.find (\<lambda>j. job_Name j = n) jobs of Some j \<Rightarrow> Some j | None \<Rightarrow> map_of m n)" for m
    using assms
  proof (induction jobs arbitrary: m)
    case (Cons j js)
    then have "List.find (\<lambda>i. job_Name i = n) js = None" if "job_Name j = n"
      using that by (force simp: find_None_iff image_iff)
    then show ?case using Cons by (auto simp: update_conv' split: option.splits)
  qed simp
  show ?thesis by (simp add: indexByName_def aux split: option.splits)
qed

lemma length_filter_split:
  "length (filter P xs) = length (filter (\<lambda>x. P x \<and> Q x) xs) + length (filter (\<lambda>x. P x \<and> \<not> Q x) xs)"
  by (induction xs) auto

lemma slotsUsed_leaseCount:
  assumes "distinct (map job_Name jobs)"
  shows "slotsUsed r jobs g \<le> leaseCount r jobs ls g"
proof -
  let ?need = "\<lambda>j. needsSlot j \<and> groupOfJob j r = g"
  let ?held = "lease_Name ` set (heldLeases (indexByName jobs) ls)"
  let ?A = "filter (\<lambda>j. ?need j \<and> job_Name j \<in> ?held) jobs"
  let ?B = "filter (\<lambda>j. ?need j \<and> job_Name j \<notin> ?held) jobs"
  have split: "length (filter ?need jobs) = length ?A + length ?B"
    by (rule length_filter_split)
  have self: "heldBy (indexByName jobs) l = Some j"
    if "j \<in> set jobs" "needsSlot j" "lease_Name l = job_Name j" for j l
  proof -
    have "List.find (\<lambda>i. job_Name i = job_Name j) jobs = Some j"
      using that(1) assms by (induction jobs) auto
    then show ?thesis using that by (simp add: heldBy_def indexByName_map_of [OF assms] needsSlot_def)
  qed
  have "job_Name ` set ?A \<subseteq> lease_Name ` set (filter (heldIn r (indexByName jobs) g) ls)"
  proof
    fix n
    assume "n \<in> job_Name ` set ?A"
    then obtain j l where j: "j \<in> set jobs" "?need j" "n = job_Name j" and l: "l \<in> set ls" "lease_Name l = n"
      by (auto simp: heldLeases_def)
    then have "heldIn r (indexByName jobs) g l" using self by (simp add: heldIn_def)
    then show "n \<in> lease_Name ` set (filter (heldIn r (indexByName jobs) g) ls)" using l by auto
  qed
  then have "card (job_Name ` set ?A) \<le> card (lease_Name ` set (filter (heldIn r (indexByName jobs) g) ls))"
    by (rule card_mono [rotated]) simp
  also have "\<dots> \<le> length (filter (heldIn r (indexByName jobs) g) ls)"
    by (metis card_length length_map set_map)
  finally have "card (job_Name ` set ?A) \<le> length (filter (heldIn r (indexByName jobs) g) ls)" .
  moreover have "card (job_Name ` set ?A) = length ?A"
  proof -
    have "distinct (map job_Name ?A)" using assms distinct_map_filter by blast
    from distinct_card [OF this] show ?thesis by simp
  qed
  ultimately have "length ?A \<le> length (filter (heldIn r (indexByName jobs) g) ls)" by simp
  moreover have "?B = filter (\<lambda>j. needsSlot j \<and> job_Name j \<notin> ?held \<and> groupOfJob j r = g) jobs"
    by (rule filter_cong) auto
  ultimately show ?thesis by (simp add: slotsUsed_def leaseCount_def split)
qed

text \<open>What a reconcile creates, in terms of the jobs it listed.\<close>

definition withinLimit ::
  "('v, 'm) klib_scheme \<Rightarrow> rollout \<Rightarrow> patchJob list \<Rightarrow> patchJob list \<Rightarrow> bool" where
  "withinLimit K r jobs created \<longleftrightarrow>
     (case firstUnfinished r (indexJobs jobs) of
        None \<Rightarrow> False
      | Some g \<Rightarrow>
          (distinct (map job_Name jobs) \<longrightarrow>
             int (slotsUsed r jobs (grp_Name g)) + int (length created) \<le> grp_Concurrency g) \<and>
          list_all2 (createdFor K r (indexJobs jobs) (grp_Name g))
            (take (length created) (pendingNodes (indexJobs jobs) g)) created)"

lemma scheduled_withinLimit:
  assumes "scheduled K r (indexJobs jobs) active created" and "created \<noteq> []"
    and "\<And>g. countOf active g = int (leaseCount r jobs ls g)"
  shows "withinLimit K r jobs created"
proof -
  obtain g m where g: "firstUnfinished r (indexJobs jobs) = Some g"
    and m: "int m \<le> max 0 (grp_Concurrency g - countOf active (grp_Name g))"
    and all: "list_all2 (createdFor K r (indexJobs jobs) (grp_Name g)) (take m (pendingNodes (indexJobs jobs) g)) created"
    using assms(1,2) by (auto simp: scheduled_def split: option.splits)
  have len: "length created = min (length (pendingNodes (indexJobs jobs) g)) m"
    using list_all2_lengthD [OF all] by simp
  then have take: "take (length created) (pendingNodes (indexJobs jobs) g) = take m (pendingNodes (indexJobs jobs) g)"
    by (simp add: min_def)
  have "0 < length created" using assms(2) by simp
  then have "countOf active (grp_Name g) + int (length created) \<le> grp_Concurrency g"
    using m len by linarith
  moreover have "distinct (map job_Name jobs) \<Longrightarrow> int (slotsUsed r jobs (grp_Name g)) \<le> countOf active (grp_Name g)"
    using slotsUsed_leaseCount [of jobs r "grp_Name g" ls] assms(3) by simp
  ultimately show ?thesis using g all take by (auto simp: withinLimit_def)
qed

lemma syncLeases_counts:
  "runs [] (syncLeases E plan r jobs) (\<lambda>res es. createdJobs es = [] \<and>
     (case res of Inl _ \<Rightarrow> True | Inr active \<Rightarrow> \<exists>ls. \<forall>g. countOf active g = int (leaseCount r jobs ls g)))"
proof -
  have "runs [] (syncLeases E plan r jobs) (\<lambda>_ es. createdJobs es = [])"
    by (rule runs_quiet) (intro emits_rules; simp)
  from runs_conj [OF this syncLeases_outcome] show ?thesis
    by (rule runs_mono) (auto split: sum.splits)
qed

lemma reconcileRollout_outcome:
  "runs [] (reconcileRollout E plan r) (\<lambda>_ es. createdJobs es = [] \<or>
     (\<exists>jobs rest. es = EvListJobs (plan_Name plan) (Inr jobs) # rest \<and> withinLimit E r jobs (createdJobs es)))"
proof -
  have advance: "runs (EvListJobs (plan_Name plan) (Inr jobs) # es) (advancePlan E p r (indexJobs jobs) active c)
      (\<lambda>_ es. createdJobs es = [] \<or>
        (\<exists>jobs rest. es = EvListJobs (plan_Name plan) (Inr jobs) # rest \<and> withinLimit E r jobs (createdJobs es)))"
    if "createdJobs es = []" "\<exists>ls. \<forall>g. countOf active g = int (leaseCount r jobs ls g)" for jobs p active c es
    by (rule runs_frame [OF advancePlan_outcome]) (use that in \<open>auto intro: scheduled_withinLimit\<close>)
  show ?thesis
    by (rule runs_reconcileRollout [OF syncLeases_counts]) ((rule advance)?; auto)+
qed

end
