(* ===== verification/PlanCounts.thy ===== *)
theory PlanCounts imports PlanTraces begin

text \<open>
  The counts in the status of a plan: every node of the rollout is counted once, by the outcome of its
  job, and the plan counts as processed exactly when no node is pending or running.
\<close>

definition outcomeOf :: "jobMap \<Rightarrow> node \<Rightarrow> patchJob option" where
  "outcomeOf jobsByNode n = map_of jobsByNode (node_Name n)"

definition isCompleted :: "jobMap \<Rightarrow> node \<Rightarrow> bool" where
  "isCompleted jobsByNode n =
     (case outcomeOf jobsByNode n of None \<Rightarrow> False | Some j \<Rightarrow> jobPhase j = PatchJobPhaseCompleted)"

definition isFailed :: "jobMap \<Rightarrow> node \<Rightarrow> bool" where
  "isFailed jobsByNode n =
     (case outcomeOf jobsByNode n of None \<Rightarrow> False | Some j \<Rightarrow> jobPhase j = PatchJobPhaseFailed)"

definition isRunning :: "jobMap \<Rightarrow> node \<Rightarrow> bool" where
  "isRunning jobsByNode n =
     (case outcomeOf jobsByNode n of None \<Rightarrow> False | Some j \<Rightarrow> \<not> IsTerminal (jobPhase j))"

definition isPending :: "jobMap \<Rightarrow> node \<Rightarrow> bool" where
  "isPending jobsByNode n \<longleftrightarrow> outcomeOf jobsByNode n = None"

definition countWith :: "(node \<Rightarrow> bool) \<Rightarrow> node list \<Rightarrow> int" where
  "countWith P ns = int (length (filter P ns))"

lemma countWith_simps [simp]:
  "countWith P [] = 0" "countWith P (n # ns) = (if P n then 1 else 0) + countWith P ns"
  "countWith P (ns @ ms) = countWith P ns + countWith P ms"
  by (simp_all add: countWith_def)

lemma countWith_nonneg: "0 \<le> countWith P ns"
  by (simp add: countWith_def)

lemmas outcome_defs = isCompleted_def isFailed_def isRunning_def isPending_def outcomeOf_def

lemma outcomes_partition:
  "countWith (isPending m) ns + countWith (isRunning m) ns + countWith (isCompleted m) ns + countWith (isFailed m) ns
     = int (length ns)"
proof (induction ns)
  case (Cons n ns)
  have "(if isPending m n then 1 else 0) + (if isRunning m n then 1 else 0) +
      (if isCompleted m n then 1 else 0) + (if isFailed m n then 1 else 0) = (1 :: int)"
    by (auto simp: outcome_defs IsTerminal_def split: option.splits)
  then show ?case using Cons by (simp add: algebra_simps)
qed simp

lemma countNode_eq:
  "countNode m gs n = gs\<lparr>
     gs_Pending := gs_Pending gs + countWith (isPending m) [n],
     gs_Running := gs_Running gs + countWith (isRunning m) [n],
     gs_Completed := gs_Completed gs + countWith (isCompleted m) [n],
     gs_Failed := gs_Failed gs + countWith (isFailed m) [n]\<rparr>"
  by (cases "map_of m (node_Name n)") (auto simp: countNode_def outcome_defs IsTerminal_def)

lemma countNode_foldl:
  "foldl (countNode m) gs ns = gs\<lparr>
     gs_Pending := gs_Pending gs + countWith (isPending m) ns,
     gs_Running := gs_Running gs + countWith (isRunning m) ns,
     gs_Completed := gs_Completed gs + countWith (isCompleted m) ns,
     gs_Failed := gs_Failed gs + countWith (isFailed m) ns\<rparr>"
proof (induction ns arbitrary: gs)
  case (Cons n ns)
  show ?case by (simp only: foldl_Cons Cons) (simp add: countNode_eq [of m gs n])
qed simp

lemma summarizeGroup_eq:
  "summarizeGroup m active g =
     \<lparr>gs_Name = grp_Name g, gs_Concurrency = grp_Concurrency g, gs_Active = countOf active (grp_Name g),
      gs_Total = int (length (grp_Nodes g)),
      gs_Pending = countWith (isPending m) (grp_Nodes g), gs_Running = countWith (isRunning m) (grp_Nodes g),
      gs_Completed = countWith (isCompleted m) (grp_Nodes g), gs_Failed = countWith (isFailed m) (grp_Nodes g)\<rparr>"
  by (simp add: summarizeGroup_def countNode_foldl)

lemma addCounts_foldl:
  "foldl addCounts c (map (summarizeGroup m active) gs) =
     (let ns = concat (map grp_Nodes gs) in
      \<lparr>jc_Completed = jc_Completed c + countWith (isCompleted m) ns, jc_Failed = jc_Failed c + countWith (isFailed m) ns,
       jc_Running = jc_Running c + countWith (isRunning m) ns, jc_Pending = jc_Pending c + countWith (isPending m) ns\<rparr>)"
  by (induction gs arbitrary: c) (simp_all add: addCounts_def summarizeGroup_eq Let_def algebra_simps)

lemma summarize_counts:
  "fst (summarize plan r m active) =
     \<lparr>jc_Completed = countWith (isCompleted m) (Nodes r), jc_Failed = countWith (isFailed m) (Nodes r),
      jc_Running = countWith (isRunning m) (Nodes r), jc_Pending = countWith (isPending m) (Nodes r)\<rparr>"
  by (simp add: summarize_def Let_def addCounts_foldl Nodes_def)

lemma summarize_total:
  "jc_Pending c + jc_Running c + jc_Completed c + jc_Failed c = int (Total r)"
  if "c = fst (summarize plan r m active)"
  using outcomes_partition [of m "Nodes r"] that by (simp add: summarize_counts Total_eq_length)

end
