(* ===== verification/PlanProgress.thy ===== *)
theory PlanProgress imports PlanTraces begin

text \<open>
  Progress of a rollout: a scheduling run that meets no error starts every node it may start. Safety
  alone would be kept by a controller that never creates a job.
\<close>

section \<open>The loop\<close>

text \<open>A node is held back when a version of the plan upgrades Kubernetes and the control plane is not done.\<close>

definition heldBack :: "patchPlan \<Rightarrow> rollout \<Rightarrow> jobMap \<Rightarrow> event list \<Rightarrow> node \<Rightarrow> bool" where
  "heldBack plan r jobsByNode es n \<longleftrightarrow>
     (\<exists>p. version plan es p \<and> KubernetesVersion (Target (plan_Spec p)) \<noteq> '''') \<and> \<not> IsControlPlane n \<and>
     \<not> allNodesCompleted (ControlPlaneNodes r) jobsByNode"

definition startsAll :: "patchPlan \<Rightarrow> rollout \<Rightarrow> jobMap \<Rightarrow> event list \<Rightarrow> node list \<Rightarrow> nat \<Rightarrow> bool" where
  "startsAll plan r jobsByNode es ns k \<longleftrightarrow> k = length ns \<or> k < length ns \<and> heldBack plan r jobsByNode es (ns ! k)"

lemma startsAll_Cons: "startsAll plan r jobsByNode es (n # ns) (Suc k) \<longleftrightarrow> startsAll plan r jobsByNode es ns k"
  by (simp add: startsAll_def)

lemma heldBack_trans:
  "heldBack p r jobsByNode es n \<Longrightarrow> version plan h p \<Longrightarrow> heldBack plan r jobsByNode (h @ es) n"
  unfolding heldBack_def using version_trans by blast

lemma startsAll_trans:
  "startsAll p r jobsByNode es ns k \<Longrightarrow> version plan h p \<Longrightarrow> startsAll plan r jobsByNode (h @ es) ns k"
  unfolding startsAll_def using heldBack_trans by blast

lemma waitForControlPlane_version:
  "runs [] (waitForControlPlane E plan r jobsByNode n) (\<lambda>res es. createdJobs es = [] \<and>
     (case res of Inl _ \<Rightarrow> True
      | Inr (wait, p) \<Rightarrow> if 0 < wait then heldBack plan r jobsByNode es n else version plan es p))"
  unfolding waitForControlPlane_def setMessage_def Let_def
  by (intro runs_rules)
     (auto simp: heldBack_def plan_requeue_defs version_Cons intro!: runs_rules exI [of _ plan] split: sum.splits)

lemma acquireLease_quiet: "runs [] (acquireLease E j grp) (\<lambda>_ es. createdJobs es = [])"
  by (rule emits_createPatchJob_lease)

lemma createPatchJob_version:
  "runs [] (createPatchJob E plan n grp) (\<lambda>res es. case res of Inl _ \<Rightarrow> True
     | Inr p \<Rightarrow> length (createdJobs es) = 1 \<and> version plan es p)"
  unfolding createPatchJob_def
  by (intro runs_rules)
     (auto intro!: runs_frame [OF acquireLease_quiet] runs_rules simp: version_Cons version_append split: sum.splits)

lemma scheduleLoop_progress:
  "runs [] (scheduleLoop E plan r jobsByNode grp k ns) (\<lambda>res es.
     snd res = None \<longrightarrow> startsAll plan r jobsByNode es ns (length (createdJobs es)))"
proof (induction ns arbitrary: plan k)
  case Nil
  show ?case by (auto simp: startsAll_def intro!: runs_return)
next
  case (Cons n ns)
  show ?case
  proof (simp only: scheduleLoop.simps, rule runs_thenReturn [OF waitForControlPlane_version], simp, rule runs_prod, rule runs_if,
      goal_cases)
    case (1 a es wait p)
    then show ?case by (intro runs_return) (simp add: startsAll_def)
  next
    case (2 a es wait p)
    then have es: "createdJobs es = []" "version plan es p" by auto
    show ?case
    proof (rule runs_thenReturn [OF createPatchJob_version], simp, goal_cases)
      case (1 p2 es2)
      then have v: "version plan (([] @ es) @ es2) p2" using version_trans es(2) by simp
      show ?case
      proof (rule runs_frame [OF Cons.IH], rule impI, elim impE, assumption)
        fix res es3
        assume "startsAll p2 r jobsByNode es3 ns (length (createdJobs es3))"
        then show "startsAll plan r jobsByNode ((([] @ es) @ es2) @ es3) (n # ns) (length (createdJobs ((([] @ es) @ es2) @ es3)))"
          using startsAll_trans [OF _ v] 1 es by (simp add: startsAll_Cons)
      qed
    qed
  qed
qed

section \<open>A scheduling run\<close>

text \<open>The moment from which the delay between nodes counts.\<close>

definition lastActivity :: "patchPlan \<Rightarrow> jobMap \<Rightarrow> time" where
  "lastActivity plan jobsByNode =
     foldl laterOf (case LastNodeScheduledAt (plan_Status plan) of Some t \<Rightarrow> t | None \<Rightarrow> zeroTime) (map snd jobsByNode)"

lemma delayRemaining_due:
  "runs [] (delayRemaining E plan jobsByNode) (\<lambda>wait es. createdJobs es = [] \<and>
     (0 < wait \<longrightarrow> (\<exists>now. es = [EvNow now] \<and> now < lastActivity plan jobsByNode + DelayBetweenNodes (plan_Spec plan))))"
  unfolding delayRemaining_def Let_def lastActivity_def [symmetric]
  by (intro runs_rules) simp_all

lemma markInProgress_version:
  "runs [] (markInProgress E plan) (\<lambda>res es. createdJobs es = [] \<and> (case res of Inl _ \<Rightarrow> True | Inr p \<Rightarrow> version plan es p))"
  unfolding markInProgress_def
  by (intro runs_rules) (auto simp: version_Cons intro!: runs_rules split: option.split sum.split)

text \<open>The nodes a group may start now.\<close>

definition startable :: "jobMap \<Rightarrow> counts \<Rightarrow> rolloutGroup \<Rightarrow> node list" where
  "startable jobsByNode active g = take (nat (grp_Concurrency g - countOf active (grp_Name g))) (pendingNodes jobsByNode g)"

lemma scheduleNodes_progress:
  "runs [] (scheduleNodes E plan r jobsByNode active) (\<lambda>res es. snd res = None \<longrightarrow>
     (case firstUnfinished r jobsByNode of
        None \<Rightarrow> createdJobs es = []
      | Some g \<Rightarrow>
          (\<exists>now. es = [EvNow now] \<and> now < lastActivity plan jobsByNode + DelayBetweenNodes (plan_Spec plan)) \<or>
          startsAll plan r jobsByNode es (startable jobsByNode active g) (length (createdJobs es))))"
proof (cases "firstUnfinished r jobsByNode")
  case None
  then show ?thesis by (auto simp: scheduleNodes_def firstUnfinished_def intro!: runs_return)
next
  case (Some g)
  let ?free = "grp_Concurrency g - countOf active (grp_Name g)"
  have "runs [] (scheduleGroup E plan r jobsByNode active g) (\<lambda>res es. snd res = None \<longrightarrow>
      (\<exists>now. es = [EvNow now] \<and> now < lastActivity plan jobsByNode + DelayBetweenNodes (plan_Spec plan)) \<or>
      startsAll plan r jobsByNode es (startable jobsByNode active g) (length (createdJobs es)))"
    unfolding scheduleGroup_def Let_def
  proof (intro runs_if, goal_cases)
    case 3
    show ?case
    proof (rule runs_seq [OF delayRemaining_due], rule runs_if, goal_cases)
      case (2 wait es)
      then show ?case
      proof (intro runs_thenReturn [OF markInProgress_version], goal_cases)
        case (2 p es2)
        then have v: "version plan (([] @ es) @ es2) p" by (auto simp: version_append)
        show ?case
          by (rule runs_frame [OF scheduleLoop_progress])
             (use 2 startsAll_trans [OF _ v] in \<open>auto simp: startable_def\<close>)
      qed simp
    qed (auto intro!: runs_return)
  qed (auto intro!: runs_return simp: startsAll_def startable_def)
  then show ?thesis using Some by (simp add: scheduleNodes_def firstUnfinished_def)
qed

section \<open>The kube-proxy\<close>

text \<open>The DaemonSet runs the image of the version on every node that should.\<close>

definition rolledOut :: "string \<Rightarrow> daemonSet \<Rightarrow> bool" where
  "rolledOut v ds \<longleftrightarrow> ContainerImages ds \<noteq> [] \<and> hd (ContainerImages ds) = BuildKubeProxyImage v \<and>
     ObservedGeneration ds \<ge> ds_Generation ds \<and>
     UpdatedNumberScheduled ds = DesiredNumberScheduled ds \<and> NumberReady ds = DesiredNumberScheduled ds"

definition proxyRead :: "string \<Rightarrow> event list \<Rightarrow> bool" where
  "proxyRead v es \<longleftrightarrow> list_ex (\<lambda>e. case e of
      EvGetDaemonSet ns n (Inl err) \<Rightarrow> ns = kubeProxyNamespace \<and> n = kubeProxyDaemonSetName \<and> isNotFound err
    | EvGetDaemonSet ns n (Inr ds) \<Rightarrow> ns = kubeProxyNamespace \<and> n = kubeProxyDaemonSetName \<and> rolledOut v ds
    | _ \<Rightarrow> False) es"

definition proxyPatched :: "string \<Rightarrow> event \<Rightarrow> bool" where
  "proxyPatched v e = (case e of
      EvPatchDaemonSet d d2 _ \<Rightarrow> hd (ContainerImages d) \<noteq> BuildKubeProxyImage v \<and>
        d2 = d\<lparr>ContainerImages := BuildKubeProxyImage v # tl (ContainerImages d)\<rparr>
    | EvPatchPlanStatus _ _ _ \<Rightarrow> False
    | _ \<Rightarrow> True)"

lemma proxyRead_simps [simp]:
  "proxyRead v (es @ es') \<longleftrightarrow> proxyRead v es \<or> proxyRead v es'"
  "proxyRead v [EvGetDaemonSet ns n (Inl err)] \<longleftrightarrow> ns = kubeProxyNamespace \<and> n = kubeProxyDaemonSetName \<and> isNotFound err"
  "proxyRead v (EvGetDaemonSet ns n (Inr ds) # es) \<longleftrightarrow>
     ns = kubeProxyNamespace \<and> n = kubeProxyDaemonSetName \<and> rolledOut v ds \<or> proxyRead v es"
  by (auto simp: proxyRead_def)

lemma proxyPatched_simps [simp]:
  "proxyPatched v (EvGetDaemonSet ns n rd)"
  "proxyPatched v (EvPatchDaemonSet d d2 ro) \<longleftrightarrow> hd (ContainerImages d) \<noteq> BuildKubeProxyImage v \<and>
     d2 = d\<lparr>ContainerImages := BuildKubeProxyImage v # tl (ContainerImages d)\<rparr>"
  by (simp_all add: proxyPatched_def)

lemma ensureKubeProxyUpgraded_outcome:
  "runs [] (ensureKubeProxyUpgraded E v) (\<lambda>res es. list_all (proxyPatched v) es \<and> (res = Inr True \<longrightarrow> proxyRead v es))"
proof -
  have images: "runs [EvGetDaemonSet kubeProxyNamespace kubeProxyDaemonSetName (Inr ds)] (case ContainerImages ds of
      [] \<Rightarrow> return (Inl (TextError ''kube-proxy DaemonSet has no containers''))
    | current # rest \<Rightarrow>
        if current \<noteq> BuildKubeProxyImage v then do {
          p \<leftarrow> patchDaemonSet E ds (ds\<lparr>ContainerImages := BuildKubeProxyImage v # rest\<rparr>);
          (case p of
             Some err \<Rightarrow> return (Inl (wrapErr ''failed to update kube-proxy image'' err))
           | None \<Rightarrow> ok False)
        }
        else ok (ObservedGeneration ds \<ge> ds_Generation ds \<and>
                 UpdatedNumberScheduled ds = DesiredNumberScheduled ds \<and>
                 NumberReady ds = DesiredNumberScheduled ds))
      (\<lambda>res es. list_all (proxyPatched v) es \<and> (res = Inr True \<longrightarrow> proxyRead v es))" for ds
    by (cases "ContainerImages ds") (auto simp: rolledOut_def intro!: runs_rules)
  show ?thesis
    unfolding ensureKubeProxyUpgraded_def Let_def
  proof (rule runs_bind, rule runs_perform, rule runs_sum, goal_cases)
    case (2 x ds)
    then show ?case by (simp only: append_Nil) (rule images)
  qed (auto intro!: runs_rules)
qed

text \<open>On what a change of the DaemonSet and the record of its rollout rest.\<close>

definition proxyGrounds :: "patchPlan \<Rightarrow> rollout \<Rightarrow> jobMap \<Rightarrow> event list \<Rightarrow> event \<Rightarrow> bool" where
  "proxyGrounds plan r jobsByNode es e = (case e of
      EvPatchDaemonSet d d2 _ \<Rightarrow>
        KubernetesVersion (Target (plan_Spec plan)) \<noteq> '''' \<and> allNodesCompleted (ControlPlaneNodes r) jobsByNode \<and>
        hd (ContainerImages d) \<noteq> BuildKubeProxyImage (KubernetesVersion (Target (plan_Spec plan))) \<and>
        d2 = d\<lparr>ContainerImages := BuildKubeProxyImage (KubernetesVersion (Target (plan_Spec plan))) # tl (ContainerImages d)\<rparr>
    | EvPatchPlanStatus b m _ \<Rightarrow>
        (if KubeProxyUpgraded (plan_Status m) \<and> \<not> KubeProxyUpgraded (plan_Status b)
         then allNodesCompleted (ControlPlaneNodes r) jobsByNode \<and>
           proxyRead (KubernetesVersion (Target (plan_Spec plan))) es
         else True)
    | _ \<Rightarrow> True)"

lemma proxyGrounds_simps [simp]:
  "proxyGrounds plan r jobsByNode es (EvNow t)"
  "proxyGrounds plan r jobsByNode es (EvPatchPlanStatus b m rp) \<longleftrightarrow>
     KubeProxyUpgraded (plan_Status b) \<or> \<not> KubeProxyUpgraded (plan_Status m) \<or>
     (allNodesCompleted (ControlPlaneNodes r) jobsByNode \<and> proxyRead (KubernetesVersion (Target (plan_Spec plan))) es)"
  by (auto simp: proxyGrounds_def)

lemma proxyGrounds_patched:
  assumes "list_all (proxyPatched (KubernetesVersion (Target (plan_Spec plan)))) es"
    and "KubernetesVersion (Target (plan_Spec plan)) \<noteq> ''''" and "allNodesCompleted (ControlPlaneNodes r) jobsByNode"
  shows "list_all (proxyGrounds plan r jobsByNode es') es"
  using assms(1) by (rule list.pred_mono_strong) (auto simp: proxyPatched_def proxyGrounds_def assms(2,3) split: event.splits)

lemma ensureKubeProxy_grounds:
  "runs [] (ensureKubeProxy E plan r jobsByNode) (\<lambda>_ es. list_all (proxyGrounds plan r jobsByNode es) es)"
  unfolding ensureKubeProxy_def Let_def setMessage_def
  by (intro runs_if runs_ok runs_thenOk [OF ensureKubeProxyUpgraded_outcome])
     (auto simp: proxyGrounds_patched intro!: runs_rules split: sum.split)

end
