(* ===== verification/PlanPhases.thy ===== *)
theory PlanPhases imports PlanCounts PlanProgress begin

text \<open>
  What a change of the phase in the status of a plan rests on: the jobs the reconcile has listed, the
  specification of the plan and the outcome of preflight.
\<close>

section \<open>Grounds of a phase\<close>

definition failedNodes :: "rollout \<Rightarrow> jobMap \<Rightarrow> int" where
  "failedNodes r jobsByNode = countWith (isFailed jobsByNode) (Nodes r)"

definition hasEnded :: "jobMap \<Rightarrow> node \<Rightarrow> bool" where
  "hasEnded jobsByNode n \<longleftrightarrow> isCompleted jobsByNode n \<or> isFailed jobsByNode n"

definition pausesOnFailure :: "patchPlan \<Rightarrow> bool" where
  "pausesOnFailure p \<longleftrightarrow> policy_Type (FailurePolicy (plan_Spec p)) = FailurePolicyPause"

text \<open>The status \<open>m\<close> records the result of the preflight checks in the conditions of \<open>b\<close>.\<close>

definition preflightStored :: "('v, 'm) klib_scheme \<Rightarrow> bool \<Rightarrow> patchPlan \<Rightarrow> patchPlan \<Rightarrow> bool" where
  "preflightStored K success b m \<longleftrightarrow>
     (\<exists>c. ps_Conditions (plan_Status m) = setCondition K (ps_Conditions (plan_Status b)) c \<and>
        cond_Type c = ConditionPreflightPassed \<and> cond_Status c = success)"

definition phaseGrounds ::
  "('v, 'm) klib_scheme \<Rightarrow> patchPlan \<Rightarrow> rollout \<Rightarrow> jobMap \<Rightarrow> event list \<Rightarrow> patchPlan \<Rightarrow> patchPlan \<Rightarrow> bool" where
  "phaseGrounds K plan r jobsByNode es b m =
     (case planPhase m of
        PatchPhaseCompleted \<Rightarrow> list_all (hasEnded jobsByNode) (Nodes r) \<and> \<not> budgetUsed b (failedNodes r jobsByNode)
      | PatchPhaseFailed \<Rightarrow> \<not> pausesOnFailure b \<and> budgetUsed b (failedNodes r jobsByNode) \<or>
          jobsByNode = [] \<and> preflightStored K False b m
      | PatchPhasePaused \<Rightarrow> Paused (plan_Spec b) \<or>
          (\<exists>p. version plan es p \<and> pausesOnFailure p \<and> budgetUsed p (failedNodes r jobsByNode))
      | PatchPhaseCancelled \<Rightarrow> Cancelled (plan_Spec b)
      | PatchPhaseInProgress \<Rightarrow> planPhase b = PatchPhasePaused \<and> \<not> Paused (plan_Spec b) \<or>
          list_ex (isPending jobsByNode) (Nodes r)
      | PatchPhasePreflighting \<Rightarrow> jobsByNode = []
      | PatchPhasePending \<Rightarrow> jobsByNode = [] \<and> preflightStored K True b m
      | _ \<Rightarrow> False)"

definition keepsPhase :: "event \<Rightarrow> bool" where
  "keepsPhase e = (case e of EvPatchPlanStatus b m _ \<Rightarrow> planPhase m = planPhase b | _ \<Rightarrow> True)"

definition phasesJustified ::
  "('v, 'm) klib_scheme \<Rightarrow> patchPlan \<Rightarrow> rollout \<Rightarrow> jobMap \<Rightarrow> event list \<Rightarrow> bool" where
  "phasesJustified K plan r jobsByNode es \<longleftrightarrow> list_all (\<lambda>e. keepsPhase e \<or>
     (case e of EvPatchPlanStatus b m _ \<Rightarrow> phaseGrounds K plan r jobsByNode es b m | _ \<Rightarrow> True)) es"

lemma keepsPhase_simps [simp]:
  "keepsPhase (EvPatchPlanStatus b m rp) \<longleftrightarrow> planPhase m = planPhase b" "keepsPhase (EvNow t)"
  "keepsPhase (EvListJobs a rj)" "keepsPhase (EvListLeases ns a rl)" "keepsPhase (EvPatchPlan b m rp)"
  "keepsPhase (EvGetDaemonSet ns a rd)" "keepsPhase (EvPatchDaemonSet d d2 ro)" "keepsPhase (EvCreateJob j rc)"
  "keepsPhase (EvCreateLease l ro)" "keepsPhase (EvDeleteLease l ro)"
  by (simp_all add: keepsPhase_def)

lemma justified_keeps: "list_all keepsPhase es \<Longrightarrow> phasesJustified K plan r jobsByNode es"
  by (auto simp: phasesJustified_def list_all_iff)

lemma phases_Nil [simp]: "phasesJustified K plan r jobsByNode []"
  by (simp add: justified_keeps)

lemma grounds_more:
  assumes "phaseGrounds K p r jobsByNode es b m" and "\<And>q. version p es q \<Longrightarrow> version plan es' q"
  shows "phaseGrounds K plan r jobsByNode es' b m"
  using assms by (auto simp: phaseGrounds_def split: patchPhase.splits)

lemma justified_append:
  assumes h: "phasesJustified K plan r jobsByNode h" and v: "version plan h p"
    and es: "phasesJustified K p r jobsByNode es"
  shows "phasesJustified K plan r jobsByNode (h @ es)"
proof -
  have "phaseGrounds K plan r jobsByNode (h @ es) b m" if "phaseGrounds K plan r jobsByNode h b m" for b m
    by (rule grounds_more [OF that]) (simp add: version_append)
  moreover have "phaseGrounds K plan r jobsByNode (h @ es) b m" if "phaseGrounds K p r jobsByNode es b m" for b m
    by (rule grounds_more [OF that]) (rule version_trans [OF v])
  ultimately show ?thesis
    using h es unfolding phasesJustified_def list_all_append
    by (intro conjI; elim list.pred_mono_strong) (auto split: event.splits)
qed

lemma justified_after:
  "keepsPhase e \<Longrightarrow> phasesJustified K plan r jobsByNode es \<Longrightarrow> phasesJustified K plan r jobsByNode (e # es)"
  using justified_append [of K plan r jobsByNode "[e]" plan es] by (simp add: justified_keeps)

lemma runs_keeps: "emits keepsPhase m \<Longrightarrow> runs [] m (\<lambda>_. phasesJustified K plan r jobsByNode)"
  by (erule runs_emits) (rule justified_keeps, simp)

lemma runs_justified:
  assumes "runs [] m (\<lambda>_. phasesJustified K p r jobsByNode)"
    and "phasesJustified K plan r jobsByNode h" and "version plan h p"
  shows "runs h m (\<lambda>_. phasesJustified K plan r jobsByNode)"
  by (rule runs_frame [OF assms(1)]) (rule justified_append [OF assms(2,3)])

text \<open>A status write that changes the phase on good grounds, and what follows it.\<close>

lemma justified_write:
  assumes "planPhase m = planPhase b \<or> phaseGrounds K plan r jobsByNode [] b m"
  shows "phasesJustified K plan r jobsByNode [EvPatchPlanStatus b m rp]"
proof -
  have "phaseGrounds K plan r jobsByNode [] b m \<Longrightarrow> phaseGrounds K plan r jobsByNode [EvPatchPlanStatus b m rp] b m"
    by (erule grounds_more) (simp add: version_def)
  then show ?thesis using assms by (auto simp: phasesJustified_def)
qed

section \<open>The guards\<close>

lemma updateStatus_justified:
  assumes "ps_Phase (mutate (plan_Status plan)) = planPhase plan \<or>
    phaseGrounds K plan r jobsByNode [] plan (withStatus plan mutate)"
  shows "runs [] (updateStatus E plan mutate) (\<lambda>_. phasesJustified K plan r jobsByNode)"
  unfolding updateStatus_def by (rule runs_perform) (use assms in \<open>simp add: justified_write\<close>)

lemma justified_ok:
  assumes "runs [] m (\<lambda>_. phasesJustified K plan r jobsByNode)" and "phasesJustified K plan r jobsByNode h"
  shows "runs h (ifOk m (\<lambda>p. ok (f p))) (\<lambda>_. phasesJustified K plan r jobsByNode)"
  by (rule runs_ifOk, rule runs_frame [OF assms(1)])
     (auto intro!: runs_ok justified_append [OF assms(2)] split: sum.split)

lemma ensureCancelledState_phases: "runs [] (ensureCancelledState E plan) (\<lambda>_. phasesJustified E plan r jobsByNode)"
  unfolding ensureCancelledState_def
  by (intro runs_if runs_ok runs_bind runs_perform justified_ok updateStatus_justified)
     (simp_all add: phaseGrounds_def justified_keeps)

lemma ensurePauseState_phases:
  "runs [] (ensurePauseState E plan failed) (\<lambda>_. phasesJustified E plan r jobsByNode)"
  unfolding ensurePauseState_def Let_def
  by (intro runs_if runs_ok justified_ok updateStatus_justified) (simp_all add: phaseGrounds_def)

lemma recordPreflight_phases:
  "runs [] (recordPreflight E plan r) (\<lambda>_. phasesJustified E plan r [])"
proof -
  have "emits keepsPhase (runPreflight E plan r)"
    by (rule emits_mono [OF inspects_runPreflight]) (auto simp: inspects_def keepsPhase_def split: event.splits)
  note checks = runs_keeps [OF this, of E plan r "[]"]
  show ?thesis
    unfolding recordPreflight_def Let_def
  proof (rule runs_thenOk [OF checks], goal_cases)
    case (2 res es)
    then show ?case
      by (intro justified_ok updateStatus_justified)
         (auto simp: phaseGrounds_def preflightStored_def preflightCondition_def split: list.split)
  qed simp
qed

lemma ensurePreflight_phases:
  "runs [] (ensurePreflight E plan r jobsByNode) (\<lambda>_. phasesJustified E plan r jobsByNode)"
  unfolding ensurePreflight_def
proof (intro runs_if runs_ok, goal_cases)
  case 3
  show ?case
  proof (rule runs_ifOk, rule runs_updateStatus, goal_cases)
    case (1 x)
    have started: "phasesJustified E plan r jobsByNode [EvPatchPlanStatus plan (withStatus plan
        (\<lambda>s. s\<lparr>ps_Phase := PatchPhasePreflighting, ps_Message := ''Running preflight checks''\<rparr>)) x]"
      by (rule justified_write) (use 3 in \<open>simp add: phaseGrounds_def\<close>)
    show ?case
      using 3 started
      by (cases x) (auto intro!: runs_justified [OF recordPreflight_phases] simp: version_Cons)
  qed
qed (use recordPreflight_phases in \<open>auto\<close>)

lemma ensureKubeProxy_phases:
  "runs [] (ensureKubeProxy E plan r jobsByNode) (\<lambda>_. phasesJustified E plan r jobsByNode)"
proof -
  have "emits keepsPhase (ensureKubeProxyUpgraded E v)" for v
    unfolding ensureKubeProxyUpgraded_def Let_def by (auto intro!: emits_rules split: list.split)
  then show ?thesis
    unfolding ensureKubeProxy_def Let_def by (intro runs_keeps emits_rules) simp_all
qed

lemma failureBudgetExceeded_phases:
  "runs [] (failureBudgetExceeded E plan (failedNodes r jobsByNode)) (\<lambda>_. phasesJustified E plan r jobsByNode)"
proof -
  let ?failed = "failedNodes r jobsByNode"
  have pause: "runs [] (pauseOnFailures E plan ?failed) (\<lambda>_. phasesJustified E plan r jobsByNode)"
    if "pausesOnFailure plan" "budgetUsed plan ?failed"
  proof -
    have mark: "phasesJustified E plan r jobsByNode [EvPatchPlanStatus p (withStatus p
        (\<lambda>s. s\<lparr>ps_Phase := PatchPhasePaused, ps_Message := msg\<rparr>)) rp]" for p rp msg
      by (rule justified_write) (use that in \<open>auto simp: phaseGrounds_def intro: version_self\<close>)
    show ?thesis
      unfolding pauseOnFailures_def Let_def
      by (intro runs_rules) (auto intro!: runs_rules mark justified_after split: sum.split)
  qed
  show ?thesis
    unfolding failureBudgetExceeded_def Let_def
    by (intro runs_if runs_ok runs_bind runs_perform justified_ok updateStatus_justified pause)
       (simp_all add: phaseGrounds_def justified_keeps budgetUsed_def pausesOnFailure_def)
qed

lemma allNodesProcessed_phases:
  assumes "allDone c (Total r) \<Longrightarrow> list_all (hasEnded jobsByNode) (Nodes r)"
    and "\<not> budgetUsed plan (failedNodes r jobsByNode)"
  shows "runs [] (allNodesProcessed E plan c (Total r)) (\<lambda>_. phasesJustified E plan r jobsByNode)"
  unfolding allNodesProcessed_def
  by (intro runs_if runs_ok runs_bind runs_perform justified_ok updateStatus_justified)
     (use assms in \<open>simp_all add: phaseGrounds_def justified_keeps allDone_def\<close>)

section \<open>Scheduling\<close>

lemma keeps_scheduleLoop: "emits keepsPhase (scheduleLoop E plan r jobsByNode grp k ns)"
proof (induction ns arbitrary: plan k)
  case (Cons n ns)
  have "emits keepsPhase (waitForControlPlane E plan r jobsByNode n)"
    unfolding waitForControlPlane_def Let_def by (intro emits_rules) simp
  moreover have "emits keepsPhase (createPatchJob E p n grp)" for p
    unfolding createPatchJob_def by (intro emits_rules emits_acquireLease) simp_all
  ultimately show ?case
    by (auto intro!: emits_orReturn emits_if emits_return Cons.IH)
qed (simp add: emits_return)

lemma markInProgress_phases:
  "list_ex (isPending jobsByNode) (Nodes r) \<Longrightarrow>
   runs [] (markInProgress E plan) (\<lambda>_. phasesJustified E plan r jobsByNode)"
  unfolding markInProgress_def
  by (intro runs_if runs_ok runs_bind runs_option runs_return runs_perform)
     (auto simp: phaseGrounds_def intro!: justified_write justified_after runs_updateStatus)

lemma scheduleInWindow_phases:
  "runs [] (scheduleInWindow E plan r jobsByNode active) (\<lambda>_. phasesJustified E plan r jobsByNode)"
proof -
  have wait: "emits keepsPhase (waitForWindow E plan)"
    unfolding waitForWindow_def by (intro emits_rules) simp_all
  have group: "runs [] (scheduleGroup E plan r jobsByNode active g) (\<lambda>_. phasesJustified E plan r jobsByNode)"
    if g: "g \<in> set (rollout_Groups r)" for g
    unfolding scheduleGroup_def Let_def
  proof (intro runs_if, goal_cases)
    case 3
    then obtain n where "n \<in> set (pendingNodes jobsByNode g)" by (metis last_in_set)
    then have "list_ex (isPending jobsByNode) (Nodes r)"
      using g by (auto simp: pendingNodes_def isPending_def outcomeOf_def Nodes_def list_ex_iff)
    note mark = markInProgress_phases [OF this, of E plan]
    have delay: "emits keepsPhase (delayRemaining E plan jobsByNode)"
      unfolding delayRemaining_def Let_def by (intro emits_rules) simp_all
    show ?case
    proof (rule runs_seq [OF runs_keeps [OF delay, of E plan r jobsByNode]], rule runs_if, goal_cases)
      case (2 wait es)
      show ?case
      proof (rule runs_thenReturn [OF runs_conj [OF mark markInProgress_version]], goal_cases)
        case (2 p es2)
        then show ?case
          using justified_append [OF \<open>phasesJustified E plan r jobsByNode es\<close> version_self, of es2]
          by (intro runs_justified [where p = p, OF runs_keeps [OF keeps_scheduleLoop]]) (simp_all add: version_append)
      qed (use 2 in \<open>auto intro: justified_append [OF _ version_self]\<close>)
    qed (simp add: runs_return)
  qed (simp_all add: runs_return)
  have nodes: "runs [] (scheduleNodes E plan r jobsByNode active) (\<lambda>_. phasesJustified E plan r jobsByNode)"
    unfolding scheduleNodes_def
    by (intro runs_option runs_return group) (auto simp: find_Some_iff)
  show ?thesis
    unfolding scheduleInWindow_def
    by (intro runs_bind runs_perform runs_if runs_justified [where p = plan, OF runs_keeps [OF wait]] runs_justified [OF nodes])
       (simp_all add: justified_keeps)
qed

section \<open>A reconcile\<close>

lemma runs_justified_guard:
  assumes "runs [] m (continues p G)" and "runs [] m (\<lambda>_. phasesJustified K p r jobsByNode)"
    and h: "phasesJustified K plan r jobsByNode h" "version plan h p"
    and rest: "\<And>a q es. G a q es \<Longrightarrow> phasesJustified K plan r jobsByNode (h @ es) \<Longrightarrow> version plan (h @ es) q \<Longrightarrow>
      runs (h @ es) (f a q) (\<lambda>_. phasesJustified K plan r jobsByNode)"
  shows "runs h (orReturn m (\<lambda>(a, q). f a q)) (\<lambda>_. phasesJustified K plan r jobsByNode)"
proof (rule runs_thenReturn [OF runs_conj [OF assms(1,2)]], goal_cases)
  case (1 e es)
  then show ?case using justified_append [OF h] by simp
next
  case (2 ap es)
  then show ?case
    using justified_append [OF h, of es] version_trans [OF h(2)] rest
    by (cases ap) (auto simp: continues_def)
qed

lemma advancePlan_phases:
  assumes "jc_Failed c = failedNodes r jobsByNode" and "allDone c (Total r) \<Longrightarrow> list_all (hasEnded jobsByNode) (Nodes r)"
  shows "runs [] (advancePlan E plan r jobsByNode active c) (\<lambda>_. phasesJustified E plan r jobsByNode)"
proof -
  have final: "runs h (terminalResult E p) (\<lambda>_. phasesJustified E plan r jobsByNode)"
    if "phasesJustified E plan r jobsByNode h" for h p
    by (rule runs_justified [where p = plan, OF runs_keeps that version_self]) (auto intro!: emits_terminalResult)
  note rule = runs_justified_guard
  show ?thesis
    unfolding advancePlan_def
  proof (rule rule [OF ensureCancelledState_outcome ensureCancelledState_phases], simp, simp, rule runs_if, goal_cases)
    case (2 b p1 h1)
    show ?case
    proof (rule rule [OF ensurePauseState_outcome ensurePauseState_phases 2(2,3)], rule runs_if, goal_cases)
      case P: (2 b p2 h2)
      show ?case
      proof (rule rule [OF ensurePreflight_outcome ensurePreflight_phases P(2,3)], rule runs_if, goal_cases)
        case F: (2 b p3 h3)
        show ?case
        proof (rule rule [OF ensureKubeProxy_outcome ensureKubeProxy_phases F(2,3)], rule runs_if, goal_cases)
          case K: (2 w p4 h4)
          show ?case
            unfolding assms(1)
          proof (rule rule [OF failureBudgetExceeded_outcome failureBudgetExceeded_phases K(2,3)], rule runs_if, goal_cases)
            case B: (2 b p5 h5)
            then have "\<not> budgetUsed p5 (failedNodes r jobsByNode)" by simp
            from allNodesProcessed_phases [OF assms(2) this] show ?case
            proof (rule rule [OF allNodesProcessed_outcome _ B(2,3)], goal_cases)
              case (2 b p6 h6)
              show ?case
                by (intro runs_if final runs_justified [OF scheduleInWindow_phases]) (use 2 in simp_all)
            qed
          qed (rule final)
        qed (simp add: runs_return)
      qed (simp add: runs_return)
    qed (simp add: runs_return)
  qed (rule final)
qed

text \<open>The counts of the summary, as the guards use them.\<close>

lemma countWith_split: "countWith P ns + countWith Q ns = countWith (\<lambda>n. P n \<or> Q n) ns"
  if "\<And>n. \<not> (P n \<and> Q n)"
  using that by (induction ns) auto

lemma countWith_all: "int (length ns) \<le> countWith P ns \<Longrightarrow> list_all P ns"
  unfolding countWith_def list_all_iff using length_filter_less [of _ ns P] by (metis not_le of_nat_le_iff)

lemma allDone_ended:
  assumes "c = fst (summarize plan r jobsByNode active)" and "allDone c (Total r)"
  shows "list_all (hasEnded jobsByNode) (Nodes r)"
proof (rule countWith_all)
  have "countWith (isCompleted jobsByNode) (Nodes r) + countWith (isFailed jobsByNode) (Nodes r) =
      countWith (hasEnded jobsByNode) (Nodes r)"
    unfolding hasEnded_def [abs_def] by (rule countWith_split) (auto simp: isCompleted_def isFailed_def split: option.splits)
  then show "int (length (Nodes r)) \<le> countWith (hasEnded jobsByNode) (Nodes r)"
    using assms by (simp add: allDone_def summarize_counts Total_eq_length)
qed

lemma summarizePlan_counts: "summarizePlan plan r jobsByNode active = (c, p) \<Longrightarrow> c = fst (summarize plan r jobsByNode active)"
  by (auto simp: summarizePlan_def split: prod.splits)

text \<open>From the listing of the jobs on.\<close>

definition rolloutPhases :: "('v, 'm) klib_scheme \<Rightarrow> patchPlan \<Rightarrow> rollout \<Rightarrow> event list \<Rightarrow> bool" where
  "rolloutPhases K plan r es = (case es of
      EvListJobs _ (Inr jobs) # rest \<Rightarrow> phasesJustified K plan r (indexJobs jobs) rest
    | _ \<Rightarrow> list_all keepsPhase es)"

lemma reconcileRollout_phases: "runs [] (reconcileRollout E plan r) (\<lambda>_. rolloutPhases E plan r)"
proof -
  let ?J = "\<lambda>jobs. phasesJustified E plan r (indexJobs jobs)"
  have "emits keepsPhase (syncLeases E plan r jobs)" for jobs
    by (intro emits_syncLeases) simp_all
  then have sync: "runs [] (syncLeases E plan r jobs) (\<lambda>_. ?J jobs)" for jobs
    by (rule runs_keeps)
  have go: "runs (EvListJobs (plan_Name plan) (Inr jobs) # es) (advancePlan E p r (indexJobs jobs) active c)
      (\<lambda>_. rolloutPhases E plan r)"
    if "summarizePlan plan r (indexJobs jobs) active = (c, counted)" "?J jobs es" "version plan es p"
    for jobs es p active c counted
    using summarizePlan_counts [OF that(1)] that(2,3)
    by (intro runs_frame [OF advancePlan_phases] allDone_ended)
       (auto simp: rolloutPhases_def summarize_counts failedNodes_def intro: justified_append)
  have counted: "?J jobs (es @ [EvPatchPlanStatus plan counted a])"
    if "summarizePlan plan r (indexJobs jobs) active = (c, counted)" "?J jobs es" for jobs es active c counted a
    using summarizePlan_withStatus [OF that(1)] that(2)
    by (auto intro!: justified_append [OF _ version_self] justified_write)
  show ?thesis
    by (rule runs_reconcileRollout [OF sync])
       (auto intro!: go counted simp: rolloutPhases_def version_append version_Cons)
qed

end
