(* ===== verification/PreflightFacts.thy ===== *)
theory PreflightFacts imports PlanTraces JobTraces begin

text \<open>
  What a passed preflight has established. A check only ever appends to the failures, so an empty list
  at the end means that every check of the run found its condition satisfied, by the answers it got.
\<close>

section \<open>Conditions\<close>

text \<open>A plan that may run and shares nodes was not among the listed ones.\<close>

definition noOverlap :: "('v, 'm) klib_scheme \<Rightarrow> string list \<Rightarrow> event list \<Rightarrow> patchPlan \<Rightarrow> bool" where
  "noOverlap K mine es other \<longleftrightarrow>
     (\<exists>sel nodes. EvListNodes sel (Inr nodes) \<in> set es \<and>
        (case Resolve K nodes (plan_Spec other) of Inl _ \<Rightarrow> True | Inr r \<Rightarrow> overlapWith mine r = []))"

definition noConflict :: "('v, 'm) klib_scheme \<Rightarrow> patchPlan \<Rightarrow> string list \<Rightarrow> event list \<Rightarrow> patchPlan list \<Rightarrow> bool" where
  "noConflict K plan mine es plans \<longleftrightarrow>
     list_all (\<lambda>other. skipsPlan plan other \<or> noOverlap K mine es other) plans"

text \<open>A probe tells what the node's Talos API and its Node object said.\<close>

definition probed :: "event list \<Rightarrow> node \<Rightarrow> nodeProbe \<Rightarrow> bool" where
  "probed es n p \<longleftrightarrow> probe_node p = node_Name n \<and> probe_kubernetesVersion p = KubeletVersion n \<and>
     (\<exists>addr msgs. GetNodeInternalIP n = Inr addr \<and> EvTalosVersion (Some addr) (Inr msgs) \<in> set es \<and>
        firstTag msgs = Some (probe_version p))"

definition manifestServed :: "event list \<Rightarrow> string \<Rightarrow> bool" where
  "manifestServed es img \<longleftrightarrow> (\<exists>host repo tag t c. parseImage img = Inr (host, repo, tag) \<and>
     EvHttpHead (''https://'' @ host @ ''/v2/'' @ repo @ ''/manifests/'' @ tag) t (Inr (200, c)) \<in> set es)"

text \<open>The versions a node ends up with are a supported combination, or of an unknown Talos version.\<close>

definition supportedTransition :: "('v, 'm) klib_scheme \<Rightarrow> (string \<times> string) \<times> (string \<times> string) \<Rightarrow> bool" where
  "supportedTransition K t \<longleftrightarrow> fst t = snd t \<or> snd (snd t) = '''' \<or> fst (snd t) = '''' \<or>
     (case ValidateKubernetesVersion K (fst (snd t)) (snd (snd t)) of
        None \<Rightarrow> True | Some err \<Rightarrow> errIs err ErrUnknownTalosVersion)"

definition allowedVersions :: "('v, 'm) klib_scheme \<Rightarrow> targetSpec \<Rightarrow> nodeProbe \<Rightarrow> bool" where
  "allowedVersions K target p \<longleftrightarrow>
     (TalosVersion target = '''' \<or> AllowTalosDowngrade target \<or> \<not> isDowngrade K (probe_version p) (TalosVersion target)) \<and>
     (KubernetesVersion target = '''' \<or> \<not> isDowngrade K (probe_kubernetesVersion p) (KubernetesVersion target)) \<and>
     supportedTransition K (transitionOf target p)"

text \<open>A node that needs the Talos upgrade has its installer image in the registry.\<close>

definition installerServed :: "targetSpec \<Rightarrow> event list \<Rightarrow> nodeProbe \<Rightarrow> bool" where
  "installerServed target es p \<longleftrightarrow>
     \<not> needsTalosUpgrade target (probe_version p) (probe_schematicID p) \<or>
     (\<exists>img. BuildInstallerImage target (probe_schematicID p) = Inr img \<and> manifestServed es img)"

lemma noOverlap_append: "noOverlap K mine es p \<or> noOverlap K mine es' p \<Longrightarrow> noOverlap K mine (es @ es') p"
  by (auto simp: noOverlap_def)

lemma noConflict_append: "noConflict K plan mine es ps \<or> noConflict K plan mine es' ps \<Longrightarrow> noConflict K plan mine (es @ es') ps"
  by (auto simp: noConflict_def list_all_iff intro: noOverlap_append)

lemma noConflict_Cons:
  "noConflict K plan mine es (p # ps) \<longleftrightarrow> (skipsPlan plan p \<or> noOverlap K mine es p) \<and> noConflict K plan mine es ps"
  by (simp add: noConflict_def)

lemma noOverlap_read:
  "(case Resolve K nodes (plan_Spec p) of Inl _ \<Rightarrow> True | Inr r \<Rightarrow> overlapWith mine r = []) \<Longrightarrow>
   noOverlap K mine (EvListNodes sel (Inr nodes) # es) p"
  by (auto simp: noOverlap_def)

lemma probed_append: "probed es n p \<or> probed es' n p \<Longrightarrow> probed (es @ es') n p"
  by (auto simp: probed_def)

lemma manifestServed_append: "manifestServed es img \<or> manifestServed es' img \<Longrightarrow> manifestServed (es @ es') img"
  unfolding manifestServed_def by fastforce

section \<open>Pure checks\<close>

lemma failures_simps [simp]:
  "failures (fail reason m res) = failures res @ [(reason, m)]" "failures (pass m res) = failures res"
  by (simp_all add: fail_def pass_def)

lemma checkUpgradeOrder_ok:
  "failures (checkUpgradeOrder target r res) = [] \<Longrightarrow>
   failures res = [] \<and> (KubernetesVersion target = '''' \<or> CheckControlPlaneFirst r = None)"
  by (auto simp: checkUpgradeOrder_def split: if_splits option.splits)

lemma checkQuorum_ok: "failures (checkQuorum r res) = [] \<Longrightarrow> failures res = [] \<and> CheckControlPlaneQuorum r = None"
  by (auto simp: checkQuorum_def split: option.splits)

lemma checkNoDowngrade_ok:
  assumes "failures (checkNoDowngrade K target probes res) = []"
  shows "failures res = [] \<and> list_all (\<lambda>p.
     (TalosVersion target = '''' \<or> AllowTalosDowngrade target \<or> \<not> isDowngrade K (probe_version p) (TalosVersion target)) \<and>
     (KubernetesVersion target = '''' \<or> \<not> isDowngrade K (probe_kubernetesVersion p) (KubernetesVersion target))) probes"
  using assms by (auto simp: checkNoDowngrade_def olderNodes_def Let_def filter_empty_conv list_all_iff split: if_splits)

lemma checkTransition_ok:
  "failures (checkTransition K res t) = [] \<Longrightarrow> failures res = [] \<and> supportedTransition K t"
  by (auto simp: checkTransition_def supportedTransition_def Let_def split: if_splits option.splits)

lemma checkTransitions_ok:
  "failures (foldl (checkTransition K) res ts) = [] \<Longrightarrow> failures res = [] \<and> list_all (supportedTransition K) ts"
proof (induction ts arbitrary: res)
  case (Cons t ts)
  then show ?case using Cons.IH [of "checkTransition K res t"] checkTransition_ok [of K res t] by simp
qed simp

lemma collectTransitions_covers:
  "t \<in> set ts \<Longrightarrow> t \<in> set seen \<or> t \<in> set (collectTransitions seen ts) \<or> snd (snd t) = '''' \<or> fst (snd t) = ''''"
  by (induction seen ts rule: collectTransitions.induct) auto

lemma checkVersionCompatibility_ok:
  assumes "failures (checkVersionCompatibility K target probes res) = []"
  shows "failures res = [] \<and> list_all (\<lambda>p. supportedTransition K (transitionOf target p)) probes"
proof -
  let ?ts = "collectTransitions [] (map (transitionOf target) probes)"
  from checkTransitions_ok [OF assms [unfolded checkVersionCompatibility_def]]
  have "failures res = []" and all: "list_all (supportedTransition K) ?ts"
    by (simp_all add: list_all_iff set_sortFunc)
  moreover have "supportedTransition K (transitionOf target p)" if "p \<in> set probes" for p
  proof -
    have "transitionOf target p \<in> set ?ts \<or> snd (snd (transitionOf target p)) = '''' \<or> fst (snd (transitionOf target p)) = ''''"
      using collectTransitions_covers [of "transitionOf target p" "map (transitionOf target) probes" "[]"] that by auto
    then show ?thesis using all by (auto simp: list_all_iff supportedTransition_def)
  qed
  ultimately show ?thesis by (simp add: list_all_iff)
qed

section \<open>Checks with calls\<close>

lemma skew_outcome:
  "runs [] (checkAPIServerSkew E target r res) (\<lambda>res2 es. failures res2 = [] \<longrightarrow> failures res = [])"
  unfolding checkAPIServerSkew_def
  by (intro runs_rules) (auto simp: checkKubeletSkew_def split: sum.splits if_splits)

lemma conflictLoop_outcome:
  "runs [] (conflictLoop E plan mine k res others) (\<lambda>out es. case out of
      Inl _ \<Rightarrow> True
    | Inr (_, res2) \<Rightarrow> failures res2 = [] \<longrightarrow> failures res = [] \<and> noConflict E plan mine es others)"
proof (induction others arbitrary: k res)
  case Nil
  show ?case by (auto simp: noConflict_def intro!: runs_rules)
next
  case (Cons other others)
  let ?Q = "\<lambda>others out es. case out of Inl _ \<Rightarrow> True
    | Inr (_, res2) \<Rightarrow> failures res2 = [] \<longrightarrow> failures res = [] \<and> noConflict E plan mine es others"
  show ?case
  proof (simp only: conflictLoop.simps, rule runs_if, goal_cases)
    case 1
    then show ?case by (intro runs_mono [OF Cons.IH]) (auto simp: noConflict_Cons split: sum.splits)
  next
    case 2
    have rest: "runs ([] @ [EvListNodes sel (Inr nodes)]) (conflictLoop E plan mine k2 res2 others) (?Q (other # others))"
      if "failures res2 = [] \<Longrightarrow> failures res = [] \<and>
            (case Resolve E nodes (plan_Spec other) of Inl _ \<Rightarrow> True | Inr r \<Rightarrow> overlapWith mine r = [])"
      for sel nodes k2 res2
    proof (rule runs_frame [OF Cons.IH])
      fix out es
      assume "case out of Inl _ \<Rightarrow> True
        | Inr (_, res3) \<Rightarrow> failures res3 = [] \<longrightarrow> failures res2 = [] \<and> noConflict E plan mine es others"
      moreover have "noConflict E plan mine es others \<Longrightarrow> noConflict E plan mine (EvListNodes sel (Inr nodes) # es) others"
        using noConflict_append [of E plan mine "[EvListNodes sel (Inr nodes)]" others es] by simp
      ultimately show "?Q (other # others) out (([] @ [EvListNodes sel (Inr nodes)]) @ es)"
        using that noOverlap_read [where sel = sel and es = es]
        by (auto simp: noConflict_Cons simp del: sum.case_eq_if split: sum.splits)
    qed
    show ?case
    proof (rule runs_ifOk, rule runs_ListMatchingNodes, goal_cases)
      case (2 sel res2)
      show ?case
      proof (cases res2)
        case (Inr nodes)
        show ?thesis
        proof (cases "Resolve E nodes (plan_Spec other)")
          case R: (Inl err)
          show ?thesis unfolding Inr sum.case R by (rule rest) (simp add: R)
        next
          case R: (Inr r2)
          show ?thesis unfolding Inr sum.case R Let_def by (intro runs_if rest) (simp_all add: R)
        qed
      qed simp
    qed simp
  qed
qed

lemma checkConflictingPlans_outcome:
  "runs [] (checkConflictingPlans E plan ns res) (\<lambda>out es. case out of
      Inl _ \<Rightarrow> True
    | Inr res2 \<Rightarrow> failures res2 = [] \<longrightarrow> failures res = [] \<and>
        (\<exists>plans. EvListPlans (Inr plans) \<in> set es \<and> noConflict E plan (map node_Name ns) es plans))"
  unfolding checkConflictingPlans_def
proof (rule runs_bind, rule runs_perform, goal_cases)
  case (1 l)
  show ?case
  proof (cases l)
    case (Inr plans)
    have "noConflict E plan (map node_Name ns) es plans \<Longrightarrow>
        noConflict E plan (map node_Name ns) (EvListPlans (Inr plans) # es) plans" for es
      using noConflict_append [of E plan "map node_Name ns" "[EvListPlans (Inr plans)]" plans es] by simp
    then show ?thesis
      unfolding Inr sum.case
      by (intro runs_thenOk [OF conflictLoop_outcome]) (auto intro!: runs_rules exI [of _ plans])
  qed (auto intro!: runs_return)
qed

lemma checkKubernetesAPI_outcome:
  "runs [] (checkKubernetesAPI E res) (\<lambda>res2 es. failures res2 = [] \<longrightarrow> failures res = [] \<and>
     (hasDiscovery E \<longrightarrow> EvReadyz None \<in> set es))"
  unfolding checkKubernetesAPI_def by (intro runs_rules) auto

lemma probeNode_outcome:
  "runs [] (probeNode E n s) (\<lambda>out es. case out of Inl _ \<Rightarrow> True | Inr p \<Rightarrow> probed es n p)"
  unfolding probeNode_def GetSchematicID_def Let_def
  by (intro runs_rules runs_GetVersion) (auto simp: probed_def intro!: runs_rules)

definition sound :: "event list \<Rightarrow> node \<times> (goerr + nodeProbe) \<Rightarrow> bool" where
  "sound es x = (case snd x of Inl _ \<Rightarrow> True | Inr p \<Rightarrow> probed es (fst x) p)"

lemma sound_append: "sound es x \<or> sound es' x \<Longrightarrow> sound (es @ es') x"
  by (auto simp: sound_def intro: probed_append split: sum.splits)

lemma probeAll_outcome:
  "runs [] (probeAll E s ns) (\<lambda>outs es. map fst outs = ns \<and> list_all (sound es) outs)"
proof (induction ns)
  case Nil
  show ?case by (auto intro!: runs_rules)
next
  case (Cons n ns)
  show ?case
  proof (simp only: probeAll.simps, rule runs_seq [OF probeNode_outcome], rule runs_seq [OF Cons.IH], goal_cases)
    case (1 p es outs es2)
    then have "sound es (n, p)" by (auto simp: sound_def split: sum.splits)
    with 1 show ?case by (auto simp: list_all_iff intro!: runs_return sound_append)
  qed
qed

lemma noteProbe_Inl: "noteProbe (res, ps) (n, Inl err) = (res2, qs) \<Longrightarrow> failures res2 \<noteq> []"
  by (auto simp: noteProbe_def)

lemma noteProbe_Inr: "noteProbe (res, ps) (n, Inr p) = (res, ps @ [p])"
  by (simp add: noteProbe_def)

lemma noteProbe_ok:
  assumes "foldl noteProbe (res, []) outs = (res2, probes)" and "failures res2 = []"
  shows "failures res = [] \<and> map (Inr :: nodeProbe \<Rightarrow> goerr + nodeProbe) probes = map snd outs"
  using assms
proof (induction outs arbitrary: res res2 probes rule: rev_induct)
  case (snoc x outs)
  obtain res3 ps where P: "foldl noteProbe (res, []) outs = (res3, ps)" by fastforce
  show ?case
    using snoc.IH [OF P] snoc.prems P
    by (cases x; cases "snd x") (auto simp: noteProbe_Inr dest: noteProbe_Inl)
qed auto

lemma runs_trivial: "emits P m \<Longrightarrow> runs [] m (\<lambda>_ _. True)"
  by (rule runs_emits) simp_all

lemma checkTalosNodes_outcome:
  "runs [] (checkTalosNodes E plan ns res) (\<lambda>out es. failures (fst out) = [] \<longrightarrow>
     failures res = [] \<and> list_all2 (probed es) ns (snd out))"
proof -
  let ?Q = "\<lambda>out es. failures (fst out) = [] \<longrightarrow> failures res = [] \<and> list_all2 (probed es) ns (snd out)"
  have close: "runs h (State_Monad.bind (Close E) (\<lambda>_. return out)) ?Q"
    if "failures (fst out) = [] \<longrightarrow> failures res = [] \<and> list_all2 (probed h) ns (snd out)" for h out
  proof (rule runs_seq [OF runs_trivial [OF emits_Close [of "\<lambda>_. True"]]], simp, rule runs_return)
    fix u es
    show "?Q out (h @ es)" using that by (auto elim!: list_all2_mono intro: probed_append)
  qed
  have probe: "runs h (case foldl noteProbe (pass m res, []) outs of (res2, probes) \<Rightarrow>
        return (if list_all (\<lambda>x. \<not> isl (snd x)) outs then pass (m2 probes) res2 else res2, probes)) ?Q"
    if "map fst outs = ns" "list_all (sound h) outs" for h m m2 outs
  proof (cases "foldl noteProbe (pass m res, []) outs")
    case (Pair res2 probes)
    have "list_all2 (probed h) ns probes" if "map (Inr :: nodeProbe \<Rightarrow> goerr + nodeProbe) probes = map snd outs"
    proof (rule list_all2_all_nthI)
      have len: "length probes = length outs" using arg_cong [OF that, of length] by simp
      then show "length ns = length probes" using \<open>map fst outs = ns\<close> by auto
      fix i
      assume "i < length ns"
      then have i: "i < length outs" using \<open>map fst outs = ns\<close> by auto
      then have "snd (outs ! i) = Inr (probes ! i)" "sound h (outs ! i)" "fst (outs ! i) = ns ! i"
        using arg_cong [OF that, of "\<lambda>xs. xs ! i"] len \<open>list_all (sound h) outs\<close> \<open>map fst outs = ns\<close>
        by (auto simp: list_all_iff)
      then show "probed h (ns ! i) (probes ! i)" by (simp add: sound_def)
    qed
    then show ?thesis
      using noteProbe_ok [OF Pair] by (simp add: Pair) (auto intro!: runs_return)
  qed
  show ?thesis
    unfolding checkTalosNodes_def Let_def
  proof (rule runs_seq [OF runs_trivial [OF inspects_openTalos]], rule runs_option, goal_cases)
    case (1 opened es)
    show ?case
    proof (rule runs_bind, rule runs_seq [OF runs_trivial [OF emits_CheckConnection [of "\<lambda>_. True"]]], simp,
        rule runs_option, goal_cases)
      case (1 conn es2)
      show ?case
      proof (rule runs_seq [OF probeAll_outcome], rule runs_mono [OF probe], goal_cases)
        case (3 outs es3 out h)
        show ?case by (rule close [OF 3(2)])
      qed (auto simp: list_all_iff intro: sound_append)
    next
      case (2 conn es2 err)
      show ?case by (rule runs_return, rule close) simp
    qed
  qed (auto intro: runs_return)
qed

lemma Exists_served: "runs [] (Exists E img) (\<lambda>out es. out = None \<longrightarrow> manifestServed es img)"
  unfolding Exists_def Let_def
  by (intro runs_rules runs_emits [OF emits_fetchToken [of "\<lambda>_. True"]])
     (auto simp: manifestResult_None manifestServed_def)

lemma checkImages_outcome:
  "runs [] (checkImages E reason a b c imgs res) (\<lambda>res2 es. failures res2 = [] \<longrightarrow>
     failures res = [] \<and> list_all (manifestServed es) imgs)"
proof (induction imgs arbitrary: res)
  case (Cons img imgs)
  show ?case
    by (simp only: checkImages.simps, rule runs_seq [OF Exists_served], rule runs_frame [OF Cons.IH])
       (auto simp: list_all_iff intro: manifestServed_append split: option.splits if_splits)
qed (auto intro!: runs_return)

lemma collectImages_ok:
  assumes "collectImages target (images, invalid, res) ps = (images2, invalid2, res2)" and "failures res2 = []"
  shows "failures res = [] \<and> fst ` set images \<subseteq> fst ` set images2 \<and>
     list_all (\<lambda>p. \<not> needsTalosUpgrade target (probe_version p) (probe_schematicID p) \<or>
        (\<exists>img\<in>fst ` set images2. BuildInstallerImage target (probe_schematicID p) = Inr img)) ps"
  using assms
proof (induction ps arbitrary: images invalid res)
  case (Cons p ps)
  have "set (map fst (AList.update k v images)) = insert k (set (map fst images))" for k and v :: "string list"
    by (auto simp: update_keys)
  then have keys: "fst ` set (AList.update k v images) = insert k (fst ` set images)" for k and v :: "string list"
    by simp
  show ?case
  proof (cases "needsTalosUpgrade target (probe_version p) (probe_schematicID p)")
    case True
    then show ?thesis
      using Cons.prems Cons.IH [OF _ Cons.prems(2)]
      by (cases "BuildInstallerImage target (probe_schematicID p)") (force simp: keys)+
  qed (use Cons in force)
qed simp

lemma checkTalosImages_outcome:
  "runs [] (checkTalosImages E target probes res) (\<lambda>res2 es. failures res2 = [] \<longrightarrow>
     failures res = [] \<and> list_all (installerServed target es) probes)"
proof (cases "TalosVersion target = ''''")
  case True
  then show ?thesis
    by (auto simp: checkTalosImages_def installerServed_def needsTalosUpgrade_def list_all_iff intro!: runs_return)
next
  case False
  obtain images invalid res2 where C: "collectImages target ([], False, res) probes = (images, invalid, res2)"
    by (cases "collectImages target ([], False, res) probes") auto
  let ?found = "list_all (\<lambda>p. \<not> needsTalosUpgrade target (probe_version p) (probe_schematicID p) \<or>
      (\<exists>img\<in>fst ` set images. BuildInstallerImage target (probe_schematicID p) = Inr img)) probes"
  have found: "failures res2 = [] \<Longrightarrow> failures res = [] \<and> ?found"
    using collectImages_ok [OF C] by simp
  have served: "list_all (installerServed target es) probes"
    if ?found "list_all (manifestServed es) (sortFunc strCompare (map fst images))" for es
    using that by (fastforce simp: list_all_iff installerServed_def)
  have none: "list_all (installerServed target es) probes" if ?found "images = []" for es
    using that by (auto simp: list_all_iff installerServed_def)
  have empty: "images = []" if "sortFunc strCompare (map fst images) = []"
    using that by (metis length_0_conv length_map length_sortFunc)
  show ?thesis
    using False empty
    by (auto simp: checkTalosImages_def C Let_def intro!: runs_return runs_mono [OF checkImages_outcome]
        dest!: found intro: served none)
qed

lemma checkKubernetesImages_outcome:
  "runs [] (checkKubernetesImages E target res) (\<lambda>res2 es. failures res2 = [] \<longrightarrow> failures res = [] \<and>
     (KubernetesVersion target = '''' \<or> list_all (manifestServed es)
        [BuildKubeletImage (KubernetesVersion target), BuildAPIServerImage (KubernetesVersion target),
         BuildControllerManagerImage (KubernetesVersion target), BuildSchedulerImage (KubernetesVersion target)]))"
  unfolding checkKubernetesImages_def Let_def
  by (intro runs_if runs_return runs_mono [OF checkImages_outcome]) auto

section \<open>The whole run\<close>

definition kubernetesImages :: "string \<Rightarrow> string list" where
  "kubernetesImages v = [BuildKubeletImage v, BuildAPIServerImage v, BuildControllerManagerImage v, BuildSchedulerImage v]"

lemma noConflict_mono: "noConflict K plan m es ps \<Longrightarrow> set es \<subseteq> set es' \<Longrightarrow> noConflict K plan m es' ps"
  unfolding noConflict_def noOverlap_def list_all_iff by blast

lemma probed_mono: "probed es n p \<Longrightarrow> set es \<subseteq> set es' \<Longrightarrow> probed es' n p"
  unfolding probed_def by blast

lemma manifestServed_mono: "manifestServed es img \<Longrightarrow> set es \<subseteq> set es' \<Longrightarrow> manifestServed es' img"
  unfolding manifestServed_def by blast

lemma installerServed_mono: "installerServed t es p \<Longrightarrow> set es \<subseteq> set es' \<Longrightarrow> installerServed t es' p"
  unfolding installerServed_def using manifestServed_mono by blast

lemma allowedVersions_checked:
  assumes "failures (checkVersionCompatibility K target probes res2) = []"
    and "failures (checkNoDowngrade K target probes res) = []"
  shows "failures res = [] \<and> list_all (allowedVersions K target) probes"
  using checkVersionCompatibility_ok [OF assms(1)] checkNoDowngrade_ok [OF assms(2)]
  by (auto simp: list_all_iff allowedVersions_def)

text \<open>What a run without failures has seen, and how the calls of the single checks make it up.\<close>

definition everythingChecked :: "('v, 's) env \<Rightarrow> patchPlan \<Rightarrow> rollout \<Rightarrow> event list \<Rightarrow> bool" where
  "everythingChecked E plan r es \<longleftrightarrow>
     Nodes r \<noteq> [] \<and> CheckControlPlaneQuorum r = None \<and>
     (KubernetesVersion (Target (plan_Spec plan)) = '''' \<or> CheckControlPlaneFirst r = None) \<and>
     (\<exists>plans. EvListPlans (Inr plans) \<in> set es \<and> noConflict E plan (map node_Name (Nodes r)) es plans) \<and>
     (hasDiscovery E \<longrightarrow> EvReadyz None \<in> set es) \<and>
     (\<exists>probes. list_all2 (probed es) (Nodes r) probes \<and>
        list_all (allowedVersions E (Target (plan_Spec plan))) probes \<and>
        list_all (installerServed (Target (plan_Spec plan)) es) probes) \<and>
     (KubernetesVersion (Target (plan_Spec plan)) = '''' \<or>
        list_all (manifestServed es) (kubernetesImages (KubernetesVersion (Target (plan_Spec plan)))))"

lemma everythingCheckedI:
  assumes "Nodes r \<noteq> []" and "CheckControlPlaneQuorum r = None"
    and "KubernetesVersion (Target (plan_Spec plan)) = '''' \<or> CheckControlPlaneFirst r = None"
    and plans: "EvListPlans (Inr plans) \<in> set es2" "noConflict E plan (map node_Name (Nodes r)) es2 plans"
    and ready: "hasDiscovery E \<longrightarrow> EvReadyz None \<in> set es3"
    and probes: "list_all2 (probed es4) (Nodes r) probes" "list_all (allowedVersions E (Target (plan_Spec plan))) probes"
      "list_all (installerServed (Target (plan_Spec plan)) es5) probes"
    and images: "KubernetesVersion (Target (plan_Spec plan)) = '''' \<or>
      list_all (manifestServed es6) (kubernetesImages (KubernetesVersion (Target (plan_Spec plan))))"
    and sub: "set es2 \<subseteq> set es" "set es3 \<subseteq> set es" "set es4 \<subseteq> set es" "set es5 \<subseteq> set es" "set es6 \<subseteq> set es"
  shows "everythingChecked E plan r es"
proof -
  have "EvListPlans (Inr plans) \<in> set es" "noConflict E plan (map node_Name (Nodes r)) es plans"
    using plans sub(1) noConflict_mono by auto
  moreover have "list_all2 (probed es) (Nodes r) probes"
    using probes(1) probed_mono [OF _ sub(3)] by (rule list_all2_mono)
  moreover have "list_all (installerServed (Target (plan_Spec plan)) es) probes"
    using probes(3) installerServed_mono [OF _ sub(4)] by (auto simp: list_all_iff)
  moreover have "KubernetesVersion (Target (plan_Spec plan)) = '''' \<or>
      list_all (manifestServed es) (kubernetesImages (KubernetesVersion (Target (plan_Spec plan))))"
    using images manifestServed_mono [OF _ sub(5)] by (auto simp: list_all_iff)
  ultimately show ?thesis
    using assms(1-3) ready probes(2) sub(2) unfolding everythingChecked_def by blast
qed

lemma runPreflight_checked:
  "runs [] (runPreflight E plan r) (\<lambda>out es. case out of Inl _ \<Rightarrow> True | Inr res \<Rightarrow>
     failures res = [] \<longrightarrow> everythingChecked E plan r es)"
proof (cases "Nodes r = []")
  case True
  then show ?thesis by (auto simp: runPreflight_def Let_def intro!: runs_rules)
next
  case False
  let ?t = "Target (plan_Spec plan)"
  show ?thesis
    unfolding runPreflight_def Let_def
  proof (subst if_not_P [OF False], rule runs_seq [OF skew_outcome], rule runs_thenOk [OF checkConflictingPlans_outcome],
      simp, rule runs_seq [OF checkKubernetesAPI_outcome], rule runs_seq [OF checkTalosNodes_outcome],
      rule runs_prod, rule runs_seq [OF checkTalosImages_outcome], rule runs_seq [OF checkKubernetesImages_outcome],
      rule runs_ok, simp only: sum.case, rule impI, goal_cases)
    case (1 res1 es1 res2 es2 res3 es3 out es4 res4 probes res5 es5 res6 es6)
    then have "failures res6 = []" using checkVersionCompatibility_ok by blast
    then have r5: "failures res5 = []" and k8s: "KubernetesVersion ?t = '''' \<or> list_all (manifestServed es6)
        (kubernetesImages (KubernetesVersion ?t))" using 1(7) by (auto simp: kubernetesImages_def)
    then have down: "failures (checkNoDowngrade E ?t probes res4) = []" and inst: "list_all (installerServed ?t es5) probes"
      using 1(6) by auto
    have r4: "failures res4 = []" and allowed: "list_all (allowedVersions E ?t) probes"
      using allowedVersions_checked [OF 1(8) down] by auto
    then have r3: "failures res3 = []" and pr: "list_all2 (probed es4) (Nodes r) probes"
      using 1(4,5) by auto
    then have r2: "failures res2 = []" and ready: "hasDiscovery E \<longrightarrow> EvReadyz None \<in> set es3" using 1(3) by auto
    then obtain plans where q: "failures (checkQuorum r res1) = []" and plans: "EvListPlans (Inr plans) \<in> set es2"
        "noConflict E plan (map node_Name (Nodes r)) es2 plans"
      using 1(2) by auto
    have quorum: "CheckControlPlaneQuorum r = None" and r1: "failures res1 = []" using checkQuorum_ok [OF q] by auto
    then have "failures (checkUpgradeOrder ?t r (openingResult r)) = []" using 1(1) by simp
    from checkUpgradeOrder_ok [OF this]
    have first: "KubernetesVersion ?t = '''' \<or> CheckControlPlaneFirst r = None" by simp
    show ?case
      by (rule everythingCheckedI [OF False quorum first plans ready pr allowed inst k8s]) auto
  qed
qed

lemmas runPreflight_outcome = runPreflight_checked [unfolded everythingChecked_def]

end
