(* ===== verification/PlanProperties.thy ===== *)
theory PlanProperties imports LeaseCounts PlanPhases PreflightFacts Fixture begin

text \<open>
  The properties of the plan controller. As for the jobs, \<open>runs []\<close> quantifies over every state of
  the outside and every answer to every call; \<open>createdJobs es\<close> are the jobs the reconcile with the
  calls \<open>es\<close> has tried to create, in that order.
\<close>

section \<open>What a plan may do\<close>





section \<open>Counting\<close>

text \<open>
  The concurrency count comes from the Leases: for every group it is the number of listed Leases
  whose job is unfinished plus the number of jobs that need a slot and have no Lease. With unique job
  names it is never below the number of jobs of the group that need a slot.
\<close>

theorem leases_count_every_unfinished_job:
  "runs [] (syncLeases E plan r jobs) (\<lambda>res es. case res of
      Inl _ \<Rightarrow> True
    | Inr active \<Rightarrow> (\<exists>ls rest. es = EvListLeases (operatorNamespace E) (plan_Name plan) (Inr ls) # rest \<and>
        (\<forall>g. countOf active g = int (leaseCount r jobs ls g)) \<and>
        (if distinct (map job_Name jobs) then \<forall>g. int (slotsUsed r jobs g) \<le> countOf active g else True)))"
proof (rule runs_mono [OF syncLeases_outcome])
  fix res es
  assume "case res of Inl _ \<Rightarrow> True
    | Inr active \<Rightarrow> \<exists>ls rest. es = EvListLeases (operatorNamespace E) (plan_Name plan) (Inr ls) # rest \<and>
        (\<forall>g. countOf active g = int (leaseCount r jobs ls g))"
  then show "case res of Inl _ \<Rightarrow> True
    | Inr active \<Rightarrow> \<exists>ls rest. es = EvListLeases (operatorNamespace E) (plan_Name plan) (Inr ls) # rest \<and>
        (\<forall>g. countOf active g = int (leaseCount r jobs ls g)) \<and>
        (if distinct (map job_Name jobs) then \<forall>g. int (slotsUsed r jobs g) \<le> countOf active g else True)"
    using slotsUsed_leaseCount by (fastforce split: sum.splits)
qed

text \<open>
  The status counts add up. Every node of the rollout is counted once, by whether it has no job, an
  unfinished, a completed or a failed one; the groups are listed in rollout order and their counts add
  up to their sizes; and the specification of the plan is not touched.
\<close>

theorem status_counts_add_up:
  "(case summarize plan r jobsByNode active of (c, p) \<Rightarrow>
     plan_Spec p = plan_Spec plan \<and> TotalNodes (plan_Status p) = int (Total r) \<and>
     jc_Pending c + jc_Running c + jc_Completed c + jc_Failed c = int (Total r) \<and>
     c = \<lparr>jc_Completed = countWith (isCompleted jobsByNode) (Nodes r), jc_Failed = countWith (isFailed jobsByNode) (Nodes r),
          jc_Running = countWith (isRunning jobsByNode) (Nodes r), jc_Pending = countWith (isPending jobsByNode) (Nodes r)\<rparr> \<and>
     map gs_Name (ps_Groups (plan_Status p)) = map grp_Name (rollout_Groups r) \<and>
     list_all (\<lambda>gs. gs_Pending gs + gs_Running gs + gs_Completed gs + gs_Failed gs = gs_Total gs)
       (ps_Groups (plan_Status p)))"
  using summarize_total [OF refl, of plan r jobsByNode active] summarize_counts [of plan r jobsByNode active]
  by (auto simp: summarize_def Let_def list_all_iff summarizeGroup_eq outcomes_partition)

section \<open>The phase\<close>

text \<open>
  C17: The phase of a plan says what is the case. A reconcile that has listed the jobs changes the phase in
  the status only on these grounds: Completed when the job of every node of the rollout has completed or
  failed and the failure budget is not used up; Failed when the budget is used up under a policy that
  halts, or no job exists and the failed preflight is recorded with it; Paused when the specification
  says so or a version of the plan has used up the budget of a policy that pauses; Cancelled when the
  specification says so; InProgress when a paused plan is no longer paused by its specification or some
  node has no job; Preflighting and, with the recorded success, Pending while no job exists.
\<close>

theorem plan_phase_is_justified:
  "runs [] (reconcileRollout E plan r) (\<lambda>_ es. case es of
      EvListJobs _ (Inr jobs) # rest \<Rightarrow> list_all (\<lambda>e. case e of
          EvPatchPlanStatus b m _ \<Rightarrow> planPhase m = planPhase b \<or> phaseGrounds E plan r (indexJobs jobs) rest b m
        | _ \<Rightarrow> True) rest
    | _ \<Rightarrow> list_all keepsPhase es)"
  by (rule runs_mono [OF reconcileRollout_phases])
     (auto simp: rolloutPhases_def phasesJustified_def list_all_iff split: list.splits event.splits sum.splits)

section \<open>Preflight\<close>


text \<open>
  Of two plans that have not started yet exactly one has to wait for the other when they share
  nodes: the one created later, or with equal creation times the one whose name comes later.
\<close>

theorem exactly_one_of_two_new_plans_waits:
  assumes "plan_Name a \<noteq> plan_Name b"
    and "planPhase a \<in> {PatchPhaseNone, PatchPhasePending, PatchPhasePreflighting}"
    and "planPhase b \<in> {PatchPhaseNone, PatchPhasePending, PatchPhasePreflighting}"
  shows "blocksPlan a b \<longleftrightarrow> \<not> blocksPlan b a"
proof -
  have "strLess (plan_Name a) (plan_Name b) \<longleftrightarrow> \<not> strLess (plan_Name b) (plan_Name a)"
    using assms(1) strCompare_swap [of "plan_Name a" "plan_Name b"] strCompare_eq_0 [of "plan_Name b" "plan_Name a"]
    by (auto simp: strLess_def)
  then show ?thesis using assms(2,3) by (auto simp: blocksPlan_def)
qed

theorem exactly_one_of_two_new_plans_waits_witness:
  "blocksPlan fixPlan (fixPlan\<lparr>plan_Name := ''plan2''\<rparr>) \<and> \<not> blocksPlan (fixPlan\<lparr>plan_Name := ''plan2''\<rparr>) fixPlan"
proof -
  have "blocksPlan fixPlan (fixPlan\<lparr>plan_Name := ''plan2''\<rparr>)"
    by (simp add: blocksPlan_def fixPlan_def fixStatus_def strLess_def)
  then show ?thesis
    using exactly_one_of_two_new_plans_waits [of fixPlan "fixPlan\<lparr>plan_Name := ''plan2''\<rparr>"]
    by (simp add: fixPlan_def fixStatus_def)
qed

text \<open>
  That is not enough for plans that do not start at the same time. A newer plan that has passed preflight
  and waits (for its window) is still Pending: it does not block an older plan whose preflight runs
  later, because it failed before, and it does not run its own preflight again. Both go on, on the same
  nodes.
\<close>

lemma overlapping_plans_both_proceed:
  assumes "planPhase newer = PatchPhasePending" and "preflightDone E newer"
    and "plan_CreationTimestamp older < plan_CreationTimestamp newer"
  shows "conflictLoop E older mine k res (newer # others) = conflictLoop E older mine k res others"
    and "ensurePreflight E newer r jobsByNode = ok (True, newer)"
  using assms by (simp_all add: skipsPlan_def blocksPlan_def ensurePreflight_def)

text \<open>Nor does a plan that was halted or cancelled, even while jobs of it still run.\<close>

lemma ended_plans_do_not_block:
  "planPhase other \<in> {PatchPhaseFailed, PatchPhaseCancelled, PatchPhaseCompleted} \<Longrightarrow>
   conflictLoop E plan mine k res (other # others) = conflictLoop E plan mine k res others"
  by (auto simp: skipsPlan_def blocksPlan_def)

section \<open>Progress\<close>


text \<open>
  C28: The kube-proxy follows the control plane. Its image is changed only when the plan upgrades Kubernetes
  and every control plane node of the rollout is completed, and only to the image of that version; the
  plan is recorded as done with it only after the DaemonSet was found rolled out, or not there.
\<close>

theorem kube_proxy_follows_control_plane:
  "runs [] (ensureKubeProxy E plan r jobsByNode) (\<lambda>_ es. list_all (\<lambda>e. case e of
      EvPatchDaemonSet d d2 _ \<Rightarrow>
        KubernetesVersion (Target (plan_Spec plan)) \<noteq> '''' \<and> allNodesCompleted (ControlPlaneNodes r) jobsByNode \<and>
        hd (ContainerImages d) \<noteq> BuildKubeProxyImage (KubernetesVersion (Target (plan_Spec plan))) \<and>
        d2 = d\<lparr>ContainerImages := BuildKubeProxyImage (KubernetesVersion (Target (plan_Spec plan))) # tl (ContainerImages d)\<rparr>
    | EvPatchPlanStatus b m _ \<Rightarrow>
        (if KubeProxyUpgraded (plan_Status m) \<and> \<not> KubeProxyUpgraded (plan_Status b)
         then allNodesCompleted (ControlPlaneNodes r) jobsByNode \<and>
           proxyRead (KubernetesVersion (Target (plan_Spec plan))) es
         else True)
    | _ \<Rightarrow> True) es)"
  by (rule runs_mono [OF ensureKubeProxy_grounds]) (simp only: proxyGrounds_def [abs_def])

end
