(* ===== verification/RolloutMachine.thy ===== *)
theory RolloutMachine imports LeaseCounts Machine "HOL-Library.Sublist" begin

text \<open>
  What a plan promises for its whole life, not for one reconcile: an abstract machine on the progress of
  the nodes, the concrete machine on the stored jobs (reconciles of the plan, progress of jobs, removal
  of jobs), and the proof that the second refines the first.
\<close>

section \<open>The abstract rollout\<close>

datatype progress = Waiting | InProgress | Finished

type_synonym rolloutState = "string \<Rightarrow> progress"

definition inProgressIn :: "rolloutState \<Rightarrow> rolloutGroup \<Rightarrow> node list" where
  "inProgressIn s g = filter (\<lambda>n. s (node_Name n) = InProgress) (grp_Nodes g)"

definition currentGroup :: "rollout \<Rightarrow> rolloutState \<Rightarrow> rolloutGroup option" where
  "currentGroup r s = List.find (\<lambda>g. \<not> list_all (\<lambda>n. s (node_Name n) = Finished) (grp_Nodes g)) (rollout_Groups r)"

text \<open>
  Waiting nodes of the first unfinished group start while its concurrency allows; a node in progress
  finishes; and a node may wait again (its job was deleted) while nothing is in progress.
\<close>

inductive rolloutStep :: "rollout \<Rightarrow> rolloutState \<Rightarrow> rolloutState \<Rightarrow> bool" for r where
  start: "currentGroup r s = Some g \<Longrightarrow> set ns \<subseteq> node_Name ` set (grp_Nodes g) \<Longrightarrow>
    list_all (\<lambda>n. s n = Waiting) ns \<Longrightarrow> int (length (inProgressIn s g)) + int (length ns) \<le> grp_Concurrency g \<Longrightarrow>
    rolloutStep r s (\<lambda>n. if n \<in> set ns then InProgress else s n)"
| finish: "s n = InProgress \<Longrightarrow> rolloutStep r s (s(n := Finished))"
| retry: "InProgress \<notin> range s \<Longrightarrow> rolloutStep r s (s(n := Waiting))"

text \<open>
  The invariant: no group has more nodes in progress than its concurrency, and only the first
  unfinished group has any.
\<close>

definition orderly :: "rollout \<Rightarrow> rolloutState \<Rightarrow> bool" where
  "orderly r s \<longleftrightarrow> list_all (\<lambda>g. inProgressIn s g = [] \<or>
     int (length (inProgressIn s g)) \<le> grp_Concurrency g \<and> currentGroup r s = Some g) (rollout_Groups r)"

lemma same_group:
  assumes "distinct (map node_Name (concat (map grp_Nodes gs)))" and "g \<in> set gs" and "h \<in> set gs"
    and "n \<in> set (grp_Nodes g)" and "m \<in> set (grp_Nodes h)" and "node_Name n = node_Name m"
  shows "g = h"
  using assms by (induction gs) (auto simp: image_iff)

lemma distinct_in_group:
  "distinct (map node_Name (concat (map grp_Nodes gs))) \<Longrightarrow> g \<in> set gs \<Longrightarrow> distinct (map node_Name (grp_Nodes g))"
  by (induction gs) auto

lemma find_keeps:
  "List.find P xs = Some x \<Longrightarrow> (\<And>y. y \<in> set xs \<Longrightarrow> Q y \<Longrightarrow> P y) \<Longrightarrow> Q x \<Longrightarrow> List.find Q xs = Some x"
  by (induction xs) (auto split: if_splits)

lemma length_filter_names:
  assumes "distinct (map node_Name xs)"
  shows "length (filter (\<lambda>n. node_Name n \<in> set ns) xs) \<le> length ns"
proof -
  have "distinct (map node_Name (filter (\<lambda>n. node_Name n \<in> set ns) xs))"
    using assms distinct_map_filter by blast
  then have "length (filter (\<lambda>n. node_Name n \<in> set ns) xs) = card (node_Name ` set (filter (\<lambda>n. node_Name n \<in> set ns) xs))"
    by (metis distinct_card length_map set_map)
  also have "\<dots> \<le> card (set ns)" by (rule card_mono) auto
  also have "\<dots> \<le> length ns" by (rule card_length)
  finally show ?thesis .
qed

lemma length_filter_either: "length (filter (\<lambda>x. P x \<or> Q x) xs) \<le> length (filter P xs) + length (filter Q xs)"
  by (induction xs) auto

lemma length_filter_mono: "(\<And>x. P x \<Longrightarrow> Q x) \<Longrightarrow> length (filter P xs) \<le> length (filter Q xs)"
  by (induction xs) auto

text \<open>Starting nodes of the current group keeps the order, and so does the end of a node.\<close>

lemma orderly_start:
  assumes distinct: "distinct (map node_Name (Nodes r))" and s: "orderly r s" and cur: "currentGroup r s = Some g"
    and t: "t = (\<lambda>n. if n \<in> set ns then InProgress else s n)" "list_all (\<lambda>n. s n = Waiting) ns"
    and ns: "set ns \<subseteq> node_Name ` set (grp_Nodes g)"
    and room: "int (length (inProgressIn s g)) + int (length ns) \<le> grp_Concurrency g"
  shows "orderly r t"
proof -
  have names: "distinct (map node_Name (concat (map grp_Nodes (rollout_Groups r))))"
    using distinct by (simp add: Nodes_def)
  have g: "g \<in> set (rollout_Groups r)"
    using cur by (auto simp: currentGroup_def find_Some_iff)
  have current: "currentGroup r t = Some g"
  proof -
    have "t n = Finished \<longleftrightarrow> s n = Finished" for n
      using t(1,2) by (auto simp: list_all_iff)
    then show ?thesis using cur by (simp add: currentGroup_def)
  qed
  have "inProgressIn t h = [] \<or> int (length (inProgressIn t h)) \<le> grp_Concurrency h \<and> h = g"
    if h: "h \<in> set (rollout_Groups r)" for h
  proof (cases "h = g")
    case True
    have "length (filter (\<lambda>n. node_Name n \<in> set ns) (grp_Nodes g)) \<le> length ns"
      by (rule length_filter_names [OF distinct_in_group [OF names g]])
    moreover have "inProgressIn t g = filter (\<lambda>n. s (node_Name n) = InProgress \<or> node_Name n \<in> set ns) (grp_Nodes g)"
      unfolding inProgressIn_def by (rule filter_cong) (use t(1) in auto)
    ultimately show ?thesis
      using True room length_filter_either [of "\<lambda>n. s (node_Name n) = InProgress" "\<lambda>n. node_Name n \<in> set ns" "grp_Nodes g"]
      by (simp add: inProgressIn_def)
  next
    case False
    have "node_Name n \<notin> set ns" if "n \<in> set (grp_Nodes h)" for n
      using same_group [OF names g h] that False ns by (metis (no_types, lifting) image_iff subsetD)
    then have "inProgressIn t h = inProgressIn s h"
      unfolding inProgressIn_def by (intro filter_cong) (use t(1) in auto)
    moreover have "inProgressIn s h = []"
      using s h False cur by (auto simp: orderly_def list_all_iff)
    ultimately show ?thesis by simp
  qed
  then show ?thesis using current by (auto simp: orderly_def list_all_iff)
qed

lemma orderly_finish:
  assumes s: "orderly r s" and t: "t = s(n := Finished)"
  shows "orderly r t"
proof -
  have "inProgressIn t h = [] \<or> int (length (inProgressIn t h)) \<le> grp_Concurrency h \<and> currentGroup r t = Some h"
    if h: "h \<in> set (rollout_Groups r)" for h
  proof (cases "inProgressIn t h")
    case (Cons m ms)
    then have m: "m \<in> set (grp_Nodes h)" "t (node_Name m) = InProgress"
      by (auto simp: inProgressIn_def filter_eq_Cons_iff)
    then have "s (node_Name m) = InProgress" using t by (auto split: if_splits)
    then have "inProgressIn s h \<noteq> []" using m by (auto simp: inProgressIn_def filter_empty_conv)
    then have sh: "int (length (inProgressIn s h)) \<le> grp_Concurrency h" "currentGroup r s = Some h"
      using s h by (auto simp: orderly_def list_all_iff)
    have "length (inProgressIn t h) \<le> length (inProgressIn s h)"
      unfolding inProgressIn_def by (rule length_filter_mono) (use t in \<open>simp split: if_splits\<close>)
    moreover have fin: "s x = Finished \<Longrightarrow> t x = Finished" for x using t by simp
    have "currentGroup r t = Some h"
      unfolding currentGroup_def
    proof (rule find_keeps [OF sh(2) [unfolded currentGroup_def]])
      show "\<not> list_all (\<lambda>n. t (node_Name n) = Finished) (grp_Nodes h)"
        using m by (auto simp: list_all_iff intro!: bexI [of _ m])
    qed (use fin in \<open>auto simp: list_all_iff\<close>)
    ultimately show ?thesis using sh by simp
  qed simp
  then show ?thesis by (simp add: orderly_def list_all_iff)
qed

lemma orderly_step:
  assumes "distinct (map node_Name (Nodes r))" and "rolloutStep r s t" and "orderly r s"
  shows "orderly r t"
  using assms(2)
proof (cases rule: rolloutStep.cases)
  case (start g ns)
  then show ?thesis by (intro orderly_start [OF assms(1,3) start(2) start(1,4,3,5)])
next
  case (finish n)
  then show ?thesis by (intro orderly_finish [OF assms(3)])
next
  case (retry n)
  then have "t m \<noteq> InProgress" for m by (metis fun_upd_apply progress.distinct(1) rangeI)
  then show ?thesis by (auto simp: orderly_def inProgressIn_def list_all_iff filter_empty_conv)
qed

text \<open>Only one group is in progress at a time, so the quorum check speaks about all nodes that are down.\<close>

lemma concat_single:
  assumes "distinct (map node_Name (concat (map grp_Nodes gs)))" and "g \<in> set gs"
    and "\<And>h. h \<in> set gs \<Longrightarrow> h \<noteq> g \<Longrightarrow> inProgressIn s h = []"
  shows "concat (map (inProgressIn s) gs) = inProgressIn s g"
  using assms
proof (induction gs)
  case (Cons h hs)
  have empty: "inProgressIn s k = []" if "k \<in> set hs" "k \<noteq> g" for k
    using Cons.prems(3) that by simp
  show ?case
  proof (cases "g \<in> set hs")
    case True
    then have "concat (map (inProgressIn s) hs) = inProgressIn s g"
      using Cons.IH [OF _ True empty] Cons.prems(1) by simp
    moreover have "inProgressIn s h = []"
    proof (cases "h = g")
      case True
      then have "grp_Nodes g = []" using Cons.prems(1) \<open>g \<in> set hs\<close> by (cases "grp_Nodes g") force+
      then show ?thesis using True by (simp add: inProgressIn_def)
    qed (use Cons.prems(3) in simp)
    ultimately show ?thesis by simp
  next
    case False
    then have "concat (map (inProgressIn s) hs) = []" using empty by auto
    then show ?thesis using False Cons.prems(2) by auto
  qed
qed simp

lemma orderly_single:
  assumes "distinct (map node_Name (Nodes r))" and "orderly r s"
  obtains g where "g \<in> set (rollout_Groups r)" and "filter (\<lambda>n. s (node_Name n) = InProgress) (Nodes r) = inProgressIn s g"
    and "int (length (inProgressIn s g)) \<le> grp_Concurrency g"
  | "filter (\<lambda>n. s (node_Name n) = InProgress) (Nodes r) = []"
proof (cases "list_all (\<lambda>g. inProgressIn s g = []) (rollout_Groups r)")
  case True
  then show ?thesis
    by (intro that(2)) (auto simp: Nodes_def inProgressIn_def filter_empty_conv list_all_iff)
next
  case False
  then obtain g where g: "g \<in> set (rollout_Groups r)" "inProgressIn s g \<noteq> []" by (auto simp: list_all_iff)
  then have "int (length (inProgressIn s g)) \<le> grp_Concurrency g" "currentGroup r s = Some g"
    using assms(2) by (auto simp: orderly_def list_all_iff)
  moreover have "concat (map (inProgressIn s) (rollout_Groups r)) = inProgressIn s g"
  proof (rule concat_single [OF _ g(1)])
    show "inProgressIn s h = []" if "h \<in> set (rollout_Groups r)" "h \<noteq> g" for h
      using assms(2) that calculation(2) by (auto simp: orderly_def list_all_iff)
  qed (use assms(1) in \<open>simp add: Nodes_def\<close>)
  ultimately show ?thesis
    using g(1) by (intro that(1)) (simp_all add: Nodes_def filter_concat comp_def inProgressIn_def [abs_def])
qed

lemma orderly_quorum:
  assumes "distinct (map node_Name (Nodes r))" and "orderly r s" and "CheckControlPlaneQuorum r = None"
    and down: "down = filter (\<lambda>n. s (node_Name n) = InProgress) (Nodes r)"
  shows "controlPlaneCount down \<le> 1 \<or>
         controlPlaneCount (Nodes r) < 2 * (controlPlaneCount (Nodes r) - controlPlaneCount down)"
  using assms(1,2)
proof (cases rule: orderly_single)
  case (1 g)
  then show ?thesis
    unfolding down by (intro quorum_kept [OF assms(3)]) (simp_all add: inProgressIn_def)
qed (simp add: down)

section \<open>The stored jobs\<close>

text \<open>
  \<open>progressOf\<close> is the abstraction: the progress of a node as its stored job shows it.
\<close>

definition progressOf :: "patchJob list \<Rightarrow> rolloutState" where
  "progressOf jobs n =
     (case map_of (indexJobs jobs) n of
        None \<Rightarrow> Waiting
      | Some job \<Rightarrow> if IsTerminal (jobPhase job) then Finished else InProgress)"

text \<open>
  What happens to the stored jobs of one plan with the rollout \<open>r\<close>. A reconcile of any version of the
  plan that lists them all, in any order and from any state of the outside, adds some of the jobs it
  tries to create (the API server may refuse any of them, and keeps names unique). A job that is not
  terminal changes its status. And once no job is unfinished, jobs may be deleted. (Deleting a finished job
  while others run is left out, and not without reason: the code schedules the first unfinished group
  whatever runs in later ones, so a node of an earlier group would start beside them.)
\<close>

inductive storeStep :: "('v, 's) env \<Rightarrow> rollout \<Rightarrow> patchJob list \<Rightarrow> patchJob list \<Rightarrow> bool" for E r where
  reconciled: "calls (snd (run_state (reconcileRollout E plan r) w)) =
      calls w @ EvListJobs (plan_Name plan) (Inr listed) # es \<Longrightarrow>
    mset listed = mset jobs \<Longrightarrow> subseq created (createdJobs es) \<Longrightarrow>
    distinct (map job_Name (jobs @ created)) \<Longrightarrow> storeStep E r jobs (jobs @ created)"
| progressed: "\<not> IsTerminal (jobPhase j) \<Longrightarrow>
    storeStep E r (xs @ j # ys) (xs @ j\<lparr>job_Status := st\<rparr> # ys)"
| removed: "list_all (\<lambda>j. IsTerminal (jobPhase j)) (xs @ j # ys) \<Longrightarrow> storeStep E r (xs @ j # ys) (xs @ ys)"

text \<open>What the API machinery promises about the owner reference: nothing else of the job changes.\<close>

definition ownerOnly :: "('v, 'm) klib_scheme \<Rightarrow> bool" where
  "ownerOnly K \<longleftrightarrow> (\<forall>p j j'. setOwnerOfJob K p j = Inr j' \<longrightarrow> (\<exists>ow. j' = j\<lparr>job_Owner := ow\<rparr>))"

definition jobInRollout :: "rollout \<Rightarrow> patchJob \<Rightarrow> bool" where
  "jobInRollout r j \<longleftrightarrow> job_DeletionTimestamp j = None \<and>
     (\<exists>g\<in>set (rollout_Groups r). job_Group (job_Spec j) = grp_Name g \<and> jobNode j \<in> node_Name ` set (grp_Nodes g))"

definition soundStore :: "('v, 'm) klib_scheme \<Rightarrow> rollout \<Rightarrow> patchJob list \<Rightarrow> bool" where
  "soundStore K r jobs \<longleftrightarrow> ownerOnly K \<and> distinct (map node_Name (Nodes r)) \<and>
     distinct (map job_Name jobs) \<and> distinct (map jobNode jobs) \<and> list_all (jobInRollout r) jobs"

section \<open>The store refines the rollout\<close>

lemma indexJobs_unique:
  assumes "distinct (map jobNode jobs)"
  shows "map_of (indexJobs jobs) n = Some j \<longleftrightarrow> j \<in> set jobs \<and> jobNode j = n"
proof
  assume j: "j \<in> set jobs \<and> jobNode j = n"
  then obtain i where i: "map_of (indexJobs jobs) n = Some i"
    using indexJobs_None [of jobs n] by (cases "map_of (indexJobs jobs) n") auto
  then have "i = j" using j indexJobs_Some distinct_map_eqD [OF assms] by metis
  then show "map_of (indexJobs jobs) n = Some j" using i by simp
qed (rule indexJobs_Some)

lemma progressOf_cong:
  assumes "distinct (map jobNode jobs)" and "mset jobs' = mset jobs"
  shows "map_of (indexJobs jobs') = map_of (indexJobs jobs)" and "progressOf jobs' = progressOf jobs"
proof -
  have "distinct (map jobNode jobs')" using assms by (metis mset_eq_imp_distinct_iff mset_map)
  moreover have "set jobs' = set jobs" using assms(2) by (metis set_mset_mset)
  ultimately have "map_of (indexJobs jobs') n = Some j \<longleftrightarrow> map_of (indexJobs jobs) n = Some j" for n j
    using assms(1) by (simp add: indexJobs_unique)
  then show "map_of (indexJobs jobs') = map_of (indexJobs jobs)" by (intro ext) (metis not_None_eq)
  then show "progressOf jobs' = progressOf jobs" by (simp add: progressOf_def [abs_def])
qed

lemma progressOf_simps:
  assumes "distinct (map jobNode jobs)"
  shows "progressOf jobs n = InProgress \<longleftrightarrow> (\<exists>j\<in>set jobs. jobNode j = n \<and> \<not> IsTerminal (jobPhase j))"
    and "progressOf jobs n = Finished \<longleftrightarrow> (\<exists>j\<in>set jobs. jobNode j = n \<and> IsTerminal (jobPhase j))"
    and "progressOf jobs n = Waiting \<longleftrightarrow> n \<notin> jobNode ` set jobs"
proof -
  have some: "map_of (indexJobs jobs) n = Some j \<Longrightarrow> (\<exists>i\<in>set jobs. jobNode i = n \<and> P i) \<longleftrightarrow> P j" for j P
    using indexJobs_unique [OF assms, of n] by (metis option.inject)
  have none: "map_of (indexJobs jobs) n = None \<Longrightarrow> \<not> (\<exists>i\<in>set jobs. jobNode i = n \<and> P i)" for P
    using indexJobs_None [of jobs n] by auto
  show "progressOf jobs n = InProgress \<longleftrightarrow> (\<exists>j\<in>set jobs. jobNode j = n \<and> \<not> IsTerminal (jobPhase j))"
    and "progressOf jobs n = Finished \<longleftrightarrow> (\<exists>j\<in>set jobs. jobNode j = n \<and> IsTerminal (jobPhase j))"
    by (cases "map_of (indexJobs jobs) n"; simp add: progressOf_def some none)+
  show "progressOf jobs n = Waiting \<longleftrightarrow> n \<notin> jobNode ` set jobs"
    unfolding indexJobs_None [symmetric] by (simp add: progressOf_def split: option.split)
qed

lemma progressOf_at:
  "distinct (map jobNode jobs) \<Longrightarrow> j \<in> set jobs \<Longrightarrow>
   progressOf jobs (jobNode j) = (if IsTerminal (jobPhase j) then Finished else InProgress)"
  using indexJobs_unique [of jobs "jobNode j" j] by (simp add: progressOf_def)

lemma progressOf_missing: "n \<notin> jobNode ` set jobs \<Longrightarrow> progressOf jobs n = Waiting"
  using indexJobs_None [of jobs n] by (simp add: progressOf_def)

lemma progressOf_same:
  assumes "distinct (map jobNode jobs)" and "distinct (map jobNode jobs')"
    and "\<And>j. jobNode j = n \<Longrightarrow> j \<in> set jobs' \<longleftrightarrow> j \<in> set jobs"
  shows "progressOf jobs' n = progressOf jobs n"
proof (cases "n \<in> jobNode ` set jobs")
  case True
  then obtain j where j: "j \<in> set jobs" "n = jobNode j" by blast
  then have "j \<in> set jobs'" using assms(3) by simp
  then show ?thesis unfolding j(2) using progressOf_at [OF assms(1) j(1)] progressOf_at [OF assms(2)] by simp
next
  case False
  then have "n \<notin> jobNode ` set jobs'" using assms(3) by auto
  with False show ?thesis by (simp add: progressOf_missing)
qed

lemma other_nodes: "distinct (map jobNode (xs @ j # ys)) \<Longrightarrow> i \<in> set xs \<union> set ys \<Longrightarrow> jobNode i \<noteq> jobNode j"
  by (auto simp: rev_image_eqI)

lemma slotsUsed_mset: "mset jobs' = mset jobs \<Longrightarrow> slotsUsed r jobs' g = slotsUsed r jobs g"
  unfolding slotsUsed_def by (metis mset_filter size_mset)

text \<open>Every node in progress occupies a slot of its group.\<close>

lemma inProgress_slots:
  assumes sound: "soundStore K r jobs" and g: "g \<in> set (rollout_Groups r)"
  shows "length (inProgressIn (progressOf jobs) g) \<le> slotsUsed r jobs (grp_Name g)"
proof -
  have names: "distinct (map node_Name (concat (map grp_Nodes (rollout_Groups r))))"
    and nodes: "distinct (map jobNode jobs)"
    using sound by (simp_all add: soundStore_def Nodes_def)
  let ?in = "inProgressIn (progressOf jobs) g" and ?used = "filter (\<lambda>j. needsSlot j \<and> groupOfJob j r = grp_Name g) jobs"
  have "distinct (map node_Name ?in)"
    unfolding inProgressIn_def by (rule distinct_map_filter [OF distinct_in_group [OF names g]])
  then have "length ?in = card (node_Name ` set ?in)" by (metis distinct_card length_map set_map)
  also have "node_Name ` set ?in \<subseteq> jobNode ` set ?used"
  proof
    fix name
    assume "name \<in> node_Name ` set ?in"
    then obtain n j where n: "n \<in> set (grp_Nodes g)" "name = node_Name n"
      and j: "j \<in> set jobs" "jobNode j = node_Name n" "\<not> IsTerminal (jobPhase j)"
      by (auto simp: inProgressIn_def progressOf_simps [OF nodes])
    have "jobInRollout r j" using sound j(1) by (simp add: soundStore_def list_all_iff)
    then obtain h where h: "h \<in> set (rollout_Groups r)" "job_Group (job_Spec j) = grp_Name h"
      "jobNode j \<in> node_Name ` set (grp_Nodes h)" and "job_DeletionTimestamp j = None"
      unfolding jobInRollout_def by blast
    then have "h = g" using same_group [OF names h(1) g] n j by auto
    moreover have "GroupOf r (node_Name n) = (grp_Name g, True)"
      unfolding GroupOf_def by (rule sched.GroupOf_loop_hit [OF names g n(1)])
    ultimately have "groupOfJob j r = grp_Name g" using h(2) j(2) by (simp add: groupOfJob_def)
    then have "j \<in> set ?used" using j \<open>job_DeletionTimestamp j = None\<close> by (simp add: needsSlot_def)
    then show "name \<in> jobNode ` set ?used" using j n by force
  qed
  then have "card (node_Name ` set ?in) \<le> card (jobNode ` set ?used)" by (rule card_mono [rotated]) simp
  also have "\<dots> \<le> length ?used" by (rule order_trans [OF card_image_le card_length]) simp
  finally show ?thesis by (simp add: slotsUsed_def)
qed

lemma createdFor_job:
  assumes "createdFor K r m grp n j" and "ownerOnly K"
  shows "jobNode j = node_Name n \<and> job_Group (job_Spec j) = grp \<and> job_DeletionTimestamp j = None \<and>
    jobPhase j = PatchJobPhaseNone"
proof -
  obtain p ow where "j = (newPatchJob p n grp)\<lparr>job_Owner := ow\<rparr>"
    using assms unfolding createdFor_def ownerOnly_def by blast
  then show ?thesis by (simp add: newPatchJob_def jobNode_def emptyJobStatus_def)
qed

lemma created_jobs:
  "list_all2 (createdFor K r m grp) ns js \<Longrightarrow> ownerOnly K \<Longrightarrow>
   map jobNode js = map node_Name ns \<and>
   list_all (\<lambda>j. job_Group (job_Spec j) = grp \<and> job_DeletionTimestamp j = None \<and> jobPhase j = PatchJobPhaseNone) js"
  by (induction rule: list_all2_induct) (auto dest: createdFor_job)

lemma distinct_subseq: "subseq xs ys \<Longrightarrow> distinct ys \<Longrightarrow> distinct xs"
  by (induction rule: list_emb.induct) (auto dest: list_emb_set)

text \<open>
  Jobs that may be added: jobs of waiting nodes of the first unfinished group, fresh, one per node, and
  no more than the concurrency of the group leaves room for.
\<close>

definition mayCreate :: "rollout \<Rightarrow> patchJob list \<Rightarrow> patchJob list \<Rightarrow> bool" where
  "mayCreate r jobs created \<longleftrightarrow> (\<exists>g. currentGroup r (progressOf jobs) = Some g \<and>
     set (map jobNode created) \<subseteq> node_Name ` set (grp_Nodes g) \<and>
     list_all (\<lambda>n. progressOf jobs n = Waiting) (map jobNode created) \<and>
     distinct (map jobNode (jobs @ created)) \<and>
     int (length (inProgressIn (progressOf jobs) g)) + int (length created) \<le> grp_Concurrency g \<and>
     list_all (\<lambda>j. job_Group (job_Spec j) = grp_Name g \<and> job_DeletionTimestamp j = None \<and>
       jobPhase j = PatchJobPhaseNone) created)"

text \<open>The jobs a reconcile tries to create, in terms of the sound store it has read.\<close>

lemma within_tried:
  assumes sound: "soundStore K r jobs" and listed: "mset listed = mset jobs" and within: "withinLimit K r listed tried"
  obtains g where "currentGroup r (progressOf jobs) = Some g"
    and "map jobNode tried = take (length tried)
      (map node_Name (filter (\<lambda>n. progressOf jobs (node_Name n) = Waiting) (grp_Nodes g)))"
    and "int (length (inProgressIn (progressOf jobs) g)) + int (length tried) \<le> grp_Concurrency g"
    and "list_all (\<lambda>j. job_Group (job_Spec j) = grp_Name g \<and> job_DeletionTimestamp j = None \<and>
      jobPhase j = PatchJobPhaseNone) tried"
proof -
  have nodes: "distinct (map jobNode jobs)" and owner: "ownerOnly K"
    and unique: "distinct (map job_Name listed)"
    using sound listed by (auto simp: soundStore_def) (metis mset_eq_imp_distinct_iff mset_map)
  note index = progressOf_cong [OF nodes listed]
  obtain g where g: "firstUnfinished r (indexJobs listed) = Some g"
    and limit: "int (slotsUsed r listed (grp_Name g)) + int (length tried) \<le> grp_Concurrency g"
    and all: "list_all2 (createdFor K r (indexJobs listed) (grp_Name g))
      (take (length tried) (pendingNodes (indexJobs listed) g)) tried"
    using within unique by (auto simp: withinLimit_def split: option.splits)
  have "groupFinished (indexJobs listed) h = list_all (\<lambda>n. progressOf jobs (node_Name n) = Finished) (grp_Nodes h)" for h
    unfolding groupFinished_def
    by (rule list_all_cong [OF refl]) (auto simp: progressOf_def index(1) split: option.splits)
  then have current: "currentGroup r (progressOf jobs) = Some g"
    using g by (simp add: firstUnfinished_def currentGroup_def)
  then have inr: "g \<in> set (rollout_Groups r)" by (auto simp: currentGroup_def find_Some_iff)
  have "pendingNodes (indexJobs listed) g = filter (\<lambda>n. progressOf jobs (node_Name n) = Waiting) (grp_Nodes g)"
    by (simp add: pendingNodes_def index(1) indexJobs_None progressOf_simps [OF nodes])
  then show thesis
    using created_jobs [OF all owner] inProgress_slots [OF sound inr] limit slotsUsed_mset [OF listed, of r]
    by (intro that [OF current]) (simp_all add: take_map)
qed

text \<open>They may be added to that store, all of them or some.\<close>

lemma reconciled_created:
  assumes sound: "soundStore K r jobs" and listed: "mset listed = mset jobs"
    and within: "withinLimit K r listed tried" and created: "subseq created tried"
  shows "mayCreate r jobs created"
proof -
  have nodes: "distinct (map jobNode jobs)" using sound by (simp add: soundStore_def)
  obtain g where current: "currentGroup r (progressOf jobs) = Some g"
    and tried: "map jobNode tried = take (length tried)
      (map node_Name (filter (\<lambda>n. progressOf jobs (node_Name n) = Waiting) (grp_Nodes g)))"
    and limit: "int (length (inProgressIn (progressOf jobs) g)) + int (length tried) \<le> grp_Concurrency g"
    and fresh: "list_all (\<lambda>j. job_Group (job_Spec j) = grp_Name g \<and> job_DeletionTimestamp j = None \<and>
      jobPhase j = PatchJobPhaseNone) tried"
    by (rule within_tried [OF sound listed within])
  let ?pending = "map node_Name (filter (\<lambda>n. progressOf jobs (node_Name n) = Waiting) (grp_Nodes g))"
  have sub: "subseq (map jobNode created) (map jobNode tried)" by (rule subseq_map [OF created])
  have waiting: "progressOf jobs n = Waiting \<and> n \<in> node_Name ` set (grp_Nodes g)" if "n \<in> set (map jobNode created)" for n
  proof -
    have "n \<in> set ?pending" using that list_emb_set [OF sub] tried by (metis in_set_takeD)
    then show ?thesis by auto
  qed
  have "distinct (map node_Name (grp_Nodes g))"
    using sound current by (auto simp: soundStore_def Nodes_def currentGroup_def find_Some_iff intro: distinct_in_group)
  then have "distinct ?pending" by (rule distinct_map_filter)
  then have "distinct (map jobNode created)" using sub tried by (metis distinct_take distinct_subseq)
  then have "distinct (map jobNode (jobs @ created))" using nodes waiting by (auto simp: progressOf_simps [OF nodes])
  moreover have "int (length (inProgressIn (progressOf jobs) g)) + int (length created) \<le> grp_Concurrency g"
    using limit list_emb_length [OF created] by simp
  moreover have "list_all (\<lambda>j. job_Group (job_Spec j) = grp_Name g \<and> job_DeletionTimestamp j = None \<and>
      jobPhase j = PatchJobPhaseNone) created"
    using fresh list_emb_set [OF created] by (auto simp: list_all_iff)
  ultimately show ?thesis
    unfolding mayCreate_def using current waiting by (intro exI [of _ g]) (auto simp: list_all_iff)
qed

lemma progressOf_append:
  assumes "distinct (map jobNode (jobs @ created))" and "list_all (\<lambda>j. jobPhase j = PatchJobPhaseNone) created"
  shows "progressOf (jobs @ created) = (\<lambda>n. if n \<in> set (map jobNode created) then InProgress else progressOf jobs n)"
proof
  fix n
  have jobs: "distinct (map jobNode jobs)" using assms(1) by simp
  show "progressOf (jobs @ created) n = (if n \<in> set (map jobNode created) then InProgress else progressOf jobs n)"
  proof (cases "n \<in> set (map jobNode created)")
    case True
    then obtain j where "j \<in> set created" "n = jobNode j" by auto
    then show ?thesis using progressOf_at [OF assms(1), of j] assms(2) by (simp add: list_all_iff)
  next
    case False
    then show ?thesis using progressOf_same [OF jobs assms(1), of n] by auto
  qed
qed

lemma tried_within:
  assumes "calls (snd (run_state (reconcileRollout E plan r) w)) = calls w @ EvListJobs (plan_Name plan) (Inr listed) # es"
  shows "createdJobs es = [] \<or> withinLimit E r listed (createdJobs es)"
proof -
  obtain es' where "calls (snd (run_state (reconcileRollout E plan r) w)) = calls w @ es'"
    and "createdJobs es' = [] \<or> (\<exists>jobs rest. es' = EvListJobs (plan_Name plan) (Inr jobs) # rest \<and>
      withinLimit E r jobs (createdJobs es'))"
    using runsE [OF reconcileRollout_outcome, of E plan r w] by auto
  then show ?thesis using assms by auto
qed

text \<open>The three changes of the store, each with the abstract step it is.\<close>

lemma created_step:
  assumes sound: "soundStore E r jobs" and may: "mayCreate r jobs created"
    and names: "distinct (map job_Name (jobs @ created))"
  shows "soundStore E r (jobs @ created)" and "rolloutStep r (progressOf jobs) (progressOf (jobs @ created))"
proof -
  obtain g where g: "currentGroup r (progressOf jobs) = Some g"
    "set (map jobNode created) \<subseteq> node_Name ` set (grp_Nodes g)"
    "list_all (\<lambda>n. progressOf jobs n = Waiting) (map jobNode created)"
    "distinct (map jobNode (jobs @ created))"
    "int (length (inProgressIn (progressOf jobs) g)) + int (length created) \<le> grp_Concurrency g"
    "list_all (\<lambda>j. job_Group (job_Spec j) = grp_Name g \<and> job_DeletionTimestamp j = None \<and>
       jobPhase j = PatchJobPhaseNone) created"
    using may unfolding mayCreate_def by blast
  then have "g \<in> set (rollout_Groups r)" by (auto simp: currentGroup_def find_Some_iff)
  then have "list_all (jobInRollout r) created"
    using g(2,6) by (auto simp: list_all_iff jobInRollout_def intro!: bexI [of _ g])
  then show "soundStore E r (jobs @ created)" using sound g(4) names by (simp add: soundStore_def)
  have "progressOf (jobs @ created) = (\<lambda>n. if n \<in> set (map jobNode created) then InProgress else progressOf jobs n)"
    by (rule progressOf_append [OF g(4)]) (use g(6) in \<open>simp add: list_all_iff\<close>)
  moreover have "rolloutStep r (progressOf jobs) (\<lambda>n. if n \<in> set (map jobNode created) then InProgress else progressOf jobs n)"
    by (rule rolloutStep.start [OF g(1-3)]) (use g(5) in simp)
  ultimately show "rolloutStep r (progressOf jobs) (progressOf (jobs @ created))" by simp
qed

lemma status_step:
  assumes sound: "soundStore E r (xs @ j # ys)" and going: "\<not> IsTerminal (jobPhase j)"
  shows "soundStore E r (xs @ j\<lparr>job_Status := st\<rparr> # ys)"
    and "progressOf (xs @ j\<lparr>job_Status := st\<rparr> # ys) =
      (if IsTerminal (js_Phase st) then (progressOf (xs @ j # ys))(jobNode j := Finished) else progressOf (xs @ j # ys))"
    and "progressOf (xs @ j # ys) (jobNode j) = InProgress"
proof -
  let ?j = "j\<lparr>job_Status := st\<rparr>" and ?jobs = "xs @ j # ys" and ?jobs' = "xs @ j\<lparr>job_Status := st\<rparr> # ys"
  have node: "jobNode ?j = jobNode j" and "jobInRollout r ?j = jobInRollout r j"
    by (simp_all add: jobNode_def jobInRollout_def)
  then show sound': "soundStore E r ?jobs'" using sound by (simp add: soundStore_def)
  have d: "distinct (map jobNode ?jobs)" "distinct (map jobNode ?jobs')"
    using sound sound' by (simp_all add: soundStore_def)
  show "progressOf ?jobs (jobNode j) = InProgress" using going progressOf_at [OF d(1), of j] by simp
  show "progressOf ?jobs' = (if IsTerminal (js_Phase st) then (progressOf ?jobs)(jobNode j := Finished) else progressOf ?jobs)"
  proof
    fix n
    show "progressOf ?jobs' n = (if IsTerminal (js_Phase st) then (progressOf ?jobs)(jobNode j := Finished) else progressOf ?jobs) n"
    proof (cases "n = jobNode j")
      case True
      then show ?thesis
        using progressOf_at [OF d(1), of j] progressOf_at [OF d(2), of ?j] going node by simp
    next
      case False
      then have "progressOf ?jobs' n = progressOf ?jobs n"
        using node by (intro progressOf_same [OF d]) auto
      then show ?thesis using False by simp
    qed
  qed
qed

lemma status_simulated:
  assumes "soundStore E r (xs @ j # ys)" and "\<not> IsTerminal (jobPhase j)"
  shows "(rolloutStep r)\<^sup>*\<^sup>* (progressOf (xs @ j # ys)) (progressOf (xs @ j\<lparr>job_Status := st\<rparr> # ys))"
  using rolloutStep.finish [of "progressOf (xs @ j # ys)" "jobNode j" r] status_step(2,3) [OF assms] by auto

lemma removed_step:
  assumes sound: "soundStore E r (xs @ j # ys)"
  shows "soundStore E r (xs @ ys)" and "progressOf (xs @ ys) = (progressOf (xs @ j # ys))(jobNode j := Waiting)"
proof -
  show sound': "soundStore E r (xs @ ys)" using sound by (simp add: soundStore_def)
  have d: "distinct (map jobNode (xs @ j # ys))" "distinct (map jobNode (xs @ ys))"
    using sound sound' by (simp_all add: soundStore_def)
  show "progressOf (xs @ ys) = (progressOf (xs @ j # ys))(jobNode j := Waiting)"
  proof
    fix n
    show "progressOf (xs @ ys) n = ((progressOf (xs @ j # ys))(jobNode j := Waiting)) n"
    proof (cases "n = jobNode j")
      case True
      then have "n \<notin> jobNode ` set (xs @ ys)"
        using other_nodes [of xs j ys] d(1) by auto
      then show ?thesis using True by (simp add: progressOf_missing)
    next
      case False
      then have "progressOf (xs @ ys) n = progressOf (xs @ j # ys) n"
        by (intro progressOf_same [OF d]) auto
      then show ?thesis using False by simp
    qed
  qed
qed

lemma none_inProgress:
  assumes "soundStore E r jobs" and "list_all (\<lambda>j. IsTerminal (jobPhase j)) jobs"
  shows "InProgress \<notin> range (progressOf jobs)"
proof
  assume "InProgress \<in> range (progressOf jobs)"
  then obtain n where n: "progressOf jobs n = InProgress" by (metis imageE)
  have "distinct (map jobNode jobs)" using assms(1) by (simp add: soundStore_def)
  then show False using n assms(2) by (auto simp: progressOf_simps list_all_iff)
qed

lemma removed_simulated:
  assumes "soundStore E r (xs @ j # ys)" and "list_all (\<lambda>j. IsTerminal (jobPhase j)) (xs @ j # ys)"
  shows "rolloutStep r (progressOf (xs @ j # ys)) (progressOf (xs @ ys))"
  unfolding removed_step(2) [OF assms(1)] by (rule rolloutStep.retry [OF none_inProgress [OF assms]])

lemma sound_storeStep:
  assumes sound: "soundStore E r jobs" and step: "storeStep E r jobs jobs'"
  shows "soundStore E r jobs' \<and> (rolloutStep r)\<^sup>*\<^sup>* (progressOf jobs) (progressOf jobs')"
  using step
proof (cases rule: storeStep.cases)
  case (reconciled plan w listed es created)
  show ?thesis
  proof (cases "createdJobs es = []")
    case True
    then have "created = []" using reconciled(4) by simp
    then show ?thesis using reconciled sound by simp
  next
    case False
    then have "withinLimit E r listed (createdJobs es)" using tried_within [OF reconciled(2)] by simp
    then have "mayCreate r jobs created" by (rule reconciled_created [OF sound reconciled(3) _ reconciled(4)])
    then show ?thesis using created_step [OF sound _ reconciled(5)] reconciled(1) by auto
  qed
next
  case (progressed j xs ys st)
  then show ?thesis using sound status_step(1) status_simulated by metis
next
  case (removed xs j ys)
  then show ?thesis using sound removed_step(1) removed_simulated by blast
qed

interpretation rolling: refinement "storeStep E r" "soundStore E r" "rolloutStep r" progressOf for E r
  by unfold_locales (use sound_storeStep in blast)+

text \<open>What holds of every store that a plan starting without jobs can get to.\<close>

lemma empty_sound: "ownerOnly E \<Longrightarrow> distinct (map node_Name (Nodes r)) \<Longrightarrow> soundStore E r []"
  by (simp add: soundStore_def)

lemma progressOf_Nil [simp]: "progressOf [] = (\<lambda>_. Waiting)"
  by (simp add: progressOf_def [abs_def] indexJobs_def)

lemma reachable_orderly:
  assumes "ownerOnly E" and "distinct (map node_Name (Nodes r))" and "(storeStep E r)\<^sup>*\<^sup>* [] jobs"
  shows "orderly r (progressOf jobs)"
proof (rule rolling.reach_invariant [where P = "orderly r", OF _ _ empty_sound assms(3)])
  show "orderly r (progressOf [])" by (simp add: orderly_def inProgressIn_def list_all_iff)
qed (use assms orderly_step in auto)

end
