(* ===== verification/JobLife.thy ===== *)
theory JobLife imports JobMachine begin

text \<open>
  The life of a job over any number of reconciles: the phases found stored one after the other.
\<close>

text \<open>
  One reconcile takes the stored phase from \<open>p\<close> to \<open>q\<close>: it read the job in phase \<open>p\<close>, and \<open>q\<close> is
  still \<open>p\<close> or the phase of one of the statuses it tried to write (an attempt that was answered with
  an error may have been carried out).
\<close>

definition lifeStep :: "('v, 's) env \<Rightarrow> patchJobPhase \<Rightarrow> patchJobPhase \<Rightarrow> bool" where
  "lifeStep E p q \<longleftrightarrow>
     (\<exists>name w j es. calls (snd (run_state (ReconcileJob E name) w)) = calls w @ EvGetJob name (Inr j) # es \<and>
        jobPhase j = p \<and> (q = p \<or> (\<exists>b m r. EvPatchJobStatus b m r \<in> set es \<and> jobPhase m = q)))"

definition storesPhase :: "patchJobPhase \<Rightarrow> event \<Rightarrow> bool" where
  "storesPhase q e = (case e of EvPatchJobStatus b m r \<Rightarrow> jobPhase m = q | _ \<Rightarrow> False)"

lemma storesPhaseE: "storesPhase q e \<Longrightarrow> \<exists>b m r. e = EvPatchJobStatus b m r \<and> jobPhase m = q"
  by (cases e) (simp_all add: storesPhase_def)

lemma lifeStep_jobStep:
  assumes "lifeStep E p q"
  shows "p = q \<or> jobStep p q"
proof -
  obtain name w j es where es: "calls (snd (run_state (ReconcileJob E name) w)) = calls w @ EvGetJob name (Inr j) # es"
    and p: "jobPhase j = p" and q: "q = p \<or> (\<exists>b m r. EvPatchJobStatus b m r \<in> set es \<and> jobPhase m = q)"
    using assms unfolding lifeStep_def by blast
  have "reconcileTrace E name (EvGetJob name (Inr j) # es)"
    using runsE [OF ReconcileJob_trace, of E name w] es by fastforce
  then show ?thesis using p q by (auto simp: reconcileTrace_def list_all_iff split: if_splits)
qed

interpretation life: ranked_machine "lifeStep E" stage 7 for E
  by unfold_locales (use lifeStep_jobStep job.step_rank job.rank_bound in blast)+

lemma life_terminal_last:
  assumes "isPath (lifeStep E) ps"
  shows "list_all (\<lambda>p. \<not> IsTerminal p) (butlast (remdups_adj ps))"
proof -
  have "sorted_wrt (\<lambda>p q. stage p < stage q) (remdups_adj ps)" by (rule life.path_rises [OF assms])
  then have "stage p < 7" if "p \<in> set (butlast (remdups_adj ps))" for p
    using that job.rank_bound
  proof (cases "remdups_adj ps" rule: rev_cases)
    case (snoc qs q)
    then show ?thesis
      using that \<open>sorted_wrt _ _\<close> job.rank_bound [of q] by (fastforce simp: sorted_wrt_append)
  qed simp
  then show ?thesis by (fastforce simp: list_all_iff stage_terminal)
qed

lemma life_drained_first:
  assumes "isPath (lifeStep E) (PatchJobPhaseNone # ps)"
    and "p \<in> set (takeWhile (\<lambda>p. p \<noteq> PatchJobPhaseDraining) (PatchJobPhaseNone # ps))"
  shows "p \<notin> {PatchJobPhaseUpgrading, PatchJobPhaseRebooting}"
proof -
  have "(\<lambda>a b. lifeStep E a b \<and> b \<noteq> PatchJobPhaseDraining)\<^sup>*\<^sup>* PatchJobPhaseNone p"
    by (rule path_reach [OF assms])
  then have "undrainedStep\<^sup>*\<^sup>* PatchJobPhaseNone p"
  proof (induction rule: rtranclp_induct)
    case (step a b)
    then have "a = b \<or> undrainedStep a b" using lifeStep_jobStep [of E a b] by (auto simp: undrainedStep_def)
    then show ?case using step.IH by (auto intro: rtranclp.rtrancl_into_rtrancl)
  qed simp
  then show ?thesis using undrained_reach by blast
qed

end
