(* ===== verification/JobOrder.thy ===== *)
theory JobOrder imports JobTraces begin

text \<open>
  The order of the calls of a job's reconcile: what takes capacity away (cordon, eviction, upgrade,
  configuration) comes before the first write of the job's status, and the write that ends the job is the
  last. So a node is touched only while its job still stands as it was read.
\<close>

section \<open>Calls that take capacity away\<close>

definition disrupts :: "event \<Rightarrow> bool" where
  "disrupts e = (case e of
      EvPatchNode b n _ \<Rightarrow> Unschedulable n
    | EvEvictPod _ _ \<Rightarrow> True
    | EvDeletePod _ _ \<Rightarrow> True
    | EvTalosUpgrade _ _ _ \<Rightarrow> True
    | EvTalosApplyConfig _ _ _ _ \<Rightarrow> True
    | _ \<Rightarrow> False)"

text \<open>The order: no disruption after a status write, no status write after one that ends the job.\<close>

definition inOrder :: "event \<Rightarrow> event \<Rightarrow> bool" where
  "inOrder e f = (case e of
      EvPatchJobStatus _ m _ \<Rightarrow> \<not> disrupts f \<and> (if IsTerminal (jobPhase m) then noWrite f else True)
    | _ \<Rightarrow> True)"

definition harmless :: "event \<Rightarrow> bool" where
  "harmless e \<longleftrightarrow> noWrite e \<and> \<not> disrupts e"

lemma inOrder_simps [simp]:
  "noWrite e \<Longrightarrow> inOrder e f" "harmless f \<Longrightarrow> inOrder e f"
  "inOrder (EvPatchJobStatus b m r) f \<longleftrightarrow> \<not> disrupts f \<and> (if IsTerminal (jobPhase m) then noWrite f else True)"
  by (cases e; simp add: inOrder_def noWrite_def harmless_def)+

lemma harmless_simps [simp]:
  "harmless (EvNow t)" "harmless (EvTalosClose ro)" "harmless (EvGetNode n rn)" "harmless (EvGetPlan n rp)"
  "harmless (EvGetSecret s s2 rs)" "harmless (EvListPods n rl)" "harmless (EvListNamespacedPods s n rl)"
  "harmless (EvTalosDial xs tls ro)" "harmless (EvTalosVersion an rv)" "harmless (EvTalosExtensions a re)"
  "\<not> harmless (EvPatchJobStatus b m rj)"
  by (simp_all add: harmless_def noWrite_def disrupts_def)

lemma disrupts_simps [simp]:
  "\<not> disrupts (EvPatchJobStatus b m rj)" "disrupts (EvPatchNode bn n ro) \<longleftrightarrow> Unschedulable n"
  by (simp_all add: disrupts_def)

lemma noWrite_simps [simp]:
  "noWrite (EvNow t)" "noWrite (EvGetNode n rn)" "noWrite (EvPatchNode bn n2 ro)" "noWrite (EvTalosApplyConfig s d md ro)"
  "noWrite (EvGetPlan s rp)" "noWrite (EvGetSecret s s2 rs)" "noWrite (EvListPods s rl)"
  "noWrite (EvListNamespacedPods s s2 rl)" "noWrite (EvTalosDial es tls ro)" "noWrite (EvTalosClose ro)"
  "noWrite (EvTalosVersion an rv)" "noWrite (EvTalosExtensions s re)" "noWrite (EvEvictPod p ro)"
  "noWrite (EvDeletePod p ro)" "noWrite (EvTalosUpgrade s opts ru)" "noWrite (EvTalosGetConfig s rc)"
  "\<not> noWrite (EvPatchJobStatus b m rj)"
  by (simp_all add: noWrite_def)

section \<open>Programs whose calls come in order\<close>

definition ordered :: "('s, 'a) io \<Rightarrow> bool" where
  "ordered m \<longleftrightarrow> (\<forall>h. runs h m (\<lambda>_ h'. \<exists>es. h' = h @ es \<and> sorted_wrt inOrder es))"

named_theorems ordered_rules "composition rules for ordered"

lemma ordered_runs: "ordered m \<Longrightarrow> runs h m (\<lambda>_ h'. \<exists>es. h' = h @ es \<and> sorted_wrt inOrder es)"
  by (simp add: ordered_def)

text \<open>The general composition: calls with \<open>P\<close> first, then calls with \<open>Q\<close>.\<close>

lemma ordered_seq:
  assumes m: "ordered m" "emits P m" and f: "\<And>a. ordered (f a)" "\<And>a. emits Q (f a)"
    and order: "\<And>e f. P e \<Longrightarrow> Q f \<Longrightarrow> inOrder e f"
  shows "ordered (State_Monad.bind m f)"
  unfolding ordered_def
proof (intro allI, rule runs_bind, rule runs_mono [OF runs_conj [OF ordered_runs [OF m(1)] emits_runs [OF m(2)]]])
  fix h a h'
  assume "(\<exists>es. h' = h @ es \<and> sorted_wrt inOrder es) \<and> (\<exists>es. h' = h @ es \<and> list_all P es)"
  then obtain es where es: "h' = h @ es" "sorted_wrt inOrder es" "list_all P es" by auto
  show "runs h' (f a) (\<lambda>_ h'. \<exists>es. h' = h @ es \<and> sorted_wrt inOrder es)"
  proof (rule runs_mono [OF runs_conj [OF ordered_runs [OF f(1)] emits_runs [OF f(2)]]])
    fix h''
    assume "(\<exists>es'. h'' = h' @ es' \<and> sorted_wrt inOrder es') \<and> (\<exists>es'. h'' = h' @ es' \<and> list_all Q es')"
    then obtain es' where "h'' = h' @ es'" "sorted_wrt inOrder es'" "list_all Q es'" by auto
    then show "\<exists>es. h'' = h @ es \<and> sorted_wrt inOrder es"
      using es order by (intro exI [of _ "es @ es'"]) (auto simp: sorted_wrt_append list_all_iff)
  qed
qed

lemma ordered_emits: "emits P m \<Longrightarrow> (\<And>e f. P e \<Longrightarrow> P f \<Longrightarrow> inOrder e f) \<Longrightarrow> ordered m"
  unfolding ordered_def
proof (intro allI, erule runs_emits)
  fix h a es
  assume "\<And>e f. P e \<Longrightarrow> P f \<Longrightarrow> inOrder e f" and "list_all P es"
  then show "\<exists>es'. h @ es = h @ es' \<and> sorted_wrt inOrder es'"
    by (intro exI [of _ es]) (auto simp: list_all_iff sorted_wrt_iff_nth_less)
qed

lemma ordered_any: "ordered m \<Longrightarrow> emits (\<lambda>_. True) m"
  unfolding emits_def by (intro allI, rule runs_mono, erule ordered_runs) (auto simp: list_all_iff)

lemma ordered_return [ordered_rules]: "ordered (return a)"
  by (rule ordered_emits [where P = harmless], rule emits_return) simp

lemma ordered_quiet [ordered_rules]:
  assumes "emits noWrite m" and "\<And>a. ordered (f a)"
  shows "ordered (State_Monad.bind m f)"
proof (rule ordered_seq [where P = noWrite and Q = "\<lambda>_. True"])
  show "ordered m" by (rule ordered_emits [OF assms(1)]) simp
qed (use assms in \<open>simp_all add: ordered_any\<close>)

lemma ordered_tail:
  assumes "ordered m" and "\<And>a. emits harmless (f a)"
  shows "ordered (State_Monad.bind m f)"
proof (rule ordered_seq [where P = "\<lambda>_. True" and Q = harmless])
  show "ordered (f a)" for a by (rule ordered_emits [OF assms(2)]) simp
qed (use assms in \<open>simp_all add: ordered_any\<close>)

lemma ordered_cases [ordered_rules]:
  "(b \<Longrightarrow> ordered m) \<Longrightarrow> (\<not> b \<Longrightarrow> ordered n) \<Longrightarrow> ordered (if b then m else n)"
  "(\<And>e. x = Inl e \<Longrightarrow> ordered (f e)) \<Longrightarrow> (\<And>a. x = Inr a \<Longrightarrow> ordered (g a)) \<Longrightarrow>
   ordered (case x of Inl e \<Rightarrow> f e | Inr a \<Rightarrow> g a)"
  "(y = None \<Longrightarrow> ordered m) \<Longrightarrow> (\<And>a. y = Some a \<Longrightarrow> ordered (f' a)) \<Longrightarrow>
   ordered (case y of None \<Rightarrow> m | Some a \<Rightarrow> f' a)"
  "ordered m \<Longrightarrow> ordered n \<Longrightarrow> ordered (case c of True \<Rightarrow> m | False \<Rightarrow> n)"
  by (simp, cases x, simp_all, cases y, simp_all, cases c, simp_all)

section \<open>The handlers\<close>

lemma ordered_patchStatus [ordered_rules]: "ordered (patchStatus E original modified)"
proof -
  have "ordered (patchJobStatus E original m)" for m
    unfolding ordered_def by (intro allI runs_perform) (simp add: inOrder_def)
  then show ?thesis unfolding patchStatus_def by (intro ordered_rules emits_rules) simp_all
qed

lemma ordered_storeStatus [ordered_rules]: "ordered (storeStatus E original modified d)"
  unfolding storeStatus_def by (intro ordered_tail ordered_patchStatus emits_rules)

lemma ordered_failJob [ordered_rules]: "ordered (failJob E original modified msg err)"
  unfolding failJob_def by (intro ordered_rules emits_rules emits_UncordonNode) simp_all

lemma ordered_retryOrFail [ordered_rules]: "ordered (retryOrFail E original modified msg err)"
  unfolding retryOrFail_def by (intro ordered_rules emits_rules) simp_all

text \<open>Writes that do not end the job may be repeated.\<close>

lemma ordered_retryStatus:
  assumes "\<not> IsTerminal (jobPhase modified)"
  shows "ordered (retryStatus E n original modified)"
proof (rule ordered_emits [where P = "\<lambda>e. harmless e \<or> (case e of EvPatchJobStatus _ m _ \<Rightarrow> \<not> IsTerminal (jobPhase m) | _ \<Rightarrow> False)"])
  let ?P = "\<lambda>e. harmless e \<or> (case e of EvPatchJobStatus _ m _ \<Rightarrow> \<not> IsTerminal (jobPhase m) | _ \<Rightarrow> False)"
  show "emits ?P (retryStatus E n original modified)"
    using assms by (induction n; unfold retryStatus.simps; intro emits_rules emits_patchStatus) simp_all
  show "?P e \<Longrightarrow> ?P f \<Longrightarrow> inOrder e f" for e f
    by (cases e; cases f) (simp_all add: inOrder_def harmless_def)
qed

lemma ordered_withTalos [ordered_rules]:
  assumes "\<And>n a. ordered (fn n a)"
  shows "ordered (withTalos E original job fn)"
  unfolding withTalos_def Close_def
  by (intro ordered_quiet noWrite_setup ordered_cases ordered_rules ordered_tail emits_rules assms) simp_all

lemma ordered_initJob: "ordered (initJob E j)"
  unfolding initJob_def decideInit_def finishInit_def Let_def
  by (intro ordered_rules emits_rules emits_UncordonNode) simp_all

lemma ordered_startDrain: "ordered (startDrain E j)"
  unfolding startDrain_def Let_def
  by (intro ordered_rules emits_rules emits_CordonNode) simp_all

lemma ordered_waitForDrain: "ordered (waitForDrain E j)"
  unfolding waitForDrain_def Let_def by (intro ordered_rules emits_rules) simp_all

lemma ordered_startUpgrade: "ordered (startUpgrade E j)"
  unfolding startUpgrade_def Let_def
  by (intro ordered_withTalos ordered_quiet ordered_cases ordered_tail [OF ordered_retryStatus] ordered_rules emits_rules) simp_all

lemma ordered_checkReboot: "ordered (checkReboot E job start plan n a)"
  unfolding checkReboot_def finishReboot_def Let_def
  by (intro ordered_rules emits_rules emits_UncordonNode) simp_all

lemma ordered_startKubernetesUpgrade: "ordered (startKubernetesUpgrade E j)"
  unfolding startKubernetesUpgrade_def Let_def by (intro ordered_rules emits_rules) simp_all

lemma ordered_checkKubernetes: "ordered (checkKubernetes E job start plan)"
  unfolding checkKubernetes_def finishKubernetes_def Let_def by (intro ordered_rules emits_rules) simp_all

text \<open>Two handlers write the start of a wait first and go on with the answer.\<close>

definition clocks :: "event \<Rightarrow> bool" where
  "clocks e \<longleftrightarrow> (case e of EvPatchJobStatus _ m _ \<Rightarrow> \<not> IsTerminal (jobPhase m) | _ \<Rightarrow> harmless e)"

lemma clocks_order: "clocks e \<Longrightarrow> \<not> disrupts f \<Longrightarrow> inOrder e f"
  by (cases e) (simp_all add: clocks_def inOrder_def harmless_def)

lemma clocks_patchStatus: "\<not> IsTerminal (jobPhase modified) \<Longrightarrow> emits clocks (patchStatus E original modified)"
  by (rule emits_patchStatus) (simp_all add: clocks_def)

lemma ordered_clock:
  assumes "\<not> IsTerminal (jobPhase modified)" and "\<And>r. ordered (f r)" and "\<And>r. emits (\<lambda>e. \<not> disrupts e) (f r)"
  shows "ordered (do { r \<leftarrow> patchStatus E original modified; f r })"
  by (rule ordered_seq [OF ordered_patchStatus clocks_patchStatus [OF assms(1)] assms(2,3) clocks_order])

text \<open>Only three phases take capacity away.\<close>

definition disruptivePhase :: "patchJobPhase \<Rightarrow> bool" where
  "disruptivePhase p \<longleftrightarrow> p \<in> {PatchJobPhasePending, PatchJobPhaseUpgrading, PatchJobPhaseUpgradingKubernetes}"

lemma jobEvent_disrupts: "jobEvent E j e \<Longrightarrow> disrupts e \<Longrightarrow> disruptivePhase (jobPhase j)"
  by (cases e) (auto simp: jobEvent_def disrupts_def disruptivePhase_def uncordoned_def)

lemma emits_undisrupted:
  "emits (jobEvent E j) m \<Longrightarrow> \<not> disruptivePhase (jobPhase j) \<Longrightarrow> emits (\<lambda>e. \<not> disrupts e) m"
  by (erule emits_mono) (use jobEvent_disrupts in blast)

lemma undisrupted_checkReboot:
  assumes "jobPhase j = PatchJobPhaseRebooting"
  shows "emits (\<lambda>e. \<not> disrupts e) (checkReboot E job start plan n a)"
  by (rule emits_undisrupted [OF emits_checkReboot [OF assms]]) (simp add: assms disruptivePhase_def)

lemma ordered_waitForReboot:
  assumes "jobPhase j = PatchJobPhaseRebooting"
  shows "ordered (waitForReboot E j)"
  unfolding waitForReboot_def
  by (intro ordered_withTalos ordered_quiet ordered_cases ordered_retryOrFail ordered_checkReboot ordered_clock
      ordered_return emits_rules emits_getPatchPlan undisrupted_checkReboot [OF assms]) (simp_all add: assms)

lemma undisrupted_checkKubernetes:
  assumes "jobPhase j = PatchJobPhaseValidatingKubernetes"
  shows "emits (\<lambda>e. \<not> disrupts e) (checkKubernetes E job start plan)"
  by (rule emits_undisrupted [OF emits_checkKubernetes [OF assms]]) (simp add: assms disruptivePhase_def)

lemma ordered_waitForKubernetesUpgrade:
  assumes "jobPhase j = PatchJobPhaseValidatingKubernetes"
  shows "ordered (waitForKubernetesUpgrade E j)"
  unfolding waitForKubernetesUpgrade_def
  by (intro ordered_quiet ordered_cases ordered_retryOrFail ordered_checkKubernetes ordered_clock
      ordered_return emits_rules undisrupted_checkKubernetes [OF assms]) (simp_all add: assms)

lemma ordered_reconcilePhase: "ordered (reconcilePhase E j)"
  by (cases "jobPhase j")
     (simp_all add: reconcilePhase_def ordered_initJob ordered_startDrain ordered_waitForDrain ordered_startUpgrade
        ordered_waitForReboot ordered_startKubernetesUpgrade ordered_waitForKubernetesUpgrade ordered_return)

text \<open>What is known of the calls of a reconcile after the job was read.\<close>

lemma ReconcileJob_order:
  "runs [] (ReconcileJob E name) (\<lambda>_ es. case es of
      EvGetJob _ (Inr j) # rest \<Rightarrow> sorted_wrt inOrder rest
    | _ \<Rightarrow> True)"
proof -
  have read: "r = Inr j \<Longrightarrow> runs ([] @ [EvGetJob name r]) (reconcilePhase E j) (\<lambda>_ es. case es of
      EvGetJob _ (Inr j) # rest \<Rightarrow> sorted_wrt inOrder rest
    | _ \<Rightarrow> True)" for r j
    by (rule runs_mono [OF ordered_runs [OF ordered_reconcilePhase]]) auto
  show ?thesis unfolding ReconcileJob_def by (intro runs_rules runs_mono [OF read]) auto
qed

lemma reconcile_calls:
  assumes "calls (snd (run_state (ReconcileJob E name) w)) = calls w @ EvGetJob n (Inr j) # es"
  shows "if IsTerminal (jobPhase j) then es = [] else list_all (jobEvent E j) es" and "sorted_wrt inOrder es"
proof -
  show "if IsTerminal (jobPhase j) then es = [] else list_all (jobEvent E j) es"
    using runsE [OF ReconcileJob_trace, of E name w] assms by (fastforce simp: reconcileTrace_def)
  show "sorted_wrt inOrder es"
    using runsE [OF ReconcileJob_order, of E name w] assms by fastforce
qed

end
