(* ===== verification/JobUpgrades.thy ===== *)
theory JobUpgrades imports JobLife JobOrder begin

text \<open>
  How often a job has its node upgraded, counted over all its reconciles: the requests the node accepted,
  against the reconciles that ended, or were cut off, before the answer to a status write told them that
  the request is on record.
\<close>

section \<open>What a reconcile leaves behind\<close>

definition acceptedUpgrade :: "event \<Rightarrow> bool" where
  "acceptedUpgrade e = (case e of EvTalosUpgrade _ _ (Inr n) \<Rightarrow> 0 < n | _ \<Rightarrow> False)"

definition acceptedUpgrades :: "event list \<Rightarrow> nat" where
  "acceptedUpgrades es = length (filter acceptedUpgrade es)"

text \<open>
  The phases that may be stored after the calls \<open>es\<close>: a status write that was acknowledged is the stored
  status, one that was answered with an error may have been carried out all the same.
\<close>

definition landWrite :: "patchJobPhase list \<Rightarrow> event \<Rightarrow> patchJobPhase list" where
  "landWrite ps e = (case e of
      EvPatchJobStatus _ m (Inr _) \<Rightarrow> [jobPhase m]
    | EvPatchJobStatus _ m (Inl _) \<Rightarrow> jobPhase m # ps
    | _ \<Rightarrow> ps)"

definition landed :: "patchJobPhase \<Rightarrow> event list \<Rightarrow> patchJobPhase list" where
  "landed p es = foldl landWrite [p] es"

definition acknowledged :: "event \<Rightarrow> bool" where
  "acknowledged e = (case e of EvPatchJobStatus _ _ (Inr _) \<Rightarrow> True | _ \<Rightarrow> False)"

text \<open>A reconcile that had an upgrade accepted and never learnt that its status was stored.\<close>

definition unrecorded :: "event list \<Rightarrow> bool" where
  "unrecorded es \<longleftrightarrow> list_ex acceptedUpgrade es \<and> \<not> list_ex acknowledged es"

text \<open>
  The history of a job: the phase that may be stored, the upgrades accepted and the reconciles that left one
  unrecorded. A round is a reconcile that reads the stored phase; it may be cut off after any of its calls
  (\<open>es\<close> are those made, \<open>rest\<close> those it does not come to).
\<close>

inductive jobHistory :: "('v, 's) env \<Rightarrow> string \<Rightarrow> patchJobPhase \<Rightarrow> nat \<Rightarrow> nat \<Rightarrow> bool" for E name where
  created: "jobHistory E name PatchJobPhaseNone 0 0"
| round: "jobHistory E name p n k \<Longrightarrow>
    calls (snd (run_state (ReconcileJob E name) w)) = calls w @ EvGetJob name (Inr j) # es @ rest \<Longrightarrow>
    jobPhase j = p \<Longrightarrow> q \<in> set (landed p es) \<Longrightarrow>
    jobHistory E name q (n + acceptedUpgrades es) (if unrecorded es then Suc k else k)"

section \<open>What is stored after a reconcile\<close>

definition writesOnly :: "patchJobPhase \<Rightarrow> event \<Rightarrow> bool" where
  "writesOnly q e = (case e of EvPatchJobStatus _ m _ \<Rightarrow> jobPhase m = q | _ \<Rightarrow> True)"

lemma noWrite_writesOnly: "noWrite e \<Longrightarrow> writesOnly q e"
  by (cases e) (simp_all add: writesOnly_def noWrite_def)

lemma writesOnly_simps [simp]: "writesOnly q (EvPatchJobStatus b m r) \<longleftrightarrow> jobPhase m = q"
  by (simp add: writesOnly_def)

lemma landed_snoc: "landed p (es @ [e]) = landWrite (landed p es) e"
  by (simp add: landed_def)

lemma landWrite_subset:
  "set (landWrite ps e) \<subseteq> set ps \<union> {q. storesPhase q e}"
  by (auto simp: landWrite_def storesPhase_def split: event.splits sum.splits)

lemma landed_written: "q \<in> set (landed p es) \<Longrightarrow> q = p \<or> (\<exists>e \<in> set es. storesPhase q e)"
proof (induction es rule: rev_induct)
  case (snoc e es)
  then consider "q \<in> set (landed p es)" | "storesPhase q e"
    using landWrite_subset [of "landed p es" e] by (auto simp: landed_snoc)
  then show ?case using snoc.IH by cases auto
qed (simp add: landed_def)

lemma landWrite_only:
  "writesOnly q e \<Longrightarrow> set ps = {q} \<or> acknowledged e \<Longrightarrow> set (landWrite ps e) = {q}"
  by (cases e) (auto simp: landWrite_def acknowledged_def writesOnly_def split: sum.splits)

lemma landed_acknowledged:
  "list_all (writesOnly q) es \<Longrightarrow> list_ex acknowledged es \<Longrightarrow> set (landed p es) = {q}"
proof (induction es rule: rev_induct)
  case (snoc e es)
  then have "set (landed p es) = {q} \<or> acknowledged e" by auto
  then show ?case using snoc.prems landWrite_only [of q e "landed p es"] by (simp add: landed_snoc)
qed simp

section \<open>One reconcile\<close>

lemma acceptedUpgrade_isUpgrade: "acceptedUpgrade e \<Longrightarrow> isUpgrade e"
  by (cases e) (simp_all add: acceptedUpgrade_def isUpgrade_def)

lemma acceptedUpgrades_calls: "acceptedUpgrades es \<le> upgradeCalls es"
  by (induction es) (auto simp: acceptedUpgrades_def dest: acceptedUpgrade_isUpgrade)

lemma acceptedUpgrades_zero: "acceptedUpgrades es = 0 \<longleftrightarrow> \<not> list_ex acceptedUpgrade es"
  by (simp add: acceptedUpgrades_def list_ex_iff filter_empty_conv)

lemma harmless_notAccepted: "harmless e \<Longrightarrow> \<not> acceptedUpgrade e"
  by (cases e) (simp_all add: acceptedUpgrade_def harmless_def disrupts_def)

lemma harmless_writesOnly: "harmless e \<Longrightarrow> writesOnly q e"
  by (simp add: harmless_def noWrite_writesOnly)

text \<open>Once an upgrade was accepted, the only phase a reconcile writes, before or after, is the one of the reboot.\<close>

definition upgradeWrites :: "event list \<Rightarrow> bool" where
  "upgradeWrites es \<longleftrightarrow> \<not> list_ex acceptedUpgrade es \<or> list_all (writesOnly PatchJobPhaseRebooting) es"

lemma upgradeWrites_none: "\<not> list_ex acceptedUpgrade h \<Longrightarrow> emits noUpgrade m \<Longrightarrow> runs h m (\<lambda>_. upgradeWrites)"
  by (erule runs_emits) (auto simp: upgradeWrites_def list_ex_iff list_all_iff noUpgrade_def dest: acceptedUpgrade_isUpgrade)

lemma upgradeWrites_only:
  "list_all (writesOnly PatchJobPhaseRebooting) h \<Longrightarrow> emits (writesOnly PatchJobPhaseRebooting) m \<Longrightarrow>
   runs h m (\<lambda>_. upgradeWrites)"
  by (erule runs_emits) (simp add: upgradeWrites_def)

lemma harmless_history: "list_all harmless h \<Longrightarrow> \<not> list_ex acceptedUpgrade h"
  "list_all harmless h \<Longrightarrow> list_all (writesOnly q) h"
  by (auto simp: list_all_iff list_ex_iff harmless_notAccepted harmless_writesOnly)

lemma runs_Upgrade:
  assumes "\<And>err r. \<not> acceptedUpgrade (EvTalosUpgrade a (upgradeRequest img) r) \<Longrightarrow>
      Q (Some err) (h @ [EvTalosUpgrade a (upgradeRequest img) r])"
    and "\<And>n. Q None (h @ [EvTalosUpgrade a (upgradeRequest img) (Inr n)])"
  shows "runs h (Upgrade E a img) Q"
  unfolding Upgrade_def using assms by (intro runs_rules) (auto simp: acceptedUpgrade_def)

lemma emits_writesOnly_retryStatus:
  "jobPhase modified = q \<Longrightarrow> emits (writesOnly q) (retryStatus E n original modified)"
  by (induction n; unfold retryStatus.simps; intro emits_rules emits_patchStatus) (simp_all add: writesOnly_def)

text \<open>The request and what is stored after it.\<close>

lemma upgradeWrites_request:
  assumes h: "list_all harmless h"
  shows "runs h (do {
      u \<leftarrow> Upgrade E a img;
      (case u of
         Some err \<Rightarrow> retryOrFail E j j m err
       | None \<Rightarrow> do {
           now \<leftarrow> timeNow E;
           r \<leftarrow> retryStatus E k j (setStatus j (\<lambda>s. s\<lparr>js_Phase := PatchJobPhaseRebooting, js_Message := m2,
                  RebootStartTime := Some now, PreUpgradeBootID := b\<rparr>));
           (case r of Inl err \<Rightarrow> return (0, Some err) | Inr _ \<Rightarrow> return (d, None)) }) }) (\<lambda>_. upgradeWrites)"
proof (intro runs_bind runs_Upgrade, unfold option.case)
  show "runs (h @ [e]) (retryOrFail E j j m err) (\<lambda>_. upgradeWrites)" if "\<not> acceptedUpgrade e" for e err
    using that harmless_history(1) [OF h] by (intro upgradeWrites_none noUpgrade_retryOrFail) simp
qed (use harmless_history(2) [OF h] in \<open>intro upgradeWrites_only emits_rules emits_writesOnly_retryStatus;
       simp add: writesOnly_def\<close>)

lemma upgradeWrites_startUpgrade: "runs [] (startUpgrade E j) (\<lambda>_. upgradeWrites)"
proof -
  have sid: "emits harmless (if b then GetSchematicID E a else return (Inr ''''))" for b a
    by (intro emits_rules) simp
  note ends = upgradeWrites_none [OF harmless_history(1) noUpgrade_retryOrFail]
    upgradeWrites_none [OF harmless_history(1) noUpgrade_failJob]
  show ?thesis
    unfolding startUpgrade_def Let_def
  proof (rule runs_withTalos_setup [where P = harmless and I = "list_all harmless"], goal_cases)
    case (8 h n a)
    then show ?case
      by (rule_tac runs_bind, rule_tac runs_emits [OF sid], intro runs_sum ends upgradeWrites_request) simp_all
  qed (auto intro!: ends emits_rules simp: upgradeWrites_def acceptedUpgrade_def writesOnly_def)
qed

section \<open>The history of a job\<close>

lemma jobEvent_upgrading: "jobEvent E j e \<Longrightarrow> isUpgrade e \<Longrightarrow> jobPhase j = PatchJobPhaseUpgrading"
  by (cases e) (simp_all add: isUpgrade_def jobEvent_def)

lemma isUpgrade_onlyUpgrading:
  "list_all (jobEvent E j) es \<Longrightarrow> list_ex isUpgrade es \<Longrightarrow> jobPhase j = PatchJobPhaseUpgrading"
  using jobEvent_upgrading [of E j] by (auto simp: list_all_iff list_ex_iff)

text \<open>The calls of a reconcile after the job was read.\<close>

lemma phase_upgrades:
  "runs [] (reconcilePhase E j) (\<lambda>_ es. upgradeWrites es \<and>
     (if list_ex acceptedUpgrade es then jobPhase j = PatchJobPhaseUpgrading \<and> upgradeCalls es \<le> 1 else True))"
proof (cases "jobPhase j = PatchJobPhaseUpgrading")
  case True
  then have "runs [] (reconcilePhase E j) (\<lambda>_. upgradeWrites)"
    by (simp add: reconcilePhase_def upgradeWrites_startUpgrade)
  from runs_conj [OF this upgradeCalls_reconcilePhase] show ?thesis by (rule runs_mono) (simp add: True)
next
  case False
  have "\<not> list_ex acceptedUpgrade es" if "list_all (jobEvent E j) es" for es
    using that False isUpgrade_onlyUpgrading [of E j es] acceptedUpgrade_isUpgrade by (fastforce simp: list_ex_iff)
  then show ?thesis by (intro runs_emits [OF emits_reconcilePhase]) (simp add: upgradeWrites_def)
qed

lemma reconcile_upgrades:
  "runs [] (ReconcileJob E name) (\<lambda>_ es. case es of
      EvGetJob _ (Inr j) # rest \<Rightarrow> upgradeWrites rest \<and>
        (if list_ex acceptedUpgrade rest then jobPhase j = PatchJobPhaseUpgrading \<and> upgradeCalls rest \<le> 1 else True)
    | _ \<Rightarrow> True)"
proof (rule runs_ReconcileJob)
  fix j
  show "runs [EvGetJob name (Inr j)] (reconcilePhase E j) (\<lambda>_ es. case es of
      EvGetJob _ (Inr j) # rest \<Rightarrow> upgradeWrites rest \<and>
        (if list_ex acceptedUpgrade rest then jobPhase j = PatchJobPhaseUpgrading \<and> upgradeCalls rest \<le> 1 else True)
    | _ \<Rightarrow> True)"
    by (rule runs_frame [OF phase_upgrades]) (simp split: if_splits)
qed (simp_all add: upgradeWrites_def)

text \<open>One round: either nothing is accepted, or the phase was the one for it and one request is accepted.\<close>

lemma round_upgrades:
  assumes "calls (snd (run_state (ReconcileJob E name) w)) = calls w @ EvGetJob name (Inr j) # es @ rest"
  shows "acceptedUpgrades es = 0 \<or> acceptedUpgrades es = 1 \<and> jobPhase j = PatchJobPhaseUpgrading \<and>
    list_all (writesOnly PatchJobPhaseRebooting) es"
proof (cases "list_ex acceptedUpgrade es")
  case True
  have "upgradeWrites (es @ rest)" and "upgradeCalls (es @ rest) \<le> 1" and "jobPhase j = PatchJobPhaseUpgrading"
    using runsE [OF reconcile_upgrades, of E name w] assms True by auto
  then show ?thesis
    using True acceptedUpgrades_calls [of es] acceptedUpgrades_zero [of es] by (auto simp: upgradeWrites_def)
qed (simp add: acceptedUpgrades_zero)

lemma round_rank:
  assumes "calls (snd (run_state (ReconcileJob E name) w)) = calls w @ EvGetJob name (Inr j) # es @ rest"
    and "q \<in> set (landed (jobPhase j) es)"
  shows "stage (jobPhase j) \<le> stage q"
proof -
  have "q = jobPhase j \<or> (\<exists>b m r. EvPatchJobStatus b m r \<in> set (es @ rest) \<and> jobPhase m = q)"
    using landed_written [OF assms(2)] storesPhaseE [of q] by fastforce
  then have "lifeStep E (jobPhase j) q" using assms(1) unfolding lifeStep_def by blast
  then show ?thesis using life.step_rank by fastforce
qed

lemma history_upgrades:
  "jobHistory E name p n k \<Longrightarrow> n \<le> Suc k \<and> (n = Suc k \<longrightarrow> stage PatchJobPhaseRebooting \<le> stage p)"
proof (induction rule: jobHistory.induct)
  case (round p n k w j es rest q)
  from round_upgrades [OF round(2)] show ?case
  proof
    assume none: "acceptedUpgrades es = 0"
    then have "\<not> unrecorded es" by (simp add: unrecorded_def acceptedUpgrades_zero)
    moreover have "stage p \<le> stage q" using round_rank [OF round(2)] round(3,4) by simp
    ultimately show ?thesis using none round.IH by auto
  next
    assume one: "acceptedUpgrades es = 1 \<and> jobPhase j = PatchJobPhaseUpgrading \<and> list_all (writesOnly PatchJobPhaseRebooting) es"
    then have n: "n \<le> k" using round.IH round(3) by (auto simp: stage_def)
    show ?thesis
    proof (cases "unrecorded es")
      case False
      then have "q = PatchJobPhaseRebooting"
        using one round(4) landed_acknowledged [of PatchJobPhaseRebooting es p] acceptedUpgrades_zero [of es]
        by (auto simp: unrecorded_def)
      then show ?thesis using one n False by simp
    qed (use one n in simp)
  qed
qed simp

end
