(* ===== verification/JobTyping.thy ===== *)
theory JobTyping imports JobMachine begin

text \<open>
  The type of a job's status: which of its optional fields are set in which phase. The timeouts of the
  job controller read these fields, so a status that lacks one would never time out.
\<close>

definition timed :: "jobStatus \<Rightarrow> bool" where
  "timed s \<longleftrightarrow>
     (js_Phase s = PatchJobPhaseNone \<or> js_StartTime s \<noteq> None) \<and>
     (js_Phase s \<in> {PatchJobPhaseDraining, PatchJobPhaseUpgrading, PatchJobPhaseRebooting} \<longrightarrow> DrainStartTime s \<noteq> None) \<and>
     (js_Phase s = PatchJobPhaseRebooting \<longrightarrow> RebootStartTime s \<noteq> None) \<and>
     (js_Phase s = PatchJobPhaseValidatingKubernetes \<longrightarrow> KubernetesUpgradeStartTime s \<noteq> None)"

definition conforms :: "jobStatus \<Rightarrow> bool" where
  "conforms s \<longleftrightarrow> timed s \<and> (IsTerminal (js_Phase s) \<longrightarrow> js_CompletionTime s \<noteq> None)"

text \<open>A write is typed if it turns a conforming status of a job in phase \<open>p\<close> into a conforming one.\<close>

definition typedIn :: "patchJobPhase \<Rightarrow> patchJob \<Rightarrow> bool" where
  "typedIn p b \<longleftrightarrow> conforms (job_Status b) \<and> jobPhase b = p"

definition typedWrite :: "patchJobPhase \<Rightarrow> event \<Rightarrow> bool" where
  "typedWrite p e = (case e of
      EvPatchJobStatus b m _ \<Rightarrow> typedIn p b \<longrightarrow> conforms (job_Status m)
    | _ \<Rightarrow> True)"

lemma typedWrite_simps [simp]:
  "typedWrite p (EvNow t)" "typedWrite p (EvGetPlan a rp)" "typedWrite p (EvGetNode a rn)"
  "typedWrite p (EvGetSecret a b rs)" "typedWrite p (EvListPods a rl)" "typedWrite p (EvListNamespacedPods a b rl)"
  "typedWrite p (EvPatchNode n n2 ro)" "typedWrite p (EvEvictPod d ro)" "typedWrite p (EvDeletePod d ro)"
  "typedWrite p (EvTalosDial es tls ro)" "typedWrite p (EvTalosClose ro)" "typedWrite p (EvTalosVersion an rv)"
  "typedWrite p (EvTalosExtensions a re)" "typedWrite p (EvTalosUpgrade a opts ru)" "typedWrite p (EvTalosGetConfig a rc)"
  "typedWrite p (EvTalosApplyConfig a dt md ro)"
  "typedWrite p (EvPatchJobStatus base m rj) \<longleftrightarrow> (typedIn p base \<longrightarrow> conforms (job_Status m))"
  by (simp_all add: typedWrite_def)

lemmas typing = typedIn_def conforms_def timed_def

section \<open>Every write is typed\<close>

lemma typed_patchStatus:
  assumes "typedIn p original \<Longrightarrow> timed (job_Status modified)"
  shows "emits (typedWrite p) (patchStatus E original modified)"
  unfolding patchStatus_def
  using assms by (intro emits_rules) (auto simp: conforms_def timed_def)

lemma typed_storeStatus:
  assumes "typedIn p original \<Longrightarrow> timed (job_Status modified)"
  shows "emits (typedWrite p) (storeStatus E original modified d)"
  unfolding storeStatus_def using assms by (intro emits_rules typed_patchStatus)

lemma typed_retryStatus:
  assumes "typedIn p original \<Longrightarrow> timed (job_Status modified)"
  shows "emits (typedWrite p) (retryStatus E n original modified)"
  by (induction n) (auto intro!: emits_rules typed_patchStatus assms)

lemma typed_uncordon: "emits (typedWrite p) (UncordonNode E name)"
  by (rule emits_UncordonNode) simp_all

lemma typed_cordon: "emits (typedWrite p) (CordonNode E name)"
  by (rule emits_CordonNode) simp_all

lemma typed_failJob:
  assumes "typedIn p original \<Longrightarrow> js_StartTime (job_Status modified) \<noteq> None"
  shows "emits (typedWrite p) (failJob E original modified msg err)"
  unfolding failJob_def
  using assms by (intro emits_rules typed_storeStatus typed_uncordon) (auto simp: timed_def)

lemma typed_retryOrFail:
  assumes "typedIn p original \<Longrightarrow> js_StartTime (job_Status modified) \<noteq> None"
  shows "emits (typedWrite p) (retryOrFail E original modified msg err)"
  unfolding retryOrFail_def using assms by (intro emits_rules typed_failJob) simp_all

lemma typed_withTalos:
  assumes "typedIn p original \<Longrightarrow> js_StartTime (job_Status job) \<noteq> None"
    and "\<And>n a. emits (typedWrite p) (fn n a)"
  shows "emits (typedWrite p) (withTalos E original job fn)"
  unfolding withTalos_def
  using assms by (intro emits_rules typed_retryOrFail typed_failJob) auto

lemmas typed_rules = emits_rules typed_withTalos typed_retryOrFail typed_failJob typed_patchStatus typed_storeStatus
  typed_uncordon typed_cordon typed_retryStatus

lemma typed_initJob: "emits (typedWrite p) (initJob E j)"
  unfolding initJob_def decideInit_def finishInit_def Let_def
  by (intro typed_rules) (auto simp: timed_def)

lemma typed_startDrain: "emits (typedWrite PatchJobPhasePending) (startDrain E j)"
  unfolding startDrain_def Let_def
  by (intro typed_rules) (auto simp: typing intro!: typed_rules split: bool.splits)

lemma typed_waitForDrain: "emits (typedWrite PatchJobPhaseDraining) (waitForDrain E j)"
  unfolding waitForDrain_def Let_def
  by (intro typed_rules) (auto simp: typing intro!: typed_rules split: bool.splits)

lemma typed_startUpgrade: "emits (typedWrite PatchJobPhaseUpgrading) (startUpgrade E j)"
  unfolding startUpgrade_def Let_def
  by (intro typed_rules) (auto simp: typing)

lemma typed_checkReboot: "emits (typedWrite PatchJobPhaseRebooting) (checkReboot E j start plan n a)"
  unfolding checkReboot_def nodeUnhealthy_def finishReboot_def Let_def
  by (intro typed_rules) (auto simp: typing)

lemma typed_waitForReboot: "emits (typedWrite PatchJobPhaseRebooting) (waitForReboot E j)"
  unfolding waitForReboot_def
  by (intro typed_rules typed_checkReboot) (auto simp: typing)

lemma typed_startKubernetesUpgrade:
  "emits (typedWrite PatchJobPhaseUpgradingKubernetes) (startKubernetesUpgrade E j)"
  unfolding startKubernetesUpgrade_def Let_def
  by (intro typed_rules) (auto simp: typing)

lemma typed_checkKubernetes:
  "emits (typedWrite PatchJobPhaseValidatingKubernetes) (checkKubernetes E j start plan)"
  unfolding checkKubernetes_def finishKubernetes_def Let_def
  by (intro typed_rules) (auto simp: typing)

lemma typed_waitForKubernetesUpgrade:
  "emits (typedWrite PatchJobPhaseValidatingKubernetes) (waitForKubernetesUpgrade E j)"
  unfolding waitForKubernetesUpgrade_def
  by (intro typed_rules typed_checkKubernetes) (auto simp: typing)

lemma typed_reconcilePhase: "emits (typedWrite (jobPhase j)) (reconcilePhase E j)"
  by (cases "jobPhase j")
     (simp_all add: reconcilePhase_def typed_initJob typed_startDrain typed_waitForDrain typed_startUpgrade
        typed_waitForReboot typed_startKubernetesUpgrade typed_waitForKubernetesUpgrade emits_return)

lemma typed_ReconcileJob:
  "runs [] (ReconcileJob E name) (\<lambda>_ es. case es of
      EvGetJob _ (Inr j) # rest \<Rightarrow> list_all (typedWrite (jobPhase j)) rest
    | _ \<Rightarrow> True)"
  unfolding ReconcileJob_def
  by (intro runs_rules runs_emits [OF typed_reconcilePhase]) auto

end
