(* ===== verification/JobDeadlines.thy ===== *)
theory JobDeadlines imports JobTraces JobTyping begin

text \<open>
  The deadlines of a job's phases: what a reconcile that returns no error has done about the phase it
  found. It has stored the next phase, or the time of the phase has not run out.
\<close>

section \<open>The time of a phase\<close>

text \<open>When the time of a phase starts, and whether it is still open after \<open>elapsed\<close>.\<close>

fun phaseStart :: "patchJobPhase \<Rightarrow> jobStatus \<Rightarrow> time option" where
  "phaseStart PatchJobPhasePending s = DrainStartTime s"
| "phaseStart PatchJobPhaseDraining s = DrainStartTime s"
| "phaseStart PatchJobPhaseRebooting s = RebootStartTime s"
| "phaseStart PatchJobPhaseValidatingKubernetes s = KubernetesUpgradeStartTime s"
| "phaseStart _ s = None"

fun phaseOpen :: "patchJobPhase \<Rightarrow> patchPlan \<Rightarrow> duration \<Rightarrow> bool" where
  "phaseOpen PatchJobPhasePending plan elapsed \<longleftrightarrow> elapsed \<le> drainTimeout plan"
| "phaseOpen PatchJobPhaseDraining plan elapsed \<longleftrightarrow> elapsed \<le> drainTimeout plan"
| "phaseOpen PatchJobPhaseRebooting plan elapsed \<longleftrightarrow> elapsed < rebootTimeoutOf plan"
| "phaseOpen PatchJobPhaseValidatingKubernetes plan elapsed \<longleftrightarrow> elapsed < kubernetesTimeoutOf plan"
| "phaseOpen _ plan elapsed \<longleftrightarrow> False"

definition movedOn :: "patchJob \<Rightarrow> event list \<Rightarrow> bool" where
  "movedOn j es \<longleftrightarrow> (\<exists>b m j'. EvPatchJobStatus b m (Inr j') \<in> set es \<and> jobPhase m \<noteq> jobPhase j)"

text \<open>A start that the job does not have yet is read from the clock and stored in the same reconcile.\<close>

definition startedAt :: "patchJob \<Rightarrow> time \<Rightarrow> event list \<Rightarrow> bool" where
  "startedAt j start es \<longleftrightarrow>
     (case phaseStart (jobPhase j) (job_Status j) of
        Some t \<Rightarrow> start = t
      | None \<Rightarrow> EvNow start \<in> set es \<and>
          (\<exists>b m j'. EvPatchJobStatus b m (Inr j') \<in> set es \<and> phaseStart (jobPhase j) (job_Status m) = Some start))"

definition inTime :: "patchJob \<Rightarrow> event list \<Rightarrow> bool" where
  "inTime j es \<longleftrightarrow>
     (\<exists>plan start now. EvGetPlan (PatchPlanRef (job_Spec j)) (Inr plan) \<in> set es \<and> EvNow now \<in> set es \<and>
        startedAt j start es \<and> phaseOpen (jobPhase j) plan (now - start))"

definition progresses :: "patchJob \<Rightarrow> ctrlResult \<Rightarrow> event list \<Rightarrow> bool" where
  "progresses j res es \<longleftrightarrow> snd res \<noteq> None \<or> movedOn j es \<or> inTime j es"

lemma startedAt_mono: "startedAt j start es \<Longrightarrow> set es \<subseteq> set es' \<Longrightarrow> startedAt j start es'"
  unfolding startedAt_def by (cases "phaseStart (jobPhase j) (job_Status j)") auto

lemma inTime_mono: "inTime j es \<Longrightarrow> set es \<subseteq> set es' \<Longrightarrow> inTime j es'"
  unfolding inTime_def using startedAt_mono by blast

lemma progresses_append: "progresses j res es \<Longrightarrow> progresses j res (es @ es')"
  using inTime_mono [of j es "es @ es'"] by (auto simp: progresses_def movedOn_def)

lemma progresses_error [simp]: "progresses j (d, Some err) es"
  by (simp add: progresses_def)

lemma progresses_moved:
  "EvPatchJobStatus b m (Inr j') \<in> set es \<Longrightarrow> jobPhase m \<noteq> jobPhase j \<Longrightarrow> progresses j res es"
  by (auto simp: progresses_def movedOn_def)

section \<open>Handlers that move on\<close>

lemma progresses_storeStatus:
  "jobPhase modified \<noteq> jobPhase j \<Longrightarrow> always (progresses j) (storeStatus E original modified d)"
  unfolding storeStatus_def always_def
  by (intro allI runs_bind runs_patchStatus runs_rules) (auto intro: progresses_moved)

lemma progresses_failJob:
  "jobPhase j \<noteq> PatchJobPhaseFailed \<Longrightarrow> always (progresses j) (failJob E original modified msg err)"
  unfolding failJob_def by (intro always_rules progresses_storeStatus emits_rules) simp_all

lemma progresses_retryOrFail:
  "jobPhase j \<noteq> PatchJobPhaseFailed \<Longrightarrow> always (progresses j) (retryOrFail E original modified msg err)"
  unfolding retryOrFail_def by (intro always_rules progresses_failJob emits_rules) simp_all

lemma progresses_withTalos:
  assumes "jobPhase j \<noteq> PatchJobPhaseFailed" and "\<And>n a. always (progresses j) (fn n a)"
  shows "always (progresses j) (withTalos E original job fn)"
  using assms by (intro always_withTalos progresses_retryOrFail progresses_failJob progresses_append)

lemmas progress_rules = always_rules progresses_withTalos progresses_storeStatus progresses_failJob
  progresses_retryOrFail emits_rules

lemma runs_retryStatus:
  assumes "\<And>err es. Q (Inl err) (h @ es)"
    and "\<And>b m j es. jobPhase m = jobPhase modified \<Longrightarrow> Q (Inr j) (h @ es @ [EvPatchJobStatus b m (Inr j)])"
  shows "runs h (retryStatus E n original modified) Q"
  using assms
proof (induction n arbitrary: h)
  case 0
  have "Q r (h @ es @ [EvPatchJobStatus b m r])" if "jobPhase m = jobPhase modified" for b m r es
    using 0 that by (cases r) simp_all
  then show ?case by (auto intro: runs_patchStatus)
next
  case (Suc n)
  show ?case
    unfolding retryStatus.simps
  proof (intro runs_bind runs_patchStatus runs_sum runs_return)
    fix b m es e and r :: "goerr + patchJob"
    assume m: "jobPhase m = jobPhase modified" and r: "r = Inl e"
    show "runs (h @ es @ [EvPatchJobStatus b m r]) (retryStatus E n original modified) Q"
    proof (rule Suc.IH)
      show "Q (Inl err) ((h @ es @ [EvPatchJobStatus b m r]) @ es')" for err es'
        using Suc.prems(1) [of err "es @ [EvPatchJobStatus b m r] @ es'"] by simp
      show "Q (Inr j) ((h @ es @ [EvPatchJobStatus b m r]) @ es' @ [EvPatchJobStatus b' m' (Inr j)])"
        if "jobPhase m' = jobPhase modified" for b' m' j es'
        using Suc.prems(2) [OF that, of j "es @ [EvPatchJobStatus b m r] @ es'" b'] by simp
    qed
  qed (use Suc.prems in auto)
qed

lemma progresses_initJob:
  "jobPhase j = PatchJobPhaseNone \<Longrightarrow> always (progresses j) (initJob E original)"
  unfolding initJob_def decideInit_def finishInit_def Let_def
  by (intro progress_rules) simp_all

lemma progresses_startUpgrade:
  assumes p: "jobPhase j = PatchJobPhaseUpgrading"
  shows "always (progresses j) (startUpgrade E original)"
proof -
  have stored: "always (progresses j) (do {
      r \<leftarrow> retryStatus E n original (setStatus original
             (\<lambda>s. s\<lparr>js_Phase := PatchJobPhaseRebooting, js_Message := msg, RebootStartTime := t, PreUpgradeBootID := b\<rparr>));
      (case r of Inl err \<Rightarrow> return (0, Some err) | Inr _ \<Rightarrow> return (d, None)) })" for n msg t b d
    unfolding always_def
    by (intro allI runs_bind runs_retryStatus runs_rules) (auto intro: progresses_moved simp: p)
  show ?thesis
    unfolding startUpgrade_def Let_def
    by (intro progress_rules stored) (simp_all add: p)
qed

lemma progresses_startKubernetesUpgrade:
  "jobPhase j = PatchJobPhaseUpgradingKubernetes \<Longrightarrow> always (progresses j) (startKubernetesUpgrade E original)"
  unfolding startKubernetesUpgrade_def Let_def by (intro progress_rules) simp_all

section \<open>Handlers that wait\<close>

lemma runs_getPatchPlan:
  assumes "\<And>err es. Q (Inl err) (h @ es)"
    and "\<And>plan. Q (Inr plan) (h @ [EvGetPlan (PatchPlanRef (job_Spec j)) (Inr plan)])"
  shows "runs h (getPatchPlan E j) Q"
  unfolding getPatchPlan_def
  using assms assms(1) [of _ "[]"] by (intro runs_rules) auto

text \<open>With the plan and the start of the time known, a clock reading that is not late is enough to wait.\<close>

lemma progresses_inTime:
  assumes "EvGetPlan (PatchPlanRef (job_Spec j)) (Inr plan) \<in> set es" and "EvNow now \<in> set es"
    and "startedAt j start es" and "phaseOpen (jobPhase j) plan (now - start)"
  shows "progresses j res es"
  using assms unfolding progresses_def inTime_def by blast

lemma startedAt_known: "phaseStart (jobPhase j) (job_Status j) = Some start \<Longrightarrow> startedAt j start es"
  by (simp add: startedAt_def)

lemma startedAt_recorded:
  assumes "case phaseStart (jobPhase j) (job_Status j) of Some t \<Rightarrow> start = t | None \<Rightarrow> EvNow start \<in> set es"
    and "EvPatchJobStatus b m (Inr j') \<in> set es" and "phaseStart (jobPhase j) (job_Status m) = Some start"
  shows "startedAt j start es"
  using assms unfolding startedAt_def by (auto split: option.splits)

lemmas progress_runs = progresses_failJob [THEN always_runs] progresses_retryOrFail [THEN always_runs]
  progresses_storeStatus [THEN always_runs]

lemma runs_bool: "(b \<Longrightarrow> runs h m Q) \<Longrightarrow> (\<not> b \<Longrightarrow> runs h n Q) \<Longrightarrow> runs h (case b of True \<Rightarrow> m | False \<Rightarrow> n) Q"
  by (cases b) simp_all

lemma progresses_waitForDrain:
  assumes p: "jobPhase j = PatchJobPhaseDraining" and start: "DrainStartTime (job_Status j) = Some start"
  shows "runs h (waitForDrain E j) (progresses j)"
proof -
  have wait: "progresses j res (h1 @ h2 @ [EvGetPlan (PatchPlanRef (job_Spec j)) (Inr plan), EvNow now])"
    if "\<not> drainTimeout plan < now - start" for h1 h2 plan now res
    using that by (intro progresses_inTime [where now = now and start = start and plan = plan] startedAt_known)
      (simp_all add: p start)
  show ?thesis
    unfolding waitForDrain_def Let_def start option.case
    by (rule runs_bind, rule runs_emits [where P = anyEvent], rule emits_IsDrained, simp,
        intro runs_sum runs_bool runs_bind progress_runs runs_getPatchPlan runs_perform runs_if runs_return)
       (simp_all add: p wait)
qed

lemma runs_storeStatus_running:
  assumes "\<not> IsTerminal (jobPhase modified)" and "\<And>err es. Q (0, Some err) (h @ es)"
    and "\<And>j'. Q (d, None) (h @ [EvPatchJobStatus original modified (Inr j')])"
  shows "runs h (storeStatus E original modified d) Q"
  unfolding storeStatus_def patchStatus_def using assms by (intro runs_rules) auto

text \<open>
  What follows in \<open>startDrain\<close> once the plan is read and the start of the drain is known: the answer to a
  blocked drain, and the drain with its three outcomes.
\<close>

definition drainStart :: "patchJob \<Rightarrow> time \<Rightarrow> event list \<Rightarrow> bool" where
  "drainStart j start es \<longleftrightarrow>
     (case DrainStartTime (job_Status j) of Some t \<Rightarrow> start = t | None \<Rightarrow> EvNow start \<in> set es)"

lemma progresses_blocked:
  assumes p: "jobPhase j = PatchJobPhasePending"
    and plan: "EvGetPlan (PatchPlanRef (job_Spec j)) (Inr plan) \<in> set h" and start: "drainStart j start h"
    and job: "job = setStatus j (\<lambda>s. s\<lparr>DrainStartTime := Some start\<rparr>)"
  shows "runs h (do {
        now \<leftarrow> timeNow E;
        (if now - start > drainTimeout plan then failJob E j job m1 e1
         else storeStatus E j (setStatus job (\<lambda>s. s\<lparr>js_Message := m2\<rparr>)) requeueForDrainCheck) }) (progresses j)"
proof (intro runs_bind runs_perform runs_if progresses_failJob [THEN always_runs] runs_storeStatus_running)
  fix now j'
  assume "\<not> drainTimeout plan < now - start"
  then show "progresses j (requeueForDrainCheck, None) ((h @ [EvNow now]) @
      [EvPatchJobStatus j (setStatus job (\<lambda>s. s\<lparr>js_Message := m2\<rparr>)) (Inr j')])"
    using plan start
    by (intro progresses_inTime [where now = now and start = start and plan = plan]
          startedAt_recorded [where b = j and j' = j' and m = "setStatus job (\<lambda>s. s\<lparr>js_Message := m2\<rparr>)"])
       (auto simp: p setStatus_def job drainStart_def split: option.splits)
qed (simp_all add: p job setStatus_def)

lemma progresses_drain:
  assumes p: "jobPhase j = PatchJobPhasePending"
    and "EvGetPlan (PatchPlanRef (job_Spec j)) (Inr plan) \<in> set h" and "drainStart j start h"
    and "job = setStatus j (\<lambda>s. s\<lparr>DrainStartTime := Some start\<rparr>)" and timeout: "opt_Timeout opts = drainTimeout plan"
  shows "runs h (do {
        d \<leftarrow> DrainNode E (jobNode j) opts;
        (case d of
           Inl err \<Rightarrow> if errIs err ErrUnmanagedPods then failJob E j job m3 err else retryOrFail E j job m4 err
         | Inr True \<Rightarrow> do {
             now \<leftarrow> timeNow E;
             (if now - start > opt_Timeout opts then failJob E j job m1 e1
              else storeStatus E j (setStatus job (\<lambda>s. s\<lparr>js_Message := m2\<rparr>)) requeueForDrainCheck) }
         | Inr False \<Rightarrow> storeStatus E j (setStatus job (\<lambda>s. s\<lparr>js_Phase := PatchJobPhaseDraining, js_Message := m5\<rparr>))
             requeueForDrainCheck) }) (progresses j)"
  unfolding timeout
proof (rule runs_bind, rule runs_emits [where P = anyEvent], intro emits_rules, simp_all, intro runs_sum runs_bool)
  fix es
  show "runs (h @ es) (do {
      now \<leftarrow> timeNow E;
      (if now - start > drainTimeout plan then failJob E j job m1 e1
       else storeStatus E j (setStatus job (\<lambda>s. s\<lparr>js_Message := m2\<rparr>)) requeueForDrainCheck) }) (progresses j)"
    using assms by (intro progresses_blocked) (auto simp: drainStart_def split: option.splits)
qed (auto intro!: progress_runs simp: p)

lemma progresses_startDrain:
  assumes p: "jobPhase j = PatchJobPhasePending"
  shows "runs h (startDrain E j) (progresses j)"
  unfolding startDrain_def Let_def
  apply (rule runs_bind, rule runs_getPatchPlan, unfold sum.case, rule progress_runs(2), simp add: p)
  apply (rule runs_bind, rule runs_emits [where P = anyEvent], rule emits_CordonNode_any, rule runs_option)
   apply (rule runs_bind, rule runs_option, rule runs_perform)
  subgoal for plan by (rule progresses_drain [where plan = plan]) (auto simp: p drainStart_def)
   apply (rule runs_return)
  subgoal for plan by (rule progresses_drain [where plan = plan]) (auto simp: p drainStart_def)
  subgoal by (rule progress_runs(2)) (simp add: p)
  done

text \<open>What a check late in its time can still answer: an error, a failure, or the next phase.\<close>

lemma emits_GetVersion_any: "emits anyEvent (GetVersion E a)"
  by (intro emits_rules) simp

lemma progresses_finishReboot:
  assumes "jobPhase j = PatchJobPhaseRebooting"
  shows "always (progresses j) (finishReboot E original job v)"
  unfolding finishReboot_def Let_def using assms by (intro progress_rules) (auto simp: setStatus_def)

lemma progresses_checkReboot:
  assumes p: "jobPhase j = PatchJobPhaseRebooting" and start: "RebootStartTime (job_Status j) = Some start"
    and plan: "EvGetPlan (PatchPlanRef (job_Spec j)) (Inr plan) \<in> set h"
  shows "runs h (checkReboot E j start plan n a) (progresses j)"
proof -
  have wait: "progresses j res (h @ EvNow now # es)" if "\<not> rebootTimeoutOf plan \<le> now - start" for now es res
    using that plan by (intro progresses_inTime [where now = now and start = start and plan = plan] startedAt_known)
      (simp_all add: p start)
  show ?thesis
    unfolding checkReboot_def Let_def
    by (rule runs_bind, rule runs_perform, rule runs_bind, rule runs_emits [OF emits_GetVersion_any],
        intro runs_sum runs_if progress_runs runs_return,
        (simp_all add: p wait)[6],
        rule runs_bind, rule runs_emits [where P = anyEvent], rule emits_nodeUnhealthy, simp,
        intro runs_sum runs_if progress_runs runs_return progresses_finishReboot [THEN always_runs])
       (simp_all add: p wait)
qed

lemma progresses_waitForReboot:
  assumes p: "jobPhase j = PatchJobPhaseRebooting" and start: "RebootStartTime (job_Status j) = Some start"
  shows "runs [] (waitForReboot E j) (progresses j)"
  unfolding waitForReboot_def start option.case
proof (rule runs_withTalos [where I = "\<lambda>_. True"])
  show "runs h (do { p \<leftarrow> getPatchPlan E j; (case p of
       Inl err \<Rightarrow> retryOrFail E j j ''failed to get PatchPlan'' err
     | Inr plan \<Rightarrow> checkReboot E j start plan n a) }) (progresses j)" for h n a
    by (rule runs_bind, rule runs_getPatchPlan, unfold sum.case)
       (auto intro: progress_runs(2) progresses_checkReboot simp: p start)
qed (auto intro: progress_runs progresses_append simp: p)

lemma progresses_finishKubernetes:
  "jobPhase j = PatchJobPhaseValidatingKubernetes \<Longrightarrow> always (progresses j) (finishKubernetes E original)"
  unfolding finishKubernetes_def by (intro progress_rules) simp_all

lemma progresses_checkKubernetes:
  assumes p: "jobPhase j = PatchJobPhaseValidatingKubernetes"
    and start: "KubernetesUpgradeStartTime (job_Status j) = Some start"
    and plan: "EvGetPlan (PatchPlanRef (job_Spec j)) (Inr plan) \<in> set h"
  shows "runs h (checkKubernetes E j start plan) (progresses j)"
proof -
  have wait: "progresses j res (h @ EvNow now # es)" if "\<not> kubernetesTimeoutOf plan \<le> now - start" for now es res
    using that plan by (intro progresses_inTime [where now = now and start = start and plan = plan] startedAt_known)
      (simp_all add: p start)
  show ?thesis
    unfolding checkKubernetes_def Let_def
    by (intro runs_rules runs_podsReady progresses_finishKubernetes [THEN always_runs] progress_runs)
       (auto simp: p wait intro!: runs_return progress_runs progresses_finishKubernetes [THEN always_runs])
qed

lemma progresses_waitForKubernetesUpgrade:
  assumes p: "jobPhase j = PatchJobPhaseValidatingKubernetes"
    and start: "KubernetesUpgradeStartTime (job_Status j) = Some start"
  shows "runs h (waitForKubernetesUpgrade E j) (progresses j)"
  unfolding waitForKubernetesUpgrade_def start option.case
  by (rule runs_bind, rule runs_getPatchPlan, unfold sum.case)
     (auto intro: progress_runs(2) progresses_checkKubernetes simp: p start)

section \<open>Every phase\<close>

lemma progresses_reconcilePhase:
  assumes "timed (job_Status j)" and "\<not> IsTerminal (jobPhase j)"
  shows "runs [] (reconcilePhase E j) (progresses j)"
proof (cases "jobPhase j")
  case PatchJobPhaseDraining
  then show ?thesis using assms by (auto simp: reconcilePhase_def timed_def intro: progresses_waitForDrain)
next
  case PatchJobPhaseRebooting
  then show ?thesis using assms by (auto simp: reconcilePhase_def timed_def intro: progresses_waitForReboot)
next
  case PatchJobPhaseValidatingKubernetes
  then show ?thesis using assms by (auto simp: reconcilePhase_def timed_def intro: progresses_waitForKubernetesUpgrade)
qed (use assms in \<open>auto simp: reconcilePhase_def intro: progresses_startDrain
       progresses_initJob [THEN always_runs] progresses_startUpgrade [THEN always_runs]
       progresses_startKubernetesUpgrade [THEN always_runs]\<close>)

lemma ReconcileJob_progresses:
  "runs [] (ReconcileJob E name) (\<lambda>res es. case es of
      EvGetJob _ (Inr j) # rest \<Rightarrow>
        timed (job_Status j) \<longrightarrow> \<not> IsTerminal (jobPhase j) \<longrightarrow> progresses j res rest
    | _ \<Rightarrow> True)"
proof (rule runs_ReconcileJob)
  fix j
  assume j: "\<not> IsTerminal (jobPhase j)"
  show "runs [EvGetJob name (Inr j)] (reconcilePhase E j) (\<lambda>res es. case es of
      EvGetJob _ (Inr j) # rest \<Rightarrow>
        timed (job_Status j) \<longrightarrow> \<not> IsTerminal (jobPhase j) \<longrightarrow> progresses j res rest
    | _ \<Rightarrow> True)"
  proof (cases "timed (job_Status j)")
    case True
    from progresses_reconcilePhase [OF this j] show ?thesis by (rule runs_frame) simp
  next
    case False
    from emits_reconcilePhase show ?thesis by (rule runs_emits) (simp add: False)
  qed
qed simp_all


end
