(* ===== verification/LifeProperties.thy ===== *)
theory LifeProperties imports RolloutMachine JobUpgrades JobDeadlines JobProperties begin

text \<open>
  Properties of whole lives: of a plan from its first reconcile on, and of a job from its creation to
  its end, over any number of reconciles and any behaviour of the outside between and during them.
\<close>

section \<open>Concrete inputs\<close>

text \<open>A plan that has passed preflight, its rollout of one control plane node and one worker, and its first job.\<close>

definition readyPlan :: patchPlan where
  "readyPlan = fixPlan\<lparr>plan_Status := fixStatus\<lparr>ps_Phase := PatchPhasePending, ps_Conditions :=
     [\<lparr>cond_Type = ConditionPreflightPassed, cond_Status = True, cond_Reason = '''', cond_Message = '''',
       cond_ObservedGeneration = 1\<rparr>]\<rparr>\<rparr>"

definition smallRollout :: rollout where
  "smallRollout = \<lparr>rollout_Groups =
     [\<lparr>grp_Name = GroupControlPlane, grp_Concurrency = 1, grp_Nodes = [fixNode ''c1'' True]\<rparr>,
      \<lparr>grp_Name = GroupWorkers, grp_Concurrency = 1, grp_Nodes = [fixNode ''w1'' False]\<rparr>],
     Selected = 2, Unassigned = []\<rparr>"

definition firstJob :: patchJob where
  "firstJob = (newPatchJob fixPlan (fixNode ''c1'' True) GroupControlPlane)\<lparr>job_Owner := Some ''plan''\<rparr>"

lemmas fix_ops = fixEnv_def fixLib_def klib.defs silent_def accepted_def missing_def fixWorld_def
lemmas fix_objects = readyPlan_def fixPlan_def fixStatus_def fixSpec_def fixTarget_def smallRollout_def firstJob_def
lemmas io_defs = orReturn_def ifOk_def ok_def updateStatus_def withStatus_def Let_def

text \<open>What a reconcile of a small plan unfolds to.\<close>

lemmas plan_evaluation = reconcileRollout_def listPatchJobs_def indexJobs_def syncLeases_def indexByName_def
  summarizePlan_def summarize_def summarizeGroup_def countNode_def Total_def addCounts_def
  advancePlan_def ensureCancelledState_def ensurePauseState_def ensurePreflight_def preflightDone_def ensureKubeProxy_def
  failureBudgetExceeded_def Exceeded_def newFailures_def allNodesProcessed_def scheduleInWindow_def IsInMaintenanceWindow_def
  scheduleNodes_def groupFinished_def scheduleGroup_def pendingNodes_def delayRemaining_def markInProgress_def
  isZero_def zeroTime_def IsControlPlane_def waitForControlPlane_def createPatchJob_def newPatchJob_def acquireLease_def
  leaseOf_def fixNode_def fix_ops fix_objects io_defs

lemma smallRollout: "Resolve fixEnv [fixNode ''c1'' True, fixNode ''w1'' False] fixSpec = Inr smallRollout"
  by code_simp

lemma fix_ownerOnly: "ownerOnly fixEnv"
  by (auto simp: ownerOnly_def fix_ops)

lemma firstJob_created:
  "(case calls (snd (run_state (reconcileRollout fixEnv readyPlan smallRollout) fixWorld)) of
      EvListJobs a (Inr js) # es \<Rightarrow> a = ''plan'' \<and> js = [] \<and> createdJobs es = [firstJob] | _ \<Rightarrow> False)"
  by (simp add: plan_evaluation)

lemma firstJob_stored: "storeStep fixEnv smallRollout [] [firstJob]"
proof -
  obtain es where "calls (snd (run_state (reconcileRollout fixEnv readyPlan smallRollout) fixWorld)) =
      EvListJobs ''plan'' (Inr []) # es" and "createdJobs es = [firstJob]"
    using firstJob_created by (auto split: list.splits event.splits sum.splits)
  then have "storeStep fixEnv smallRollout [] ([] @ [firstJob])"
    by (intro storeStep.reconciled [where plan = readyPlan and w = fixWorld and listed = "[]" and es = es])
       (simp_all add: fixWorld_def readyPlan_def fixPlan_def)
  then show ?thesis by simp
qed

section \<open>The life of a plan\<close>



text \<open>What order means for the cluster: the limits of the groups, and the quorum if preflight accepts the rollout.\<close>

definition keepsQuorum :: "rollout \<Rightarrow> rolloutState \<Rightarrow> bool" where
  "keepsQuorum r s \<longleftrightarrow>
     list_all (\<lambda>g. int (length (inProgressIn s g)) \<le> grp_Concurrency g) (rollout_Groups r) \<and>
     (case CheckControlPlaneQuorum r of Some _ \<Rightarrow> True | None \<Rightarrow>
       (let down = controlPlaneCount (filter (\<lambda>n. s (node_Name n) = InProgress) (Nodes r)); n = controlPlaneCount (Nodes r)
        in down \<le> 1 \<or> n < 2 * (n - down)))"

lemma orderly_keepsQuorum:
  assumes "Resolve E nodes spec = Inr r" and o: "orderly r s"
  shows "keepsQuorum r s"
proof -
  have d: "distinct (map node_Name (Nodes r))" by (rule sched.resolve_distinct [OF assms(1)])
  have "1 \<le> grp_Concurrency g" if "g \<in> set (rollout_Groups r)" for g
    using that Resolve_groups(1,2) [OF assms(1)] by (metis in_set_conv_nth length_map)
  then show ?thesis
    using o orderly_quorum [OF d o] unfolding keepsQuorum_def
    by (fastforce simp: orderly_def list_all_iff Let_def split: option.split)
qed



section \<open>The life of a job\<close>

text \<open>
  An outside in which the job can be read in each of its first phases (the state tells which) on a node
  that runs an older version and has no pods.
\<close>

definition liveEnv :: "(fixVersion, fixState) env" where
  "liveEnv = fixEnv\<lparr>
     op_getJob := (\<lambda>_ s. silent (fixJob (if s ''pending'' \<noteq> None then PatchJobPhasePending
        else if s ''draining'' \<noteq> None then PatchJobPhaseDraining
        else if s ''upgrading'' \<noteq> None then PatchJobPhaseUpgrading else PatchJobPhaseNone)) s),
     op_getPlan := (\<lambda>_. silent fixPlan),
     op_getSecret := (\<lambda>_ _. silent [(''ca.crt'', ''Y2E=''), (''tls.crt'', ''Y3J0''), (''tls.key'', ''a2V5'')]),
     op_getNode := (\<lambda>name. silent (fixNode name True)),
     op_talosVersion := (\<lambda>_. silent [Some ''v1.12.0''])\<rparr>"

lemma lifeStepI:
  assumes "case calls (snd (run_state (ReconcileJob E name) w)) of
      EvGetJob n (Inr j) # es \<Rightarrow> n = name \<and> jobPhase j = p \<and> list_ex (storesPhase q) es
    | _ \<Rightarrow> False" and "calls w = []"
  shows "lifeStep E p q"
proof -
  obtain j es e where "calls (snd (run_state (ReconcileJob E name) w)) = calls w @ EvGetJob name (Inr j) # es"
    and "jobPhase j = p" and "e \<in> set es" "storesPhase q e"
    using assms by (auto simp: list_ex_iff split: list.splits event.splits sum.splits)
  then show ?thesis unfolding lifeStep_def using storesPhaseE [of q e] by blast
qed

definition liveWorld :: "string \<Rightarrow> fixState world" where
  "liveWorld phase = fixWorld\<lparr>server := [phase \<mapsto> fixNode ''c1'' True]\<rparr>"

lemma live_init: "lifeStep liveEnv PatchJobPhaseNone PatchJobPhasePending"
  by (rule lifeStepI [where w = fixWorld and name = "''plan-c1''"]) (code_simp+)

lemma live_drain: "lifeStep liveEnv PatchJobPhasePending PatchJobPhaseDraining"
  by (rule lifeStepI [where w = "liveWorld ''pending''" and name = "''plan-c1''"]) (code_simp+)

lemma live_drained: "lifeStep liveEnv PatchJobPhaseDraining PatchJobPhaseUpgrading"
  by (rule lifeStepI [where w = "liveWorld ''draining''" and name = "''plan-c1''"]) (code_simp+)



text \<open>
  C8: A node is upgraded once. Over the whole life of a job, from its creation through any number of
  reconciles that read the stored phase, each of which may be cut off after any of its calls, the machine
  API accepts at most one upgrade, and one more for every reconcile that had an upgrade accepted and was
  told of no status write (all its attempts to store the new phase were answered with an error, or it was cut off
  before). A job whose upgrades are all used up is past the phase that starts one.
\<close>

theorem upgrade_is_accepted_once:
  assumes "jobHistory E name p upgrades lost"
  shows "upgrades \<le> Suc lost \<and>
    (upgrades \<le> lost \<or> p \<in> {PatchJobPhaseRebooting, PatchJobPhaseUpgradingKubernetes,
       PatchJobPhaseValidatingKubernetes, PatchJobPhaseCompleted, PatchJobPhaseFailed})"
  using history_upgrades [OF assms] by (cases p) (auto simp: stage_def le_Suc_eq)

lemma jobHistoryI:
  assumes "jobHistory E name p n k" and "case calls (snd (run_state (ReconcileJob E name) w)) of
      EvGetJob nm (Inr j) # es \<Rightarrow> nm = name \<and> jobPhase j = p \<and> landed p es = [q] \<and>
        acceptedUpgrades es = m \<and> list_ex acknowledged es
    | _ \<Rightarrow> False" and "calls w = []"
  shows "jobHistory E name q (n + m) k"
proof -
  obtain j es where es: "calls (snd (run_state (ReconcileJob E name) w)) = calls w @ EvGetJob name (Inr j) # es @ []"
      "jobPhase j = p" "landed p es = [q]" "acceptedUpgrades es = m" "\<not> unrecorded es"
    using assms(2,3) by (auto simp: unrecorded_def split: list.splits event.splits sum.splits)
  then show ?thesis using jobHistory.round [OF assms(1) es(1,2), of q] by simp
qed

lemma live_history: "jobHistory liveEnv ''plan-c1'' PatchJobPhaseRebooting 1 0"
proof -
  have "jobHistory liveEnv ''plan-c1'' PatchJobPhasePending (0 + 0) 0"
    by (rule jobHistoryI [OF jobHistory.created, where w = fixWorld]) (code_simp+)
  then have "jobHistory liveEnv ''plan-c1'' PatchJobPhaseDraining (0 + 0 + 0) 0"
    by (rule jobHistoryI [where w = "liveWorld ''pending''"]) (code_simp+)
  then have "jobHistory liveEnv ''plan-c1'' PatchJobPhaseUpgrading (0 + 0 + 0 + 0) 0"
    by (rule jobHistoryI [where w = "liveWorld ''draining''"]) (code_simp+)
  then have "jobHistory liveEnv ''plan-c1'' PatchJobPhaseRebooting (0 + 0 + 0 + 0 + 1) 0"
    by (rule jobHistoryI [where w = "liveWorld ''upgrading''"]) (code_simp+)
  then show ?thesis by simp
qed

theorem upgrade_is_accepted_once_witness:
  "jobHistory liveEnv ''plan-c1'' PatchJobPhaseRebooting 1 0 \<and> (1 :: nat) \<le> Suc 0 \<and>
   ((1 :: nat) \<le> 0 \<or> PatchJobPhaseRebooting \<in> {PatchJobPhaseRebooting, PatchJobPhaseUpgradingKubernetes,
      PatchJobPhaseValidatingKubernetes, PatchJobPhaseCompleted, PatchJobPhaseFailed})"
  by (rule conjI [OF live_history upgrade_is_accepted_once [OF live_history]])

text \<open>
  C25: Statuses keep their type. The status of a new job conforms, and every status a reconcile writes
  on top of a conforming one conforms: a started job has a start time, a job that is drained, upgraded or
  rebooted the start of the drain, one that waits for a reboot or for the Kubernetes rollout the start of
  that wait, and a finished job a completion time. Every timeout has its clock.
\<close>

theorem stored_statuses_conform:
  "conforms (job_Status (newPatchJob plan n grp)) \<and>
   runs [] (ReconcileJob E name) (\<lambda>_ es. case es of
       EvGetJob _ (Inr j) # rest \<Rightarrow> list_all (\<lambda>e. case e of
           EvPatchJobStatus b m _ \<Rightarrow>
             (if conforms (job_Status b) \<and> jobPhase b = jobPhase j then conforms (job_Status m) else True)
         | _ \<Rightarrow> True) rest
     | _ \<Rightarrow> True)"
proof
  show "conforms (job_Status (newPatchJob plan n grp))"
    by (simp add: conforms_def timed_def newPatchJob_def emptyJobStatus_def)
  have "typedWrite p e \<Longrightarrow> (case e of EvPatchJobStatus b m _ \<Rightarrow>
      (if conforms (job_Status b) \<and> jobPhase b = p then conforms (job_Status m) else True) | _ \<Rightarrow> True)" for p e
    by (cases e) (simp_all add: typedIn_def)
  note typed = list.pred_mono_strong [OF _ this]
  show "runs [] (ReconcileJob E name) (\<lambda>_ es. case es of
       EvGetJob _ (Inr j) # rest \<Rightarrow> list_all (\<lambda>e. case e of
           EvPatchJobStatus b m _ \<Rightarrow>
             (if conforms (job_Status b) \<and> jobPhase b = jobPhase j then conforms (job_Status m) else True)
         | _ \<Rightarrow> True) rest
     | _ \<Rightarrow> True)"
    by (rule runs_mono [OF typed_ReconcileJob]) (auto split: list.splits event.splits sum.splits elim!: typed)
qed

section \<open>Deadlines\<close>


definition rebootingJob :: patchJob where
  "rebootingJob = setStatus (fixJob PatchJobPhaseRebooting)
     (\<lambda>s. s\<lparr>js_StartTime := Some 0, DrainStartTime := Some 0, RebootStartTime := Some 0\<rparr>)"

lemma rebootingJob:
  "conforms (job_Status rebootingJob)" "jobPhase rebootingJob = PatchJobPhaseRebooting"
  "PatchPlanRef (job_Spec rebootingJob) = ''plan''" "startedAt rebootingJob start es \<longleftrightarrow> start = 0"
  by (simp_all add: rebootingJob_def setStatus_def fixJob_def conforms_def timed_def IsTerminal_def startedAt_def)



end
