(* ===== verification/PlanOutcomes.thy ===== *)
theory PlanOutcomes imports PreflightFacts begin

text \<open>
  The remaining outcomes of the plan controller: the purge of old history, the kube-proxy rollout, the
  child plans of an auto-update template, and when a plan is looked at again.
\<close>

section \<open>History\<close>

text \<open>The deletions of jobs among the calls, and those that went through.\<close>

fun deletedJobs :: "event list \<Rightarrow> patchJob list" where
  "deletedJobs [] = []"
| "deletedJobs (e # es) = (case e of EvDeleteJob j _ \<Rightarrow> j # deletedJobs es | _ \<Rightarrow> deletedJobs es)"

definition deletionAccepted :: "event list \<Rightarrow> patchJob \<Rightarrow> bool" where
  "deletionAccepted es j \<longleftrightarrow> (\<exists>x. EvDeleteJob j x \<in> set es \<and> goneOk x)"

lemma deletedJobs_append: "deletedJobs (es @ es') = deletedJobs es @ deletedJobs es'"
  by (induction es) (auto split: event.split)

lemma deletionAccepted_mono: "deletionAccepted es j \<Longrightarrow> set es \<subseteq> set es' \<Longrightarrow> deletionAccepted es' j"
  unfolding deletionAccepted_def by blast

lemma deleteJobs_outcome:
  "runs [] (deleteJobs E jobs) (\<lambda>res es. set (deletedJobs es) \<subseteq> set jobs \<and>
     (res = None \<longrightarrow> list_all (deletionAccepted es) jobs))"
proof (induction jobs)
  case Nil
  show ?case by (auto intro!: runs_return)
next
  case (Cons j js)
  have rest: "runs ([] @ [EvDeleteJob j x]) (deleteJobs E js) (\<lambda>res es. set (deletedJobs es) \<subseteq> set (j # js) \<and>
     (res = None \<longrightarrow> list_all (deletionAccepted es) (j # js)))" if "goneOk x" for x
    by (rule runs_frame [OF Cons.IH]) (use that in \<open>auto simp: list_all_iff deletionAccepted_def\<close>)
  show ?case
  proof (simp only: deleteJobs.simps, rule runs_bind, rule runs_perform, rule runs_option, goal_cases)
    case (1 x)
    then show ?case by (simp only:) (rule rest, simp add: goneOk_def)
  next
    case (2 x err)
    show ?case
    proof (rule runs_if, goal_cases)
      case 1
      then show ?case using 2 by (intro rest) (simp add: goneOk_def)
    qed (auto intro!: runs_return)
  qed
qed

text \<open>A purge of the jobs listed: what it rests on, what it deletes and when it succeeds.\<close>

definition purging :: "patchPlan \<Rightarrow> patchJob list \<Rightarrow> event list \<Rightarrow> bool" where
  "purging plan jobs es \<longleftrightarrow>
     (\<exists>completed now rest. ps_CompletionTime (plan_Status plan) = Some completed \<and>
        planPhase plan \<in> {PatchPhaseCompleted, PatchPhaseFailed, PatchPhaseCancelled} \<and>
        \<not> HistoryPurged (plan_Status plan) \<and>
        es = EvNow now # EvListJobs (plan_Name plan) (Inr jobs) # rest \<and>
        HistoryRetention plan \<le> now - completed \<and> list_all (\<lambda>j. IsTerminal (jobPhase j)) jobs \<and>
        set (deletedJobs es) \<subseteq> set jobs)"

definition purgeRecorded :: "patchPlan \<Rightarrow> patchJob list \<Rightarrow> event list \<Rightarrow> bool" where
  "purgeRecorded plan jobs es \<longleftrightarrow> list_all (deletionAccepted es) jobs \<and>
     (\<exists>q. EvPatchPlanStatus plan (withStatus plan (\<lambda>s. s\<lparr>HistoryPurged := True\<rparr>)) (Inr q) \<in> set es)"

definition purgeOutcome :: "patchPlan \<Rightarrow> goerr + bool \<times> patchPlan \<Rightarrow> event list \<Rightarrow> bool" where
  "purgeOutcome plan res es \<longleftrightarrow>
     deletedJobs es = [] \<and> (case res of Inr (True, _) \<Rightarrow> es = [] | _ \<Rightarrow> True) \<or>
     (\<exists>jobs. purging plan jobs es \<and>
        (case res of Inl _ \<Rightarrow> True | Inr (purged, _) \<Rightarrow> purged \<and> purgeRecorded plan jobs es))"

lemma applyRetention_outcome: "runs [] (applyRetention E plan) (purgeOutcome plan)"
proof (cases "ps_CompletionTime (plan_Status plan)")
  case None
  then show ?thesis by (auto simp: applyRetention_def purgeOutcome_def intro!: runs_ok)
next
  case (Some completed)
  have purge: "runs [EvNow now, EvListJobs (plan_Name plan) (Inr jobs)]
      (State_Monad.bind (deleteJobs E jobs) (\<lambda>d. case d of Some err \<Rightarrow> return (Inl err)
         | None \<Rightarrow> ifOk (updateStatus E plan (\<lambda>s. s\<lparr>HistoryPurged := True\<rparr>)) (\<lambda>p. ok (True, p)))) (purgeOutcome plan)"
    if "isFinishedPhase (planPhase plan)" "\<not> HistoryPurged (plan_Status plan)" "HistoryRetention plan \<le> now - completed"
      "list_all (\<lambda>j. IsTerminal (jobPhase j)) jobs" for now jobs
  proof (rule runs_seq [OF deleteJobs_outcome], rule runs_option, goal_cases)
    case (1 d es)
    have accepted: "list_all (deletionAccepted ([EvNow now, EvListJobs (plan_Name plan) (Inr jobs)] @ es @ es2)) jobs" for es2
      using 1 deletionAccepted_mono [of es _ "[EvNow now, EvListJobs (plan_Name plan) (Inr jobs)] @ es @ es2"]
      by (auto simp: list_all_iff)
    have "purging plan jobs ([EvNow now, EvListJobs (plan_Name plan) (Inr jobs)] @ es @ [EvPatchPlanStatus b m x])" for b m x
      using 1 that Some by (auto simp: purging_def isFinishedPhase_def deletedJobs_append)
    moreover have "purgeRecorded plan jobs ([EvNow now, EvListJobs (plan_Name plan) (Inr jobs)] @ es @
        [EvPatchPlanStatus plan (withStatus plan (\<lambda>s. s\<lparr>HistoryPurged := True\<rparr>)) (Inr q)])" for q
      unfolding purgeRecorded_def by (rule conjI [OF accepted]) auto
    ultimately show ?case
      by (auto simp: purgeOutcome_def intro!: runs_rules exI [of _ jobs] split: sum.split)
  next
    case (2 d es err)
    then have "purging plan jobs ([EvNow now, EvListJobs (plan_Name plan) (Inr jobs)] @ es)"
      using that Some by (auto simp: purging_def isFinishedPhase_def deletedJobs_append)
    then show ?case by (auto simp: purgeOutcome_def intro!: runs_return)
  qed
  show ?thesis
    unfolding applyRetention_def listPatchJobs_def Some option.case
  proof (intro runs_if runs_ok, goal_cases)
    case 3
    show ?case
    proof (rule runs_bind, rule runs_perform, rule runs_if, goal_cases)
      case (2 now)
      show ?case
      proof (rule runs_ifOk, rule runs_perform, goal_cases)
        case (1 l)
        show ?case
          using purge [of now] 2 3
          by (cases l) (auto simp: purgeOutcome_def [of plan "Inl _"] purgeOutcome_def [of plan "Inr (False, _)"]
              list_ex_iff list_all_iff intro!: runs_ok)
      qed
    qed (auto simp: purgeOutcome_def intro!: runs_ok)
  qed (auto simp: purgeOutcome_def)
qed

lemma deletedJobs_rollout: "list_all (rolloutEvent E) es \<Longrightarrow> deletedJobs es = []"
  by (induction es) (auto simp: rolloutEvent_def split: event.split)

text \<open>Of a whole reconcile of a plan that is no template: once a job is deleted nothing else follows.\<close>

lemma reconcilePlan_purge:
  "runs [] (reconcilePlan E plan) (\<lambda>res es. deletedJobs es = [] \<or>
     (\<exists>jobs. purging plan jobs es \<and> fst res = 0 \<and> (snd res = None \<longrightarrow> purgeRecorded plan jobs es)))"
  unfolding reconcilePlan_def
proof (rule runs_thenReturn [OF applyRetention_outcome], goal_cases)
  case (1 e es)
  then show ?case by (auto simp: purgeOutcome_def)
next
  case (2 a es)
  obtain purged p where a: "a = (purged, p)" by fastforce
  show ?case
    unfolding a prod.case
  proof (rule runs_if, goal_cases)
    case 1
    then show ?case using 2 by (intro runs_return) (auto simp: purgeOutcome_def a)
  next
    case 2
    then have "deletedJobs es = []" using \<open>purgeOutcome plan (Inr a) es\<close> by (auto simp: purgeOutcome_def a)
    then show ?case by (intro runs_emits [OF emits_resolved]) (auto simp: deletedJobs_append dest: deletedJobs_rollout)
  qed
qed

lemma purged_is_frozen:
  assumes "ps_CompletionTime (plan_Status plan) \<noteq> None" and "isFinishedPhase (planPhase plan)"
    and "HistoryPurged (plan_Status plan)"
  shows "run_state (reconcilePlan E plan) w = ((0, None), w)"
  using assms by (auto simp: reconcilePlan_def applyRetention_def orReturn_def ok_def)

section \<open>Looking again\<close>

text \<open>
  When a reconcile may end without an error and without a time to look again: it stopped, and the version
  of the plan it ended with has no completion time, as after a pause by the failure policy.
\<close>

definition looksAgain :: "patchPlan \<Rightarrow> jobCounts \<Rightarrow> nat \<Rightarrow> ctrlResult \<Rightarrow> event list \<Rightarrow> bool" where
  "looksAgain plan c k res es \<longleftrightarrow> (case res of
      (_, Some _) \<Rightarrow> True
    | (delay, None) \<Rightarrow> 0 < delay \<or>
        (mayStop plan c k es \<and> (\<exists>p. version plan es p \<and> ps_CompletionTime (plan_Status p) = None)))"

definition retries :: "ctrlResult \<Rightarrow> bool" where
  "retries res \<longleftrightarrow> snd res \<noteq> None \<or> 0 < fst res"

lemma retries_simps [simp]: "retries (d, Some e)" "retries (d, None) \<longleftrightarrow> 0 < d"
  by (simp_all add: retries_def)

lemma retries_looksAgain: "retries res \<Longrightarrow> looksAgain plan c k res es"
  by (cases res) (auto simp: retries_def looksAgain_def split: option.split)

lemma waitForWindow_retries: "runs [] (waitForWindow E plan) (\<lambda>res _. retries res)"
  unfolding waitForWindow_def setMessage_def
  by (intro runs_rules) (auto simp: duration_units intro!: runs_rules split: sum.split)

lemma scheduleLoop_retries: "runs [] (scheduleLoop E plan r jobsByNode grp k ns) (\<lambda>res _. retries res)"
proof (induction ns arbitrary: plan k)
  case Nil
  show ?case by (auto simp: plan_requeue_defs intro!: runs_return)
next
  case (Cons n ns)
  have created: "runs es (orReturn (createPatchJob E p n grp) (\<lambda>p2. scheduleLoop E p2 r jobsByNode grp (Suc k) ns))
      (\<lambda>res _. retries res)" for es p
    by (rule runs_thenReturn [OF createPatchJob_outcome], simp) (rule runs_frame [OF Cons.IH], simp)
  show ?case
    by (simp only: scheduleLoop.simps, rule runs_thenReturn [OF waitForControlPlane_outcome], simp,
        rule runs_prod, rule runs_if)
       (auto simp: plan_requeue_defs intro!: runs_return created)
qed

lemma scheduleNodes_retries: "runs [] (scheduleNodes E plan r jobsByNode active) (\<lambda>res _. retries res)"
proof -
  have start: "runs es (orReturn (markInProgress E plan) (\<lambda>p. scheduleLoop E p r jobsByNode grp k ns))
      (\<lambda>res _. retries res)" for es grp k ns
    by (rule runs_thenReturn [OF markInProgress_outcome], simp) (rule runs_frame [OF scheduleLoop_retries], simp)
  show ?thesis
    unfolding scheduleNodes_def scheduleGroup_def Let_def
    by (intro runs_option runs_if runs_return runs_seq [OF delayRemaining_outcome] start) (simp_all add: plan_requeue_defs)
qed

lemma scheduleInWindow_retries: "runs [] (scheduleInWindow E plan r jobsByNode active) (\<lambda>res _. retries res)"
  unfolding scheduleInWindow_def
  by (rule runs_bind, rule runs_perform, rule runs_if)
     (rule runs_frame [OF waitForWindow_retries], simp, rule runs_frame [OF scheduleNodes_retries], simp)

lemma terminalResult_looksAgain:
  assumes "mayStop plan c k h" and "version plan h p"
  shows "runs h (terminalResult E p) (looksAgain plan c k)"
proof (cases "ps_CompletionTime (plan_Status p)")
  case None
  then show ?thesis using assms by (auto simp: terminalResult_def looksAgain_def intro!: runs_return)
next
  case (Some t)
  then show ?thesis
    by (auto simp: terminalResult_def Let_def plan_requeue_defs intro!: runs_rules retries_looksAgain)
qed

lemma advancePlan_looksAgain:
  "runs [] (advancePlan E plan r jobsByNode active c) (looksAgain plan c (Total r))"
proof (rule advancePlan_exits, goal_cases)
  case (4 p es)
  show ?case by (rule runs_frame [OF scheduleInWindow_retries]) (rule retries_looksAgain)
qed (simp_all add: retries_looksAgain terminalResult_looksAgain)

end
