(* ===== verification/UpdateOutcomes.thy ===== *)
theory UpdateOutcomes imports PlanOutcomes begin

text \<open>
  The outcomes of an auto-update template: the versions its nodes reported, the releases it fetched, the
  release it selects and the one child plan it creates.
\<close>

section \<open>The current version\<close>

definition versionsSeen :: "('v, 'm) klib_scheme \<Rightarrow> event list \<Rightarrow> node list \<Rightarrow> 'v list \<Rightarrow> bool" where
  "versionsSeen K es = list_all2 (\<lambda>n v. \<exists>p. probed es n p \<and> ParseVersion K (probe_version p) = Inr v)"

definition lower :: "('v, 'm) klib_scheme \<Rightarrow> 'v option \<Rightarrow> 'v \<Rightarrow> 'v option" where
  "lower K lowest v =
     (case lowest of None \<Rightarrow> Some v | Some low \<Rightarrow> if CompareVersion K v low < 0 then Some v else Some low)"

lemma versionsSeen_Nil [simp]: "versionsSeen K es [] []"
  by (simp add: versionsSeen_def)

lemma versionsSeen_Cons [simp]:
  "versionsSeen K es (n # ns) (v # vs) \<longleftrightarrow>
     (\<exists>p. probed es n p \<and> ParseVersion K (probe_version p) = Inr v) \<and> versionsSeen K es ns vs"
  by (simp add: versionsSeen_def)

lemma versionsSeen_mono:
  assumes "versionsSeen K es ns vs" and "set es \<subseteq> set es'"
  shows "versionsSeen K es' ns vs"
  using assms probed_mono unfolding versionsSeen_def by (elim list_all2_mono) blast

lemma lowestLoop_outcome:
  "runs [] (lowestLoop E lowest nodes) (\<lambda>res es. case res of Inl _ \<Rightarrow> True
     | Inr low \<Rightarrow> \<exists>vs. versionsSeen E es nodes vs \<and> low = foldl (lower E) lowest vs)"
proof (induction nodes arbitrary: lowest)
  case Nil
  show ?case by (auto intro!: runs_rules exI [of _ "[]"])
next
  case (Cons n ns)
  show ?case
  proof (simp only: lowestLoop.simps, rule runs_seq [OF probeNode_outcome], intro runs_sum, goal_cases)
    case (3 out es probe v)
    show ?case
    proof (rule runs_frame [OF Cons.IH])
      fix res es2
      assume "case res of Inl _ \<Rightarrow> True | Inr low \<Rightarrow> \<exists>vs. versionsSeen E es2 ns vs \<and> low = foldl (lower E)
        (case lowest of None \<Rightarrow> Some v | Some low \<Rightarrow> if CompareVersion E v low < 0 then Some v else Some low) vs"
      moreover have "\<exists>p. probed (([] @ es) @ es2) n p \<and> ParseVersion E (probe_version p) = Inr v"
        using 3 by (auto intro: probed_append)
      then have "versionsSeen E (([] @ es) @ es2) (n # ns) (v # vs)" if "versionsSeen E es2 ns vs" for vs
        using versionsSeen_mono [OF that, of "([] @ es) @ es2"] by simp
      ultimately show "case res of Inl _ \<Rightarrow> True | Inr low \<Rightarrow>
          \<exists>vs. versionsSeen E (([] @ es) @ es2) (n # ns) vs \<and> low = foldl (lower E) lowest vs"
        unfolding lower_def [symmetric] foldl_Cons [symmetric] by (cases res) (simp, simp only: sum.case, blast)
    qed
  qed (auto intro!: runs_return)
qed

text \<open>The lowest version of a list is in the list, and none is below it.\<close>

lemma lower_lowest:
  assumes "lawfulVersions K"
  shows "foldl (lower K) (Some low) vs = Some c \<Longrightarrow>
    c \<in> set (low # vs) \<and> list_all (\<lambda>v. \<not> verLess K v c) (low # vs)"
proof (induction vs arbitrary: low)
  case Nil
  then show ?case using lawful_asym [OF assms, of low low] by auto
next
  case (Cons v vs)
  then have "c \<in> set ((if verLess K v low then v else low) # vs)"
    and c: "list_all (\<lambda>v. \<not> verLess K v c) ((if verLess K v low then v else low) # vs)"
    using Cons.IH [of "if verLess K v low then v else low"]
    by (simp_all add: lower_def CompareVersion_def split: if_splits)
  then show ?case
    using lawful_asym [OF assms, of v low] lawful_trans [OF assms, of low v c] lawful_trans [OF assms, of v low c]
    by (auto split: if_splits)
qed

lemma lowest_of_all:
  assumes "lawfulVersions K" and "foldl (lower K) None vs = Some c"
  shows "c \<in> set vs \<and> list_all (\<lambda>v. \<not> verLess K v c) vs"
  using assms(2) lower_lowest [OF assms(1)] by (cases vs) (auto simp: lower_def)

lemma foldl_lower_Some: "foldl (lower K) (Some v) vs \<noteq> None"
  by (induction vs arbitrary: v) (auto simp: lower_def)

text \<open>The list of nodes is never empty, so there is a version.\<close>

lemma lowestLoop_Some:
  assumes "nodes \<noteq> []"
  shows "runs [] (lowestLoop E None nodes) (\<lambda>res _. res \<noteq> Inr None)"
proof (rule runs_mono [OF lowestLoop_outcome])
  fix res es
  assume "case res of Inl _ \<Rightarrow> True | Inr low \<Rightarrow> \<exists>vs. versionsSeen E es nodes vs \<and> low = foldl (lower E) None vs"
  then show "res \<noteq> Inr None"
    using assms foldl_lower_Some [of E, THEN not_sym]
    by (cases nodes) (auto simp: versionsSeen_def list_all2_Cons1 lower_def simp del: not_None_eq)
qed

lemma lowestTalosVersion_outcome:
  "runs [] (lowestTalosVersion E plan nodes) (\<lambda>res es. case res of Inl _ \<Rightarrow> True
     | Inr low \<Rightarrow> \<exists>vs. versionsSeen E es nodes vs \<and> low = foldl (lower E) None vs)"
  unfolding lowestTalosVersion_def
proof (rule runs_seq [OF runs_trivial [OF inspects_openTalos]], rule runs_option, goal_cases)
  case (1 o1 es)
  have close: "runs [] (Close E) (\<lambda>_ _. True)"
    by (rule runs_trivial [of "\<lambda>_. True"]) (auto intro!: emits_rules)
  show ?case
    by (rule runs_seq [OF lowestLoop_outcome], rule runs_seq [OF close], rule runs_return)
       (fastforce intro: versionsSeen_mono split: sum.splits)
qed (auto intro!: runs_return)

section \<open>The release\<close>

definition releasesFetched :: "('v, 'm) klib_scheme \<Rightarrow> event list \<Rightarrow> 'v release list \<Rightarrow> bool" where
  "releasesFetched K es releases \<longleftrightarrow>
     (\<exists>text raw. EvHttpGet DefaultURL (Inr (200, Inr text)) \<in> set es \<and> length text \<le> maxResponseBytes \<and>
        decodeReleases K text = Inr raw \<and> releases = keepReleases K raw)"

lemma ListReleases_outcome:
  "runs [] (ListReleases E) (\<lambda>res es. case res of Inl _ \<Rightarrow> True | Inr releases \<Rightarrow> releasesFetched E es releases)"
  unfolding ListReleases_def by (intro runs_rules) (auto simp: releasesFetched_def)

text \<open>What a check for a new release rests on.\<close>

definition checkedRelease ::
  "('v, 'm) klib_scheme \<Rightarrow> patchPlan \<Rightarrow> autoUpdateSpec \<Rightarrow> event list \<Rightarrow> 'v \<Rightarrow> 'v selection \<Rightarrow> bool" where
  "checkedRelease K plan spec es current sel \<longleftrightarrow>
     (\<exists>s nodes r vs releases now. EvListNodes s (Inr nodes) \<in> set es \<and> Resolve K nodes (plan_Spec plan) = Inr r \<and>
        versionsSeen K es (Nodes r) vs \<and> foldl (lower K) None vs = Some current \<and>
        releasesFetched K es releases \<and> EvNow now \<in> set es \<and>
        sel = Select K releases current (Allow spec) (MinReleaseAge spec) now)"

lemma checkedRelease_mono:
  assumes "checkedRelease K plan spec es current sel" and "set es \<subseteq> set es'"
  shows "checkedRelease K plan spec es' current sel"
proof -
  have "releasesFetched K es releases \<Longrightarrow> releasesFetched K es' releases" for releases
    using assms(2) unfolding releasesFetched_def by blast
  then show ?thesis
    using assms(1) subsetD [OF assms(2)] versionsSeen_mono [OF _ assms(2)] unfolding checkedRelease_def
    by (elim exE conjE, intro exI conjI) assumption+
qed

lemma checkForRelease_outcome:
  "runs [] (checkForRelease E plan spec) (\<lambda>res es. case res of Inl _ \<Rightarrow> True
     | Inr (current, sel) \<Rightarrow> checkedRelease E plan spec es current sel)"
  unfolding checkForRelease_def Let_def
proof (rule runs_ifOk, rule runs_ListMatchingNodes, simp, goal_cases)
  case (1 s x)
  show ?case
  proof (cases x)
    case (Inr nodes)
    show ?thesis
      unfolding Inr sum.case
    proof (rule runs_sum, rule runs_return, simp, rule runs_if, rule runs_return, simp, goal_cases)
      case (1 r)
      show ?case
      proof (rule runs_thenOk [OF lowestTalosVersion_outcome], simp, goal_cases)
        case L: (1 low es)
        show ?case
        proof (rule runs_option, rule runs_return, simp, rule runs_thenOk [OF ListReleases_outcome], simp, goal_cases)
          case (1 current releases es2)
          let ?h = "(([EvListNodes s (Inr nodes)]) @ es) @ es2"
          obtain vs where vs: "versionsSeen E es (Nodes r) vs" "foldl (lower E) None vs = Some current"
            using L 1 by auto
          have "versionsSeen E (?h @ [EvNow now]) (Nodes r) vs" for now
            by (rule versionsSeen_mono [OF vs(1)]) auto
          moreover have "releasesFetched E (?h @ [EvNow now]) releases" for now
            using 1 by (auto simp: releasesFetched_def)
          moreover have "EvListNodes s (Inr nodes) \<in> set (?h @ [EvNow now])" for now by simp
          ultimately have "checkedRelease E plan spec (?h @ [EvNow now]) current
              (Select E releases current (Allow spec) (MinReleaseAge spec) now)" for now
            using vs(2) \<open>Resolve E nodes (plan_Spec plan) = Inr r\<close> unfolding checkedRelease_def
            by (metis in_set_conv_decomp)
          then show ?case by (auto intro!: runs_bind runs_perform runs_ok)
        qed
      qed
    qed
  qed simp
qed

section \<open>Child plans\<close>

fun createdPlans :: "event list \<Rightarrow> patchPlan list" where
  "createdPlans [] = []"
| "createdPlans (e # es) = (case e of EvCreatePlan c _ \<Rightarrow> c # createdPlans es | _ \<Rightarrow> createdPlans es)"

lemma createdPlans_append [simp]: "createdPlans (es @ es') = createdPlans es @ createdPlans es'"
  by (induction es) (auto split: event.split)

lemma createdPlans_rollout: "list_all (rolloutEvent E) es \<Longrightarrow> createdPlans es = []"
  by (induction es) (auto simp: rolloutEvent_def split: event.split)

lemma runs_childless: "emits (rolloutEvent E) m \<Longrightarrow> runs [] m (\<lambda>_ es. createdPlans es = [])"
  by (erule runs_emits) (simp, erule createdPlans_rollout)

lemma childless_inspects: "emits (inspects E) m \<Longrightarrow> runs [] m (\<lambda>_ es. createdPlans es = [])"
  by (rule runs_childless [OF emits_inspects])

definition childOf ::
  "('v, 'm) klib_scheme \<Rightarrow> patchPlan \<Rightarrow> 'v selection \<Rightarrow> patchPlan \<Rightarrow> bool" where
  "childOf K plan sel child \<longleftrightarrow>
     (\<exists>target. sel_Target sel = Some target \<and>
        setOwnerOfPlan K plan (childPlan plan (VersionString K (rel_Version target))) = Inr child)"

lemma rollOut_outcome:
  "runs [] (rollOut E plan spec current sel) (\<lambda>_ es.
     createdPlans es = [] \<or> (\<exists>child. childOf E plan sel child \<and> createdPlans es = [child]))"
  unfolding rollOut_def createChildPlan_def Let_def
  by (intro runs_rules) (auto simp: childOf_def intro!: runs_rules split: sum.split option.split)

text \<open>At most one child plan was created, and if one was, on the grounds \<open>P\<close>.\<close>

definition oneChild :: "(event list \<Rightarrow> patchPlan \<Rightarrow> bool) \<Rightarrow> event list \<Rightarrow> bool" where
  "oneChild P es \<longleftrightarrow> createdPlans es = [] \<or> (\<exists>child. createdPlans es = [child] \<and> P es child)"

definition releaseGrounds ::
  "('v, 'm) klib_scheme \<Rightarrow> patchPlan \<Rightarrow> autoUpdateSpec \<Rightarrow> event list \<Rightarrow> patchPlan \<Rightarrow> bool" where
  "releaseGrounds K p spec es child \<longleftrightarrow> (\<exists>current sel. checkedRelease K p spec es current sel \<and> childOf K p sel child)"

definition checkDue :: "patchPlan \<Rightarrow> duration \<Rightarrow> event list \<Rightarrow> bool" where
  "checkDue p interval es \<longleftrightarrow>
     (case (case ps_AutoUpdate (plan_Status p) of None \<Rightarrow> None | Some a \<Rightarrow> LastCheckTime a) of
        None \<Rightarrow> True
      | Some lastCheck \<Rightarrow> \<exists>now. EvNow now \<in> set es \<and> interval \<le> now - lastCheck)"

definition childrenCompleted :: "patchPlan \<Rightarrow> event list \<Rightarrow> bool" where
  "childrenCompleted p es \<longleftrightarrow>
     (\<exists>children. EvListChildPlans (plan_Name p) (Inr children) \<in> set es \<and>
        list_all (\<lambda>c. planPhase c = PatchPhaseCompleted) children)"

lemma oneChild_none: "createdPlans es = [] \<Longrightarrow> oneChild P es"
  by (simp add: oneChild_def)

lemma oneChild_frame:
  assumes "oneChild P es" and "createdPlans h = []" and "\<And>child. P es child \<Longrightarrow> Q (h @ es) child"
  shows "oneChild Q (h @ es)"
  using assms by (auto simp: oneChild_def)

lemma oneChild_quiet:
  assumes "emits (rolloutEvent E) m" and "oneChild P h" and "\<And>es child. P h child \<Longrightarrow> P (h @ es) child"
  shows "runs h m (\<lambda>_. oneChild P)"
  using assms(2,3) by (intro runs_frame [OF runs_childless [OF assms(1)]]) (auto simp: oneChild_def)

lemma releaseGrounds_append: "releaseGrounds K p spec es child \<Longrightarrow> releaseGrounds K p spec (h @ es) child"
  unfolding releaseGrounds_def by (elim exE conjE, intro exI conjI, erule checkedRelease_mono) auto

lemma releaseGrounds_more: "releaseGrounds K p spec h child \<Longrightarrow> releaseGrounds K p spec (h @ es) child"
  unfolding releaseGrounds_def by (elim exE conjE, intro exI conjI, erule checkedRelease_mono) auto

lemma checkAndRollOut_outcome:
  "runs [] (checkAndRollOut E plan spec interval) (\<lambda>_. oneChild (releaseGrounds E plan spec))"
  unfolding checkAndRollOut_def
proof (rule runs_seq [OF runs_conj [OF checkForRelease_outcome childless_inspects [OF inspects_checkForRelease]]], goal_cases)
  case checked: (1 checked es)
  show ?case
  proof (rule runs_sum, goal_cases)
    case (1 err)
    have "emits (rolloutEvent E) (State_Monad.bind (updateTemplateStatus E plan PatchPhaseWatching msg f)
        (\<lambda>st. return (d, errOf st)))" for msg f d
      by (intro emits_rules emits_watch)
    then show ?case
      by (rule oneChild_quiet) (use checked in \<open>auto intro: oneChild_none releaseGrounds_more\<close>)
  next
    case (2 cr)
    obtain current sel where cr: "cr = (current, sel)" by fastforce
    have none: "createdPlans es = []" and chk: "checkedRelease E plan spec es current sel"
      using checked 2 cr by auto
    show ?case
      unfolding cr prod.case
    proof (rule runs_thenReturn [OF rollOut_outcome], goal_cases)
      case (1 e es2)
      then show ?case
        using none chk checkedRelease_mono [OF chk, of "([] @ es) @ es2"]
        by (auto simp: oneChild_def releaseGrounds_def)
    next
      case (2 mc es2)
      have one: "oneChild (releaseGrounds E plan spec) (([] @ es) @ es2)"
        using 2 none checkedRelease_mono [OF chk, of "([] @ es) @ es2"]
        by (auto simp: oneChild_def releaseGrounds_def)
      show ?case
        by (cases mc, simp only: prod.case, rule oneChild_quiet [OF _ one releaseGrounds_more])
           (auto intro!: emits_rules emits_watch)
    qed
  qed
qed

lemma checkWhenDue_outcome:
  "runs [] (checkWhenDue E plan spec interval)
     (\<lambda>_. oneChild (\<lambda>es child. checkDue plan interval es \<and> releaseGrounds E plan spec es child))"
proof (cases "case ps_AutoUpdate (plan_Status plan) of None \<Rightarrow> None | Some a \<Rightarrow> LastCheckTime a")
  case None
  show ?thesis
    unfolding checkWhenDue_def None option.case
    by (rule runs_mono [OF checkAndRollOut_outcome]) (auto simp: oneChild_def checkDue_def None)
next
  case (Some lastCheck)
  have quiet: "runs [EvNow now] (if hasPrefix s t then do {
        st \<leftarrow> updateTemplateStatus E plan PatchPhaseWatching msg f; return (d, errOf st) } else return (d, None))
      (\<lambda>_. oneChild P)" for now s t msg f d P
    by (rule runs_frame [OF runs_childless]) (auto intro!: emits_rules emits_watch oneChild_none)
  show ?thesis
    unfolding checkWhenDue_def Some option.case Let_def
  proof (rule runs_bind, rule runs_perform, rule runs_if, goal_cases)
    case (1 now)
    show ?case by (simp only: append_Nil) (rule quiet)
  next
    case (2 now)
    have due: "checkDue plan interval (([] @ [EvNow now]) @ es)" for es
      unfolding checkDue_def Some option.case using 2 by (intro exI [of _ now]) simp
    show ?case
      by (rule runs_frame [OF checkAndRollOut_outcome], erule oneChild_frame)
         (simp, intro conjI due releaseGrounds_append)
  qed
qed

text \<open>The grounds on which a template creates a child plan.\<close>

definition childGrounds ::
  "('v, 'm) klib_scheme \<Rightarrow> patchPlan \<Rightarrow> autoUpdateSpec \<Rightarrow> event list \<Rightarrow> patchPlan \<Rightarrow> bool" where
  "childGrounds K p spec es child \<longleftrightarrow> childrenCompleted p es \<and>
     checkDue p (max (CheckInterval spec) minAutoUpdateCheckInterval) es \<and> releaseGrounds K p spec es child"

lemma childGrounds_append: "childGrounds K p spec es child \<Longrightarrow> childGrounds K p spec (h @ es) child"
  by (auto simp: childGrounds_def childrenCompleted_def checkDue_def intro: releaseGrounds_append split: option.splits)

lemma watchReleases_outcome:
  "runs [] (watchReleases E plan spec (max (CheckInterval spec) minAutoUpdateCheckInterval))
     (\<lambda>_. oneChild (childGrounds E plan spec))"
  unfolding watchReleases_def
proof (rule runs_bind, rule runs_perform, rule runs_sum, goal_cases)
  case (1 l err)
  show ?case by (rule runs_return) (simp add: oneChild_none)
next
  case (2 l children)
  show ?case
  proof (rule runs_option, goal_cases)
    case 1
    then have all: "list_all (\<lambda>c. planPhase c = PatchPhaseCompleted) children"
      by (simp add: find_None_iff list_all_iff)
    show ?case
      by (rule runs_frame [OF checkWhenDue_outcome], erule oneChild_frame)
         (use 2 all releaseGrounds_append [of E plan spec _ _ "[EvListChildPlans (plan_Name plan) (Inr children)]"] in
           \<open>fastforce simp: childGrounds_def childrenCompleted_def checkDue_def split: option.splits\<close>)+
  next
    case (2 child)
    have "emits (rolloutEvent E) (State_Monad.bind (updateTemplateStatus E plan PatchPhaseWatching msg f)
        (\<lambda>st. return (d, errOf st)))" for msg f d
      by (intro emits_rules emits_watch)
    then show ?case by (rule runs_frame [OF runs_childless]) (simp add: oneChild_none)
  qed
qed

lemma withStatus_same: "plan_Status plan = plan_Status (withStatus plan f) \<Longrightarrow> withStatus plan f = plan"
  by (simp add: withStatus_def)

lemma updateTemplateStatus_outcome:
  "runs [] (updateTemplateStatus E plan phase msg f) (\<lambda>res es. createdPlans es = [] \<and>
     (case res of Inl _ \<Rightarrow> True | Inr p \<Rightarrow> version plan es p))"
  unfolding updateTemplateStatus_def Let_def
proof (intro runs_if runs_ok runs_perform, goal_cases)
  case 1
  show ?case by (subst withStatus_same [OF 1]) simp
qed (simp add: version_Cons split: sum.split)

lemma reconcileAutoUpdate_outcome:
  "runs [] (reconcileAutoUpdate E plan spec) (\<lambda>_. oneChild (\<lambda>es child.
     \<not> Cancelled (plan_Spec plan) \<and> \<not> Paused (plan_Spec plan) \<and>
     (\<exists>p. version plan es p \<and> childGrounds E p spec es child)))"
  (is "runs [] _ (\<lambda>_. oneChild ?P)")
  unfolding reconcileAutoUpdate_def Let_def
proof (intro runs_if, goal_cases)
  case 3
  show ?case
  proof (rule runs_thenReturn [OF updateTemplateStatus_outcome], goal_cases)
    case (2 p es)
    show ?case
      by (rule runs_frame [OF watchReleases_outcome], erule oneChild_frame)
         (use 2 3 in \<open>auto simp: version_append intro: childGrounds_append\<close>)
  qed (simp add: oneChild_none)
next
  case 4
  then show ?case by (intro runs_mono [OF watchReleases_outcome]) (auto simp: oneChild_def)
qed (rule runs_seq [OF updateTemplateStatus_outcome], rule runs_return, simp add: oneChild_none)+

section \<open>Looking again\<close>

lemma checkAndRollOut_retries:
  assumes "0 < interval"
  shows "runs [] (checkAndRollOut E plan spec interval) (\<lambda>res _. retries res)"
  unfolding checkAndRollOut_def
proof (rule runs_seq [OF runs_trivial [OF inspects_checkForRelease]], rule runs_sum, goal_cases)
  case (1 checked es err)
  then show ?case
    using assms by (intro runs_seq [OF updateTemplateStatus_outcome] runs_return)
      (simp add: retries_def requeueAutoUpdateRetry_def duration_units)
next
  case (2 checked es cr)
  show ?case
    by (rule runs_prod, rule runs_thenReturn [OF rollOut_outcome], simp, rule runs_prod, rule runs_bind, rule runs_perform,
        rule runs_seq [OF updateTemplateStatus_outcome], rule runs_return)
       (use assms in \<open>simp add: retries_def\<close>)
qed

lemma watchReleases_retries:
  assumes "0 < interval"
  shows "runs [] (watchReleases E plan spec interval) (\<lambda>res _. retries res)"
proof -
  have due: "runs h (checkWhenDue E plan spec interval) (\<lambda>res _. retries res)" for h
    unfolding checkWhenDue_def Let_def
    by (intro runs_rules runs_frame [OF checkAndRollOut_retries [OF assms]] runs_frame [OF updateTemplateStatus_outcome])
       (simp_all add: retries_def)
  show ?thesis
    unfolding watchReleases_def
    by (intro runs_rules due runs_frame [OF updateTemplateStatus_outcome]) (simp_all add: retries_def assms)
qed

lemma reconcileAutoUpdate_retries:
  "runs [] (reconcileAutoUpdate E plan spec) (\<lambda>res _. Cancelled (plan_Spec plan) \<or> retries res)"
proof -
  have pos: "0 < max (CheckInterval spec) minAutoUpdateCheckInterval"
    by (simp add: minAutoUpdateCheckInterval_def duration_units max_def)
  have watch: "runs h (watchReleases E p spec (max (CheckInterval spec) minAutoUpdateCheckInterval))
      (\<lambda>res _. Cancelled (plan_Spec plan) \<or> retries res)" for h p
    by (rule runs_frame [OF watchReleases_retries [OF pos]]) simp
  show ?thesis
    unfolding reconcileAutoUpdate_def Let_def
    by (intro runs_if runs_bind runs_thenReturn [OF updateTemplateStatus_outcome] watch
        runs_frame [OF updateTemplateStatus_outcome] runs_return)
       (simp_all add: retries_def plan_requeue_defs)
qed

end
