(* ===== verification/UpkeepProperties.thy ===== *)
theory UpkeepProperties imports UpdateOutcomes Fixture begin

text \<open>
  Properties of the plan controller around a rollout: the purge of the history of a finished plan, the
  child plans of an auto-update template, and that a plan is looked at again until it is finished.
\<close>

section \<open>History\<close>


section \<open>Child plans\<close>

text \<open>
  C19: An auto-update template creates at most one plan per reconcile, and only if it is neither cancelled
  nor paused, all its listed child plans are completed, the interval since the last check has passed,
  and the release it rolls out is the newest eligible one of a fetched list for the lowest version the
  Talos API reported on the nodes of its rollout. The created plan is the template's child for that release.
\<close>

theorem template_creates_one_justified_plan:
  assumes "lawfulVersions E"
  shows "runs [] (reconcileAutoUpdate E plan spec) (\<lambda>_ es. case createdPlans es of
      [] \<Rightarrow> True
    | child # others \<Rightarrow> others = [] \<and> \<not> Cancelled (plan_Spec plan) \<and> \<not> Paused (plan_Spec plan) \<and>
        (\<exists>p current target. version plan es p \<and>
           setOwnerOfPlan E p (childPlan p (VersionString E (rel_Version target))) = Inr child \<and>
           childrenCompleted p es \<and> checkDue p (max (CheckInterval spec) minAutoUpdateCheckInterval) es \<and>
           (\<exists>s nodes r vs. EvListNodes s (Inr nodes) \<in> set es \<and> Resolve E nodes (plan_Spec p) = Inr r \<and>
              versionsSeen E es (Nodes r) vs \<and> current \<in> set vs \<and> list_all (\<lambda>v. \<not> verLess E v current) vs) \<and>
           (\<exists>releases now. releasesFetched E es releases \<and> EvNow now \<in> set es \<and>
              bestOf E (eligible E current (Allow spec) (MinReleaseAge spec) now) releases (Some target))))"
  (is "runs [] _ (\<lambda>_. ?Q)")
proof (rule runs_mono [OF reconcileAutoUpdate_outcome])
  fix res es
  assume one: "oneChild (\<lambda>es child. \<not> Cancelled (plan_Spec plan) \<and> \<not> Paused (plan_Spec plan) \<and>
     (\<exists>p. version plan es p \<and> childGrounds E p spec es child)) es"
  have best: "sel_Target (Select E releases current al age now) = Some target \<Longrightarrow>
      bestOf E (eligible E current al age now) releases (Some target)" for releases current al age now target
    using Select_bests(2) [OF assms, of current al age now releases] by simp
  show "?Q es"
  proof (cases "createdPlans es")
    case (Cons child others)
    then obtain p current sel where "others = []" "\<not> Cancelled (plan_Spec plan)" "\<not> Paused (plan_Spec plan)"
        "version plan es p" "childrenCompleted p es" "checkDue p (max (CheckInterval spec) minAutoUpdateCheckInterval) es"
      and checked: "checkedRelease E p spec es current sel" and child: "childOf E p sel child"
      using one by (auto simp: oneChild_def childGrounds_def releaseGrounds_def)
    note facts = this(1-6)
    obtain target where t: "sel_Target sel = Some target"
        "setOwnerOfPlan E p (childPlan p (VersionString E (rel_Version target))) = Inr child"
      using child by (auto simp: childOf_def)
    obtain s nodes r vs releases now where c: "EvListNodes s (Inr nodes) \<in> set es" "Resolve E nodes (plan_Spec p) = Inr r"
        "versionsSeen E es (Nodes r) vs" "foldl (lower E) None vs = Some current" "releasesFetched E es releases"
        "EvNow now \<in> set es" "sel = Select E releases current (Allow spec) (MinReleaseAge spec) now"
      using checked unfolding checkedRelease_def by blast
    show ?thesis
      unfolding Cons list.case
      using facts t c lowest_of_all [OF assms c(4)] best [OF t(1) [unfolded c(7)]] by blast
  qed simp
qed

text \<open>A template whose only node runs v1.12.0 while v1.12.5 is released.\<close>

definition weekly :: autoUpdateSpec where
  "weekly = \<lparr>Enabled = True, Allow = AllowPatch, CheckInterval = 7 * day, MinReleaseAge = day\<rparr>"

definition templatePlan :: patchPlan where
  "templatePlan = fixPlan\<lparr>plan_Spec := fixSpec\<lparr>Target := fixTarget\<lparr>AutoUpdate := Some weekly, TalosVersion := ''''\<rparr>\<rparr>\<rparr>"

definition published :: "githubRelease list" where
  "published = [
       \<lparr>TagName = ''v1.13.0'', Draft = False, Prerelease = False, raw_PublishedAt = 0\<rparr>,
       \<lparr>TagName = ''v1.12.5'', Draft = False, Prerelease = False, raw_PublishedAt = 0\<rparr>,
       \<lparr>TagName = ''v1.12.4'', Draft = False, Prerelease = False, raw_PublishedAt = 0\<rparr>]"

definition releaseEnv :: "(fixVersion, fixState) env" where
  "releaseEnv = fixEnv\<lparr>
     op_now := (\<lambda>s. (10 * day, s)),
     op_listNodes := (\<lambda>_. silent [fixNode ''c1'' True]),
     op_getSecret := (\<lambda>_ _. silent [(''ca.crt'', ''Y2E=''), (''tls.crt'', ''Y3J0''), (''tls.key'', ''a2V5'')]),
     op_talosVersion := (\<lambda>_. silent [Some ''v1.12.0'']),
     decodeReleases := (\<lambda>_. Inr published)\<rparr>"

definition templateCalls :: "event list" where
  "templateCalls = calls (snd (run_state (reconcileAutoUpdate releaseEnv templatePlan weekly) fixWorld))"

lemma releaseEnv_lawful: "lawfulVersions releaseEnv"
  unfolding lawfulVersions_def releaseEnv_def fixEnv_def fixLib_def by (auto simp: klib.defs not_less)

lemmas rel_ops = releaseEnv_def fixEnv_def fixLib_def klib.defs silent_def accepted_def missing_def
lemmas rel_objects = templatePlan_def fixPlan_def fixStatus_def fixSpec_def fixTarget_def weekly_def

definition relRollout :: rollout where
  "relRollout = (case Resolve releaseEnv [fixNode ''c1'' True] (plan_Spec templatePlan) of Inr r \<Rightarrow> r)"

lemma rel_resolved: "Resolve releaseEnv [fixNode ''c1'' True] (plan_Spec templatePlan) = Inr relRollout \<and> Nodes relRollout = [fixNode ''c1'' True]"
  by code_simp

lemma rel_tls: "createTLSConfig releaseEnv \<lparr>cfg_Endpoints = [''10.0.0.1''], CACert = ''Y2E='', ClientCert = ''Y3J0'', ClientKey = ''a2V5''\<rparr> =
    Inr \<lparr>RootCAs = ''ca'', Certificates = (''crt'', ''key''), MinVersionTLS12 = True\<rparr>"
  by code_simp

lemma rel_select: "Select releaseEnv (keepReleases releaseEnv published) (1, 12, 0) AllowPatch day (10 * day) =
     \<lparr>sel_Latest = Some \<lparr>rel_Version = (1, 13, 0), PublishedAt = 0\<rparr>,
      sel_Target = Some \<lparr>rel_Version = (1, 12, 5), PublishedAt = 0\<rparr>, sel_Pending = None\<rparr>"
  by code_simp

lemma rel_version: "ParseVersion releaseEnv ''v1.12.0'' = Inr (1, 12, 0)" "VersionString releaseEnv (1, 12, 5) = ''v1.12.5''"
  by code_simp+

lemma rel_open:
  assumes "plan_Spec p = plan_Spec templatePlan"
  shows "run_state (openTalos releaseEnv p) w = (None, w\<lparr>calls := calls w @
    [EvGetSecret ''kangal-patch'' ''talos'' (Inr [(''ca.crt'', ''Y2E=''), (''tls.crt'', ''Y3J0''), (''tls.key'', ''a2V5'')]),
     EvTalosDial [''10.0.0.1''] \<lparr>RootCAs = ''ca'', Certificates = (''crt'', ''key''), MinVersionTLS12 = True\<rparr> None]\<rparr>)"
  using rel_tls
  by (simp add: openTalos_def resolveTalosConfig_def NewClient_def secretField_def assms rel_objects rel_ops)
lemma rel_fields:
  "op_now releaseEnv s = (10 * day, s)" "op_listNodes releaseEnv l s = (Inr [fixNode ''c1'' True], s)"
  "op_talosVersion releaseEnv a s = (Inr [Some ''v1.12.0''], s)" "op_talosClose releaseEnv s = (None, s)"
  "op_httpGet releaseEnv u s = (Inr (200, Inr ''''), s)" "op_listChildPlans releaseEnv n s = (Inr [], s)"
  "op_patchPlanStatus releaseEnv b m s = (Inr m, s)" "op_createPlan releaseEnv c s = (None, s)"
  "asSelector releaseEnv l = Inr (\<lambda>ls. list_all (\<lambda>(k, v). map_of ls k = Some v) (MatchLabels l))"
  "setOwnerOfPlan releaseEnv p c = Inr (c\<lparr>plan_Owner := Some (plan_Name p)\<rparr>)"
  by (simp_all add: rel_ops)

lemma rel_decode: "decodeReleases releaseEnv t = Inr published"
  by (simp add: rel_ops published_def)

definition lowestCalls :: "event list" where
  "lowestCalls = [
     EvGetSecret ''kangal-patch'' ''talos'' (Inr [(''ca.crt'', ''Y2E=''), (''tls.crt'', ''Y3J0''), (''tls.key'', ''a2V5'')]),
     EvTalosDial [''10.0.0.1''] \<lparr>RootCAs = ''ca'', Certificates = (''crt'', ''key''), MinVersionTLS12 = True\<rparr> None,
     EvTalosVersion (Some ''10.0.0.1'') (Inr [Some ''v1.12.0'']),
     EvTalosClose None]"

lemma rel_lowest:
  assumes "plan_Spec p = plan_Spec templatePlan"
  shows "run_state (lowestTalosVersion releaseEnv p [fixNode ''c1'' True]) w =
    (Inr (Some (1, 12, 0)), w\<lparr>calls := calls w @ lowestCalls\<rparr>)"
  by (simp add: lowestTalosVersion_def rel_open [OF assms] probeNode_def GetVersion_def GetNodeInternalIP_def fixNode_def
      ifOk_def ok_def Close_def rel_fields rel_version [unfolded One_nat_def] lowestCalls_def)

lemma rel_check:
  assumes "plan_Spec p = plan_Spec templatePlan"
  shows "run_state (checkForRelease releaseEnv p weekly) w =
    (Inr ((1, 12, 0), \<lparr>sel_Latest = Some \<lparr>rel_Version = (1, 13, 0), PublishedAt = 0\<rparr>,
       sel_Target = Some \<lparr>rel_Version = (1, 12, 5), PublishedAt = 0\<rparr>, sel_Pending = None\<rparr>),
     w\<lparr>calls := calls w @ EvListNodes emptySelector (Inr [fixNode ''c1'' True]) # lowestCalls @
       [EvHttpGet DefaultURL (Inr (200, Inr '''')), EvNow (10 * day)]\<rparr>)"
proof -
  have "Allow weekly = AllowPatch" "MinReleaseAge weekly = day" "NodeSelector (plan_Spec templatePlan) = None"
    by (simp_all add: weekly_def rel_objects)
  then show ?thesis
    using rel_resolved rel_select 
    by (simp add: checkForRelease_def ListMatchingNodes_def rel_fields ifOk_def ok_def ListReleases_def rel_decode
        maxResponseBytes_def assms rel_lowest [OF assms])
qed

lemma template_child:
  "map (\<lambda>c. (plan_Name c, TalosVersion (Target (plan_Spec c)))) (createdPlans templateCalls) = [(''plan-v1.12.5'', ''v1.12.5'')]"
proof -
  have "\<not> Cancelled (plan_Spec templatePlan)" "\<not> Paused (plan_Spec templatePlan)" "planPhase templatePlan = PatchPhaseNone"
    "ps_AutoUpdate (plan_Status templatePlan) = None" "plan_Name templatePlan = ''plan''"
    by (simp_all add: rel_objects)
  then show ?thesis
    using rel_version(2)
    by (simp add: templateCalls_def reconcileAutoUpdate_def updateTemplateStatus_def watchReleases_def checkWhenDue_def
        checkAndRollOut_def rollOut_def createChildPlan_def childPlan_def rel_check rel_fields orReturn_def ifOk_def ok_def Let_def
        fixWorld_def withStatus_def emptyAutoUpdateStatus_def lowestCalls_def)
qed

theorem template_creates_one_justified_plan_witness:
  "map (\<lambda>c. TalosVersion (Target (plan_Spec c))) (createdPlans templateCalls) = [''v1.12.5''] \<and>
   (\<exists>current target releases now. releasesFetched releaseEnv templateCalls releases \<and>
      bestOf releaseEnv (eligible releaseEnv current AllowPatch day now) releases (Some target))"
proof
  show child: "map (\<lambda>c. TalosVersion (Target (plan_Spec c))) (createdPlans templateCalls) = [''v1.12.5'']"
    using arg_cong [OF template_child, of "map snd"] by (simp add: comp_def)
  have calls: "calls fixWorld = []" by (simp add: fixWorld_def)
  obtain c where c: "createdPlans templateCalls = [c]"
    using child by (cases "createdPlans templateCalls") auto
  have weekly: "Allow weekly = AllowPatch" "MinReleaseAge weekly = day" by (simp_all add: weekly_def)
  show "\<exists>current target releases now. releasesFetched releaseEnv templateCalls releases \<and>
      bestOf releaseEnv (eligible releaseEnv current AllowPatch day now) releases (Some target)"
    by (rule runsE [OF template_creates_one_justified_plan [OF releaseEnv_lawful, of templatePlan weekly], of fixWorld])
       (simp only: calls append_Nil templateCalls_def [symmetric] c list.case weekly, blast)
qed

section \<open>Looking again\<close>


end
