(* ===== verification/Cluster.thy ===== *)
theory Cluster imports RolloutMachine JobOrder PlanCalls begin

text \<open>
  Both controllers at work on the same stored objects, call by call: a reconcile of the plan and
  reconciles of any number of jobs are under way at the same time, and their calls interleave in any
  order. The framework runs at most one reconcile of an object at a time; a reconcile may break off after
  any call (a crash, a cancelled context).
\<close>

section \<open>The machine\<close>

text \<open>
  The jobs as stored, the calls the running reconcile of the plan has still to make, and for each
  running reconcile of a job the job as it was read with the calls still to be made.
\<close>

record cluster =
  stored :: "patchJob list"
  planRun :: "event list option"
  jobRuns :: "(patchJob \<times> event list) list"

datatype (plugins only: code size) actor = Silent | ByPlan event | ByJob patchJob event

definition emptyCluster :: cluster where
  "emptyCluster = \<lparr>stored = [], planRun = None, jobRuns = []\<rparr>"

text \<open>
  A status write that is carried out gives the job of that name a status with the phase written (the patch
  may merge with what others have written elsewhere in the status).
\<close>

definition statusWritten :: "event \<Rightarrow> string \<Rightarrow> patchJob list \<Rightarrow> patchJob list \<Rightarrow> bool" where
  "statusWritten e name jobs jobs' \<longleftrightarrow> (\<exists>b m r xs k ys st. e = EvPatchJobStatus b m r \<and>
     jobs = xs @ k # ys \<and> job_Name k = name \<and> js_Phase st = jobPhase m \<and>
     jobs' = xs @ k\<lparr>job_Status := st\<rparr> # ys)"

text \<open>
  A call may be carried out or refused. The reconcile of the plan is any run of \<open>reconcileRollout\<close>,
  for any version of the plan, whose listing shows the jobs as stored at that moment; what it
  creates afterwards meets the store of that later moment. Jobs are deleted while none is unfinished and
  the plan is not being reconciled (compare \<open>storeStep\<close>).
\<close>

inductive clusterStep :: "('v, 's) env \<Rightarrow> rollout \<Rightarrow> cluster \<Rightarrow> actor \<Rightarrow> cluster \<Rightarrow> bool" for E r c where
  plan_lists: "planRun c = None \<Longrightarrow>
    calls (snd (run_state (reconcileRollout E plan r) w)) = calls w @ EvListJobs (plan_Name plan) (Inr listed) # es \<Longrightarrow>
    mset listed = mset (stored c) \<Longrightarrow> clusterStep E r c Silent (c\<lparr>planRun := Some es\<rparr>)"
| plan_calls: "planRun c = Some (e # es) \<Longrightarrow> new = [] \<or> new = createdJobs [e] \<Longrightarrow>
    distinct (map job_Name (stored c @ new)) \<Longrightarrow>
    clusterStep E r c (ByPlan e) (c\<lparr>stored := stored c @ new, planRun := Some es\<rparr>)"
| plan_ends: "clusterStep E r c Silent (c\<lparr>planRun := None\<rparr>)"
| job_read: "j \<in> set (stored c) \<Longrightarrow> job_Name j \<notin> set (map (job_Name \<circ> fst) (jobRuns c)) \<Longrightarrow>
    calls (snd (run_state (ReconcileJob E (job_Name j)) w)) = calls w @ EvGetJob (job_Name j) (Inr j) # es \<Longrightarrow>
    clusterStep E r c Silent (c\<lparr>jobRuns := (j, es) # jobRuns c\<rparr>)"
| job_calls: "jobRuns c = xs @ (j, e # es) # ys \<Longrightarrow>
    jobs = stored c \<or> statusWritten e (job_Name j) (stored c) jobs \<Longrightarrow>
    clusterStep E r c (ByJob j e) (c\<lparr>stored := jobs, jobRuns := xs @ (j, es) # ys\<rparr>)"
| job_ends: "jobRuns c = xs @ run # ys \<Longrightarrow> clusterStep E r c Silent (c\<lparr>jobRuns := xs @ ys\<rparr>)"
| job_removed: "planRun c = None \<Longrightarrow> list_all (\<lambda>j. IsTerminal (jobPhase j)) (stored c) \<Longrightarrow>
    stored c = xs @ j # ys \<Longrightarrow> clusterStep E r c Silent (c\<lparr>stored := xs @ ys\<rparr>)"

definition clusterMove :: "('v, 's) env \<Rightarrow> rollout \<Rightarrow> cluster \<Rightarrow> cluster \<Rightarrow> bool" where
  "clusterMove E r c c' \<longleftrightarrow> (\<exists>a. clusterStep E r c a c')"

section \<open>What running reconciles have still to do\<close>

text \<open>
  The remaining calls of a job's reconcile: either nothing but reads and releases, or the job still
  stands, unfinished, and as it was read as long as a call that takes capacity away is to come.
\<close>

definition runFits :: "('v, 's) env \<Rightarrow> patchJob list \<Rightarrow> patchJob \<times> event list \<Rightarrow> bool" where
  "runFits E jobs run \<longleftrightarrow> (case run of (j, es) \<Rightarrow>
     list_all (jobEvent E j) es \<and> sorted_wrt inOrder es \<and>
     (list_all harmless es \<or> (\<exists>k\<in>set jobs. job_Name k = job_Name j \<and> jobNode k = jobNode j \<and>
        \<not> IsTerminal (jobPhase k) \<and> (jobPhase k = jobPhase j \<or> list_all (\<lambda>e. \<not> disrupts e) es))))"

definition planFits :: "('v, 's) env \<Rightarrow> rollout \<Rightarrow> patchJob list \<Rightarrow> event list \<Rightarrow> bool" where
  "planFits E r jobs es \<longleftrightarrow> list_all (rolloutEvent E) es \<and>
     (createdJobs es = [] \<or> mayCreate r jobs (createdJobs es))"

definition soundCluster :: "('v, 's) env \<Rightarrow> rollout \<Rightarrow> cluster \<Rightarrow> bool" where
  "soundCluster E r c \<longleftrightarrow> soundStore E r (stored c) \<and>
     (case planRun c of None \<Rightarrow> True | Some es \<Rightarrow> planFits E r (stored c) es) \<and>
     distinct (map (job_Name \<circ> fst) (jobRuns c)) \<and> list_all (runFits E (stored c)) (jobRuns c)"

subsection \<open>The plan\<close>

lemma started_current:
  assumes "currentGroup r s = Some g" and "list_all (\<lambda>n. s n = Waiting) ns"
  shows "currentGroup r (\<lambda>n. if n \<in> set ns then InProgress else s n) = Some g"
proof -
  have "(if n \<in> set ns then InProgress else s n) = Finished \<longleftrightarrow> s n = Finished" for n
    using assms(2) by (auto simp: list_all_iff)
  then show ?thesis using assms(1) by (simp add: currentGroup_def)
qed

lemma finished_current:
  assumes "currentGroup r s = Some g" and "m \<in> set (grp_Nodes g)" and "s (node_Name m) = Waiting" and "node_Name m \<noteq> n"
  shows "currentGroup r (s(n := Finished)) = Some g"
  unfolding currentGroup_def
proof (rule find_keeps [OF assms(1) [unfolded currentGroup_def]])
  show "\<not> list_all (\<lambda>k. (s(n := Finished)) (node_Name k) = Finished) (grp_Nodes g)"
    using assms(2-) by (auto simp: list_all_iff intro!: bexI [of _ m])
qed (auto simp: list_all_iff split: if_splits)

lemma mayCreate_skip: "mayCreate r jobs (cs @ js) \<Longrightarrow> mayCreate r jobs js"
  unfolding mayCreate_def by (elim exE, rule exI) auto

lemma mayCreate_first: "mayCreate r jobs (j # js) \<Longrightarrow> mayCreate r jobs [j]"
  unfolding mayCreate_def by (elim exE, rule exI) auto

lemma mayCreate_next:
  assumes sound: "soundStore E r jobs" and may: "mayCreate r jobs (j # js)"
  shows "mayCreate r (jobs @ [j]) js"
proof -
  let ?s = "progressOf jobs" and ?t = "progressOf (jobs @ [j])"
  obtain g where g: "currentGroup r ?s = Some g" "set (map jobNode (j # js)) \<subseteq> node_Name ` set (grp_Nodes g)"
    "list_all (\<lambda>n. ?s n = Waiting) (map jobNode (j # js))" "distinct (map jobNode (jobs @ j # js))"
    "int (length (inProgressIn ?s g)) + int (length (j # js)) \<le> grp_Concurrency g"
    "list_all (\<lambda>j. job_Group (job_Spec j) = grp_Name g \<and> job_DeletionTimestamp j = None \<and>
       jobPhase j = PatchJobPhaseNone) (j # js)"
    using may unfolding mayCreate_def by blast
  have t: "?t = (\<lambda>n. if n \<in> set [jobNode j] then InProgress else ?s n)"
    using progressOf_append [of jobs "[j]"] g(4,6) by simp
  have "distinct (map node_Name (grp_Nodes g))"
    using sound g(1) by (auto simp: soundStore_def Nodes_def currentGroup_def find_Some_iff intro: distinct_in_group)
  then have "length (filter (\<lambda>n. node_Name n \<in> set [jobNode j]) (grp_Nodes g)) \<le> 1"
    using length_filter_names [of "grp_Nodes g" "[jobNode j]"] by simp
  moreover have "inProgressIn ?t g = filter (\<lambda>n. ?s (node_Name n) = InProgress \<or> node_Name n \<in> set [jobNode j]) (grp_Nodes g)"
    unfolding inProgressIn_def t by (rule filter_cong) auto
  ultimately have "length (inProgressIn ?t g) \<le> length (inProgressIn ?s g) + 1"
    using length_filter_either [of "\<lambda>n. ?s (node_Name n) = InProgress" "\<lambda>n. node_Name n \<in> set [jobNode j]" "grp_Nodes g"]
    by (simp add: inProgressIn_def)
  moreover have "currentGroup r ?t = Some g"
    unfolding t by (rule started_current [OF g(1)]) (use g(3) in simp)
  moreover have "list_all (\<lambda>n. ?t n = Waiting) (map jobNode js)"
    using g(3,4) unfolding t by (auto simp: list_all_iff rev_image_eqI)
  ultimately show ?thesis
    unfolding mayCreate_def using g by (intro exI [of _ g]) auto
qed

lemma mayCreate_status:
  assumes sound: "soundStore E r (xs @ k # ys)" and going: "\<not> IsTerminal (jobPhase k)"
    and may: "mayCreate r (xs @ k # ys) cs" and cs: "cs \<noteq> []"
  shows "mayCreate r (xs @ k\<lparr>job_Status := st\<rparr> # ys) cs"
proof (cases "IsTerminal (js_Phase st)")
  case False
  have "map jobNode (xs @ k\<lparr>job_Status := st\<rparr> # ys) = map jobNode (xs @ k # ys)" by (simp add: jobNode_def)
  then show ?thesis using may False by (simp add: mayCreate_def status_step(2) [OF sound going])
next
  case True
  let ?s = "progressOf (xs @ k # ys)"
  have t: "progressOf (xs @ k\<lparr>job_Status := st\<rparr> # ys) = ?s(jobNode k := Finished)"
    using True by (simp add: status_step(2) [OF sound going])
  obtain g where g: "currentGroup r ?s = Some g" "set (map jobNode cs) \<subseteq> node_Name ` set (grp_Nodes g)"
    "list_all (\<lambda>n. ?s n = Waiting) (map jobNode cs)" "distinct (map jobNode ((xs @ k # ys) @ cs))"
    "int (length (inProgressIn ?s g)) + int (length cs) \<le> grp_Concurrency g"
    "list_all (\<lambda>j. job_Group (job_Spec j) = grp_Name g \<and> job_DeletionTimestamp j = None \<and>
       jobPhase j = PatchJobPhaseNone) cs"
    using may unfolding mayCreate_def by blast
  have other: "n \<noteq> jobNode k" if "n \<in> set (map jobNode cs)" for n
    using that g(3) status_step(3) [OF sound going] by (auto simp: list_all_iff)
  obtain c where "c \<in> set cs" using cs by (cases cs) auto
  then obtain m where m: "m \<in> set (grp_Nodes g)" "node_Name m = jobNode c" "jobNode c \<in> set (map jobNode cs)"
    using g(2) by auto
  have "currentGroup r (?s(jobNode k := Finished)) = Some g"
    by (rule finished_current [OF g(1) m(1)]) (use m g(3) other in \<open>auto simp: list_all_iff\<close>)
  moreover have "length (inProgressIn (?s(jobNode k := Finished)) g) \<le> length (inProgressIn ?s g)"
    unfolding inProgressIn_def by (rule length_filter_mono) (auto split: if_splits)
  moreover have "list_all (\<lambda>n. (?s(jobNode k := Finished)) n = Waiting) (map jobNode cs)"
    using g(3) other by (auto simp: list_all_iff)
  moreover have "distinct (map jobNode ((xs @ k\<lparr>job_Status := st\<rparr> # ys) @ cs))"
    using g(4) by (simp add: jobNode_def)
  ultimately show ?thesis
    unfolding mayCreate_def t using g by (intro exI [of _ g]) auto
qed

subsection \<open>The jobs\<close>

text \<open>What a run needs of the store: a job of that name and node, and the phase it is in.\<close>

lemma runFits_store:
  assumes "runFits E jobs run"
    and "\<And>k. k \<in> set jobs \<Longrightarrow> job_Name k = job_Name (fst run) \<Longrightarrow> \<not> IsTerminal (jobPhase k) \<Longrightarrow>
      \<exists>k'\<in>set jobs'. job_Name k' = job_Name k \<and> jobNode k' = jobNode k \<and> jobPhase k' = jobPhase k"
  shows "runFits E jobs' run"
proof (cases run)
  case (Pair j es)
  have "\<exists>k'\<in>set jobs'. job_Name k' = job_Name j \<and> jobNode k' = jobNode j \<and>
      \<not> IsTerminal (jobPhase k') \<and> (jobPhase k' = jobPhase j \<or> Q)"
    if k: "k \<in> set jobs" "job_Name k = job_Name j" "jobNode k = jobNode j" "\<not> IsTerminal (jobPhase k)"
      "jobPhase k = jobPhase j \<or> Q" for k Q
  proof -
    obtain k' where "k' \<in> set jobs'" "job_Name k' = job_Name k" "jobNode k' = jobNode k" "jobPhase k' = jobPhase k"
      using assms(2) [of k] k Pair by auto
    then show ?thesis using k by (intro bexI [of _ k']) auto
  qed
  then show ?thesis using assms(1) unfolding runFits_def Pair by (simp only: prod.case) blast
qed

text \<open>One call of a run, carried out or not.\<close>

lemma runFits_call:
  assumes fits: "runFits E jobs (j, e # es)" and names: "distinct (map job_Name jobs)"
  shows "runFits E jobs (j, es)"
    and "statusWritten e (job_Name j) jobs jobs' \<Longrightarrow> runFits E jobs' (j, es) \<and>
      (\<exists>xs k ys st. jobs = xs @ k # ys \<and> job_Name k = job_Name j \<and> \<not> IsTerminal (jobPhase k) \<and>
        jobs' = xs @ k\<lparr>job_Status := st\<rparr> # ys)"
proof -
  show "runFits E jobs (j, es)" using fits by (fastforce simp: runFits_def)
  assume "statusWritten e (job_Name j) jobs jobs'"
  then obtain b m r xs k ys st where e: "e = EvPatchJobStatus b m r" and jobs: "jobs = xs @ k # ys"
    and k: "job_Name k = job_Name j" "js_Phase st = jobPhase m" and jobs': "jobs' = xs @ k\<lparr>job_Status := st\<rparr> # ys"
    unfolding statusWritten_def by blast
  have "\<not> list_all harmless (e # es)" unfolding e by simp
  then obtain k' where k': "k' \<in> set jobs" "job_Name k' = job_Name j" "jobNode k' = jobNode j"
    "\<not> IsTerminal (jobPhase k')" using fits unfolding runFits_def by auto
  have "k' = k" using distinct_map_eqD [OF names k'(1)] k'(2) k(1) jobs by auto
  then have going: "jobNode k = jobNode j" "\<not> IsTerminal (jobPhase k)" using k' by simp_all
  have rest: "list_all (jobEvent E j) es" "sorted_wrt inOrder es"
    "list_all (\<lambda>f. \<not> disrupts f \<and> (if IsTerminal (jobPhase m) then noWrite f else True)) es"
    using fits unfolding e by (auto simp: runFits_def list_all_iff)
  have "runFits E jobs' (j, es)"
  proof (cases "IsTerminal (jobPhase m)")
    case True
    then have "list_all harmless es" using rest(3) by (auto simp: list_all_iff harmless_def)
    then show ?thesis using rest by (simp add: runFits_def)
  next
    case False
    then show ?thesis
      using rest k going jobs' by (auto simp: runFits_def jobNode_def list_all_iff)
  qed
  then show "runFits E jobs' (j, es) \<and>
      (\<exists>xs k ys st. jobs = xs @ k # ys \<and> job_Name k = job_Name j \<and> \<not> IsTerminal (jobPhase k) \<and>
        jobs' = xs @ k\<lparr>job_Status := st\<rparr> # ys)"
    using going jobs jobs' k(1) by blast
qed

lemma runFits_other:
  assumes "runFits E (xs @ k # ys) run" and "job_Name k \<noteq> job_Name (fst run)"
  shows "runFits E (xs @ k\<lparr>job_Status := st\<rparr> # ys) run"
  by (rule runFits_store [OF assms(1)]) (use assms(2) in auto)

lemma runFits_read:
  assumes "j \<in> set jobs"
    and "calls (snd (run_state (ReconcileJob E name) w)) = calls w @ EvGetJob name (Inr j) # es"
  shows "runFits E jobs (j, es)"
  using assms(1) reconcile_calls [OF assms(2)] by (auto simp: runFits_def split: if_splits)

lemma runFits_done:
  assumes "runFits E jobs run" and "list_all (\<lambda>j. IsTerminal (jobPhase j)) jobs"
  shows "runFits E jobs' run"
  using assms by (auto simp: runFits_def list_all_iff split: prod.split)

section \<open>The cluster refines the rollout\<close>

lemma reconcile_events:
  assumes "calls (snd (run_state (reconcileRollout E plan r) w)) = calls w @ e # es"
  shows "list_all (rolloutEvent E) es"
proof -
  obtain es' where "calls (snd (run_state (reconcileRollout E plan r) w)) = calls w @ es'" "list_all (rolloutEvent E) es'"
    by (rule emitsD [OF emits_reconcileRollout])
  then show ?thesis using assms by auto
qed

lemma planFits_listed:
  assumes sound: "soundStore E r jobs"
    and es: "calls (snd (run_state (reconcileRollout E plan r) w)) = calls w @ EvListJobs (plan_Name plan) (Inr listed) # es"
    and listed: "mset listed = mset jobs"
  shows "planFits E r jobs es"
proof (cases "createdJobs es = []")
  case False
  then have "withinLimit E r listed (createdJobs es)" using tried_within [OF es] by simp
  then have "mayCreate r jobs (createdJobs es)" by (rule reconciled_created [OF sound listed]) simp
  then show ?thesis using reconcile_events [OF es] by (simp add: planFits_def)
qed (use reconcile_events [OF es] in \<open>simp add: planFits_def\<close>)

lemma planFits_calls:
  assumes "soundStore E r jobs" and "planFits E r jobs (e # es)" and "new = [] \<or> new = createdJobs [e]"
  shows "planFits E r (jobs @ new) es" and "new = [] \<or> mayCreate r jobs new"
proof -
  have events: "list_all (rolloutEvent E) es" using assms(2) by (simp add: planFits_def)
  have may: "createdJobs [e] @ createdJobs es = [] \<or> mayCreate r jobs (createdJobs [e] @ createdJobs es)"
    using assms(2) createdJobs_append [of "[e]" es] by (simp add: planFits_def del: createdJobs_append)
  have one: "createdJobs [e] = [] \<or> (\<exists>j. createdJobs [e] = [j])" by (cases e) simp_all
  show "planFits E r (jobs @ new) es"
  proof (cases "createdJobs es = []")
    case False
    then have "mayCreate r jobs (createdJobs [e] @ createdJobs es)" using may by simp
    then have "mayCreate r (jobs @ new) (createdJobs es)"
      using assms(3) one mayCreate_skip mayCreate_next [OF assms(1)] by fastforce
    then show ?thesis using events by (simp add: planFits_def)
  qed (use events in \<open>simp add: planFits_def\<close>)
  show "new = [] \<or> mayCreate r jobs new"
    using assms(3) one may mayCreate_first by fastforce
qed

lemma planFits_status:
  assumes "soundStore E r (xs @ k # ys)" and "\<not> IsTerminal (jobPhase k)" and "planFits E r (xs @ k # ys) es"
  shows "planFits E r (xs @ k\<lparr>job_Status := st\<rparr> # ys) es"
  using assms(3) mayCreate_status [OF assms(1,2)] unfolding planFits_def by blast

text \<open>A status write that is carried out keeps everything that is known of the cluster.\<close>

lemma written_keeps:
  assumes store: "soundStore E r jobs" and plan: "case planRun c of None \<Rightarrow> True | Some es \<Rightarrow> planFits E r jobs es"
    and run: "runFits E jobs (j, e # es)" and others: "list_all (runFits E jobs) rs"
    and other: "\<And>run. run \<in> set rs \<Longrightarrow> job_Name (fst run) \<noteq> job_Name j"
    and w: "statusWritten e (job_Name j) jobs jobs'"
  shows "soundStore E r jobs'" and "(rolloutStep r)\<^sup>*\<^sup>* (progressOf jobs) (progressOf jobs')"
    and "runFits E jobs' (j, es)" and "list_all (runFits E jobs') rs"
    and "case planRun c of None \<Rightarrow> True | Some es \<Rightarrow> planFits E r jobs' es"
proof -
  have names: "distinct (map job_Name jobs)" using store by (simp add: soundStore_def)
  obtain as k bs st where k: "jobs = as @ k # bs" "job_Name k = job_Name j" "\<not> IsTerminal (jobPhase k)"
    "jobs' = as @ k\<lparr>job_Status := st\<rparr> # bs" and fits: "runFits E jobs' (j, es)"
    using runFits_call(2) [OF run names w] by blast
  show "soundStore E r jobs'" "(rolloutStep r)\<^sup>*\<^sup>* (progressOf jobs) (progressOf jobs')"
    using store status_step(1) [of E r as k bs] status_simulated [of E r as k bs] k by simp_all
  show "runFits E jobs' (j, es)" by (rule fits)
  show "list_all (runFits E jobs') rs"
  proof (rule list.pred_mono_strong [OF others])
    fix run
    assume "run \<in> set rs" and "runFits E jobs run"
    then show "runFits E jobs' run" using runFits_other [of E as k bs run] other [of run] k by simp
  qed
  show "case planRun c of None \<Rightarrow> True | Some es \<Rightarrow> planFits E r jobs' es"
    using plan planFits_status [of E r as k bs] store k by (simp split: option.splits)
qed

lemma sound_clusterStep:
  assumes sound: "soundCluster E r c" and step: "clusterStep E r c a c'"
  shows "soundCluster E r c' \<and> (rolloutStep r)\<^sup>*\<^sup>* (progressOf (stored c)) (progressOf (stored c'))"
proof -
  have store: "soundStore E r (stored c)" and names: "distinct (map job_Name (stored c))"
    and plan: "case planRun c of None \<Rightarrow> True | Some es \<Rightarrow> planFits E r (stored c) es"
    and apart: "distinct (map (job_Name \<circ> fst) (jobRuns c))" and runs: "list_all (runFits E (stored c)) (jobRuns c)"
    using sound by (simp_all add: soundCluster_def soundStore_def)
  show ?thesis
    using step
  proof (cases rule: clusterStep.cases)
    case (plan_lists plan w listed es)
    then show ?thesis using sound planFits_listed [OF store plan_lists(4,5)] by (simp add: soundCluster_def)
  next
    case (plan_calls e es new)
    then have "planFits E r (stored c) (e # es)" using plan by simp
    note fits = planFits_calls [OF store this plan_calls(4)]
    have made: "soundStore E r (stored c @ new) \<and> (rolloutStep r)\<^sup>*\<^sup>* (progressOf (stored c)) (progressOf (stored c @ new))"
      using fits(2) created_step [OF store _ plan_calls(5)] store by (cases "new = []") auto
    have "list_all (runFits E (stored c @ new)) (jobRuns c)"
      by (rule list.pred_mono_strong [OF runs], erule runFits_store) auto
    then show ?thesis using made fits(1) apart plan_calls(2) by (simp add: soundCluster_def)
  next
    case plan_ends
    then show ?thesis using sound by (simp add: soundCluster_def)
  next
    case (job_read j w es)
    then show ?thesis using sound runFits_read [OF job_read(3,5)] by (simp add: soundCluster_def split: option.splits)
  next
    case (job_calls xs j e es ys jobs)
    have run: "runFits E (stored c) (j, e # es)" and others: "list_all (runFits E (stored c)) (xs @ ys)"
      using runs job_calls(3) by simp_all
    note call = runFits_call [OF run names]
    have other: "job_Name (fst run) \<noteq> job_Name j" if "run \<in> set (xs @ ys)" for run
      using apart that unfolding job_calls(3) by (auto simp: rev_image_eqI)
    from job_calls(4) show ?thesis
    proof
      assume "jobs = stored c"
      then show ?thesis
        using job_calls(2,3) call(1) others store plan apart by (simp add: soundCluster_def split: option.splits)
    next
      assume "statusWritten e (job_Name j) (stored c) jobs"
      note kept = written_keeps [OF store plan run others other this]
      then show ?thesis using job_calls(2,3) apart by (simp add: soundCluster_def split: option.splits)
    qed
  next
    case (job_ends xs run ys)
    then show ?thesis using sound by (simp add: soundCluster_def split: option.splits)
  next
    case (job_removed xs j ys)
    have "list_all (runFits E (xs @ ys)) (jobRuns c)"
      by (rule list.pred_mono_strong [OF runs], erule runFits_done) (rule job_removed(4))
    then show ?thesis
      using job_removed apart store removed_step(1) [of E r xs j ys] removed_simulated [of E r xs j ys]
      by (auto simp: soundCluster_def)
  qed
qed

interpretation together: refinement "clusterMove E r" "soundCluster E r" "rolloutStep r" "progressOf \<circ> stored" for E r
  by unfold_locales (use sound_clusterStep in \<open>fastforce simp: clusterMove_def\<close>)+

lemma emptyCluster_sound:
  "ownerOnly E \<Longrightarrow> distinct (map node_Name (Nodes r)) \<Longrightarrow> soundCluster E r emptyCluster"
  by (simp add: soundCluster_def emptyCluster_def empty_sound)

lemma cluster_reachable:
  assumes "ownerOnly E" and "distinct (map node_Name (Nodes r))" and "(clusterMove E r)\<^sup>*\<^sup>* emptyCluster c"
  shows "soundCluster E r c" and "orderly r (progressOf (stored c))"
proof -
  show "soundCluster E r c" by (rule together.reach_sound [OF assms(3) emptyCluster_sound [OF assms(1,2)]])
  have "orderly r ((progressOf \<circ> stored) c)"
  proof (rule together.reach_invariant [where P = "orderly r", OF _ _ emptyCluster_sound assms(3)])
    show "orderly r ((progressOf \<circ> stored) emptyCluster)"
      by (simp add: emptyCluster_def orderly_def inProgressIn_def list_all_iff)
  qed (use assms orderly_step in auto)
  then show "orderly r (progressOf (stored c))" by simp
qed

text \<open>Who takes capacity away: the reconcile of an unfinished job that still stands as it was read.\<close>

lemma disruption_by_job:
  assumes sound: "soundCluster E r c" and step: "clusterStep E r c (ByJob j e) c'" and e: "disrupts e"
  shows "disruptivePhase (jobPhase j) \<and> jobEvent E j e \<and>
    (\<exists>k\<in>set (stored c). job_Name k = job_Name j \<and> jobNode k = jobNode j \<and> jobPhase k = jobPhase j)"
proof -
  obtain xs es ys where "jobRuns c = xs @ (j, e # es) # ys"
    using step by (cases rule: clusterStep.cases) simp_all
  then have fits: "runFits E (stored c) (j, e # es)" using sound by (simp add: soundCluster_def)
  moreover have "\<not> list_all harmless (e # es)" using e by (simp add: harmless_def)
  ultimately show ?thesis using e jobEvent_disrupts [of E j e] by (auto simp: runFits_def)
qed

lemma no_disruption_by_plan:
  assumes sound: "soundCluster E r c" and step: "clusterStep E r c (ByPlan e) c'"
  shows "\<not> disrupts e"
proof -
  obtain es where "planRun c = Some (e # es)" using step by (cases rule: clusterStep.cases) simp_all
  then have "rolloutEvent E e" using sound by (simp add: soundCluster_def planFits_def)
  then show ?thesis by (cases e) (simp_all add: rolloutEvent_def planEvent_def inspects_def disrupts_def)
qed

end
