(* ===== verification/JobTargets.thy ===== *)
theory JobTargets imports JobOrder begin

text \<open>
  Whom the calls of a job's reconcile concern: what is cordoned is the node of the job as read in the same
  reconcile, what is evicted was listed on that node, and what is upgraded or configured answers at an
  address of that node.
\<close>

definition nodeAddress :: "patchJob \<Rightarrow> string \<Rightarrow> event list \<Rightarrow> bool" where
  "nodeAddress j a es \<longleftrightarrow> (\<exists>n. EvGetNode (jobNode j) (Inr n) \<in> set es \<and> GetNodeInternalIP n = Inr a)"

definition nodePod :: "patchJob \<Rightarrow> pod \<Rightarrow> event list \<Rightarrow> bool" where
  "nodePod j p es \<longleftrightarrow> (\<exists>ps. EvListPods (jobNode j) (Inr ps) \<in> set es \<and> p \<in> set ps)"

definition ownNode :: "patchJob \<Rightarrow> event \<Rightarrow> event list \<Rightarrow> bool" where
  "ownNode j e es = (case e of
      EvPatchNode b n _ \<Rightarrow> (if Unschedulable n then EvGetNode (jobNode j) (Inr b) \<in> set es else True)
    | EvEvictPod p _ \<Rightarrow> nodePod j p es
    | EvDeletePod p _ \<Rightarrow> nodePod j p es
    | EvTalosUpgrade a _ _ \<Rightarrow> nodeAddress j a es
    | EvTalosApplyConfig a _ _ _ \<Rightarrow> nodeAddress j a es
    | _ \<Rightarrow> True)"

lemma ownNode_undisrupted: "\<not> disrupts e \<Longrightarrow> ownNode j e es"
  by (cases e) (simp_all add: ownNode_def disrupts_def)

lemma accumulates_ownNode: "accumulates (ownNode j)"
  unfolding accumulates_def
proof (intro allI impI)
  fix e es es'
  assume "ownNode j e es" and "set es \<subseteq> set es'"
  then show "ownNode j e es'"
    by (cases e) (auto simp: ownNode_def nodePod_def nodeAddress_def split: if_splits)
qed

lemma own_quiet:
  "emits (\<lambda>e. \<not> disrupts e) m \<Longrightarrow> justified (ownNode j) h \<Longrightarrow> runs h m (\<lambda>_. justified (ownNode j))"
  by (rule justified_emits [OF accumulates_ownNode, where P = "\<lambda>e. \<not> disrupts e"]) (auto intro: ownNode_undisrupted)

lemma own_event: "justified (ownNode j) h \<Longrightarrow> \<not> disrupts e \<Longrightarrow> justified (ownNode j) (h @ [e])"
  by (rule justified_event [OF accumulates_ownNode]) (simp_all add: ownNode_undisrupted)

lemma own_noWrite:
  assumes "justified (ownNode j) h" and "list_all harmless es"
  shows "justified (ownNode j) (h @ es)"
  by (rule justified_extend [OF accumulates_ownNode assms(1)])
     (use assms(2) in \<open>auto simp: list_all_iff harmless_def intro: ownNode_undisrupted\<close>)

section \<open>Failures and reads do no harm\<close>

lemma undisrupted_simps [simp]:
  "\<not> disrupts (EvNow t)" "\<not> disrupts (EvTalosClose ro)" "\<not> disrupts (EvGetNode n rn)" "\<not> disrupts (EvGetPlan n rp)"
  "\<not> disrupts (EvGetSecret s s2 rs)" "\<not> disrupts (EvListPods n rl)" "\<not> disrupts (EvListNamespacedPods s n rl)"
  "\<not> disrupts (EvTalosDial xs tls ro)" "\<not> disrupts (EvTalosVersion an rv)" "\<not> disrupts (EvTalosExtensions an2 re)"
  "\<not> disrupts (EvTalosGetConfig an2 rc)"
  by (simp_all add: disrupts_def)

lemma undisrupted_patchStatus: "emits (\<lambda>e. \<not> disrupts e) (patchStatus E original modified)"
  by (rule emits_patchStatus) simp_all

lemma undisrupted_storeStatus: "emits (\<lambda>e. \<not> disrupts e) (storeStatus E original modified d)"
  unfolding storeStatus_def by (intro emits_rules undisrupted_patchStatus)

lemma undisrupted_failJob: "emits (\<lambda>e. \<not> disrupts e) (failJob E original modified msg err)"
  unfolding failJob_def by (intro emits_rules emits_UncordonNode undisrupted_storeStatus) simp_all

lemma undisrupted_retryOrFail: "emits (\<lambda>e. \<not> disrupts e) (retryOrFail E original modified msg err)"
  unfolding retryOrFail_def by (intro emits_rules undisrupted_failJob) simp_all

lemma undisrupted_retryStatus: "emits (\<lambda>e. \<not> disrupts e) (retryStatus E n original modified)"
  by (induction n; unfold retryStatus.simps; intro emits_rules undisrupted_patchStatus)

lemmas undisrupted = undisrupted_patchStatus undisrupted_storeStatus undisrupted_failJob undisrupted_retryOrFail
  undisrupted_retryStatus

section \<open>The three phases\<close>

text \<open>Inside \<open>withTalos\<close> every machine that is changed answers at the address that was resolved.\<close>

definition changesOnly :: "string \<Rightarrow> event \<Rightarrow> bool" where
  "changesOnly a e = (case e of
      EvTalosUpgrade b _ _ \<Rightarrow> b = a
    | EvTalosApplyConfig b _ _ _ \<Rightarrow> b = a
    | _ \<Rightarrow> \<not> disrupts e)"

lemma changesOnly_undisrupted: "\<not> disrupts e \<Longrightarrow> changesOnly a e"
  by (cases e) (simp_all add: changesOnly_def disrupts_def)

lemmas emits_changesOnly = emits_mono [OF _ changesOnly_undisrupted]

lemma own_withTalos:
  assumes "\<And>n a. emits (changesOnly a) (fn n a)" and "jobNode job = jobNode j"
  shows "runs [] (withTalos E original job fn) (\<lambda>_. justified (ownNode j))"
proof (rule runs_withTalos_setup [where I = "\<lambda>h. justified (ownNode j) h" and P = harmless])
  show "emits harmless (getTalosConfig E job)" "emits harmless (NewClient E c)" for c
    by (intro emits_rules; simp)+
next
  fix h n a
  assume h: "justified (ownNode j) h" "EvGetNode (jobNode job) (Inr n) \<in> set h" "GetNodeInternalIP n = Inr a"
  show "runs h (fn n a) (\<lambda>_. justified (ownNode j))"
  proof (rule justified_emits [OF accumulates_ownNode assms(1) _ h(1)])
    fix e es'
    assume "changesOnly a e" and "set h \<subseteq> set es'"
    then show "ownNode j e es'"
      using h assms(2) by (cases e) (auto simp: changesOnly_def ownNode_def nodeAddress_def disrupts_def)
  qed
qed (use own_quiet [OF undisrupted_retryOrFail] own_quiet [OF undisrupted_failJob] own_event own_noWrite in auto)

lemma own_startUpgrade: "runs [] (startUpgrade E j) (\<lambda>_. justified (ownNode j))"
  unfolding startUpgrade_def Let_def
  by (intro own_withTalos emits_rules undisrupted [THEN emits_changesOnly]) (simp_all add: changesOnly_def)

lemma own_startKubernetesUpgrade: "runs [] (startKubernetesUpgrade E j) (\<lambda>_. justified (ownNode j))"
  unfolding startKubernetesUpgrade_def Let_def
  by (intro own_withTalos emits_rules undisrupted [THEN emits_changesOnly]) (simp_all add: changesOnly_def)

lemma own_CordonNode:
  assumes "justified (ownNode j) h"
  shows "runs h (CordonNode E (jobNode j)) (\<lambda>_. justified (ownNode j))"
proof -
  have "justified (ownNode j) (h @ [EvGetNode (jobNode j) (Inr n), EvPatchNode n m r])" for n m r
    by (rule justified_extend [OF accumulates_ownNode assms]) (auto simp: ownNode_def)
  then show ?thesis
    unfolding CordonNode_def using assms own_event by (intro runs_rules) auto
qed

lemma own_DrainNode:
  assumes h: "justified (ownNode j) h"
  shows "runs h (DrainNode E (jobNode j) opts) (\<lambda>_. justified (ownNode j))"
proof -
  have evict: "runs (h @ [EvListPods (jobNode j) (Inr ps)]) (evictPods E opts False (filter shouldEvictPod ps))
      (\<lambda>_. justified (ownNode j))" for ps
  proof (rule justified_emits [OF accumulates_ownNode])
    show "emits (\<lambda>e. case e of EvEvictPod p _ \<Rightarrow> p \<in> set ps | EvDeletePod p _ \<Rightarrow> p \<in> set ps | _ \<Rightarrow> False)
        (evictPods E opts False (filter shouldEvictPod ps))"
      by (rule emits_evictPods) simp_all
    show "ownNode j e es'" if "case e of EvEvictPod p _ \<Rightarrow> p \<in> set ps | EvDeletePod p _ \<Rightarrow> p \<in> set ps | _ \<Rightarrow> False"
      and "set (h @ [EvListPods (jobNode j) (Inr ps)]) \<subseteq> set es'" for e es'
      using that by (cases e) (auto simp: ownNode_def nodePod_def)
  qed (rule own_event [OF h], simp)
  show ?thesis
    unfolding DrainNode_def listPods_def
    by (intro runs_rules) (use h own_event evict in auto)
qed

lemma own_startDrain: "runs [] (startDrain E j) (\<lambda>_. justified (ownNode j))"
proof -
  have plan: "emits harmless (getPatchPlan E j)" by (intro emits_rules) simp
  have rest: "runs h (case d of
        Inl err \<Rightarrow> if errIs err ErrUnmanagedPods then failJob E j job ''drain refused'' err
          else retryOrFail E j job ''failed to drain node'' err
      | Inr True \<Rightarrow> do {
          now \<leftarrow> timeNow E;
          (if now - start > opt_Timeout opts then
             failJob E j job ''drain timed out''
               (TextError (''pods still blocked by PodDisruptionBudgets after '' @ durString (opt_Timeout opts)))
           else storeStatus E j (setStatus job (\<lambda>s. s\<lparr>js_Message := ''drain blocked by PodDisruptionBudget, retrying''\<rparr>))
                  requeueForDrainCheck)
        }
      | Inr False \<Rightarrow> storeStatus E j (setStatus job
          (\<lambda>s. s\<lparr>js_Phase := PatchJobPhaseDraining, js_Message := ''draining node''\<rparr>)) requeueForDrainCheck)
      (\<lambda>_. justified (ownNode j))" if "justified (ownNode j) h" for h d job start opts
    using that by (intro own_quiet) (auto intro!: emits_rules undisrupted split: sum.splits bool.splits)
  have planned: "runs [] (getPatchPlan E j) (\<lambda>_. justified (ownNode j))"
    using own_noWrite [of j "[]"] by (intro runs_emits [OF plan]) simp
  show ?thesis
    unfolding startDrain_def Let_def
    by (rule runs_bind, rule runs_mono [OF planned], intro runs_sum own_quiet [OF undisrupted_retryOrFail], assumption,
        rule runs_bind, rule runs_mono [OF own_CordonNode], assumption,
        intro runs_option runs_bind [of _ "DrainNode E n opts" for n opts] runs_mono [OF own_DrainNode rest] runs_rules
          own_quiet [OF undisrupted_retryOrFail]) (auto intro: own_event)
qed

lemma own_reconcilePhase: "runs [] (reconcilePhase E j) (\<lambda>_. justified (ownNode j))"
proof (cases "disruptivePhase (jobPhase j)")
  case True
  then show ?thesis
    using own_startDrain own_startUpgrade own_startKubernetesUpgrade
    by (auto simp: disruptivePhase_def reconcilePhase_def)
next
  case False
  show ?thesis
    by (rule own_quiet [OF emits_undisrupted [OF emits_reconcilePhase False]]) simp
qed

end
