(* ===== verification/ClusterProperties.thy ===== *)
theory ClusterProperties imports Cluster JobTargets LifeProperties begin

text \<open>
  Properties of the two controllers at work together, their calls interleaved in any order.
\<close>

section \<open>Concrete inputs\<close>

text \<open>
  An outside in which the first job is found new, or, once the server knows a node named \<open>pending\<close>,
  ready to drain.
\<close>

definition pendingJob :: patchJob where
  "pendingJob = firstJob\<lparr>job_Status := (job_Status firstJob)\<lparr>js_Phase := PatchJobPhasePending\<rparr>\<rparr>"

definition clusterEnv :: "(fixVersion, fixState) env" where
  "clusterEnv = liveEnv\<lparr>op_getJob := (\<lambda>_ s. (Inr (if s ''pending'' = None then firstJob else pendingJob), s))\<rparr>"

definition pendingWorld :: "fixState world" where
  "pendingWorld = fixWorld\<lparr>server := [''pending'' \<mapsto> fixNode ''c1'' True]\<rparr>"

lemma clusterRollout: "Resolve clusterEnv [fixNode ''c1'' True, fixNode ''w1'' False] fixSpec = Inr smallRollout"
  by code_simp

lemma cluster_ownerOnly: "ownerOnly clusterEnv"
  by (auto simp: ownerOnly_def clusterEnv_def liveEnv_def fix_ops)

lemma clusterJob_created:
  "(case calls (snd (run_state (reconcileRollout clusterEnv readyPlan smallRollout) fixWorld)) of
      EvListJobs a (Inr js) # es \<Rightarrow> a = ''plan'' \<and> js = [] \<and> createdJobs es = [firstJob] | _ \<Rightarrow> False)"
  by (simp add: plan_evaluation clusterEnv_def liveEnv_def)

text \<open>Whole runs as sequences of calls.\<close>

lemma clusterMoveI: "clusterStep E r c a c' \<Longrightarrow> clusterMove E r c c'"
  by (auto simp: clusterMove_def)

lemma move_then: "clusterStep E r c a c' \<Longrightarrow> (clusterMove E r)\<^sup>*\<^sup>* c' d \<Longrightarrow> (clusterMove E r)\<^sup>*\<^sup>* c d"
  by (rule converse_rtranclp_into_rtranclp [of "clusterMove E r", OF clusterMoveI])

lemma plan_run:
  "planRun c = Some es \<Longrightarrow> distinct (map job_Name (stored c @ createdJobs es)) \<Longrightarrow>
   (clusterMove E r)\<^sup>*\<^sup>* c (c\<lparr>stored := stored c @ createdJobs es, planRun := Some []\<rparr>)"
proof (induction es arbitrary: c)
  case Nil
  then have "c\<lparr>planRun := Some []\<rparr> = c" by (cases c) simp
  then show ?case by simp
next
  case (Cons e es)
  let ?c = "c\<lparr>stored := stored c @ createdJobs [e], planRun := Some es\<rparr>"
  have split: "createdJobs (e # es) = createdJobs [e] @ createdJobs es"
    using createdJobs_append [of "[e]" es] by simp
  have names: "distinct (map job_Name ((stored c @ createdJobs [e]) @ createdJobs es))"
    using Cons.prems(2) split by (simp del: createdJobs.simps)
  then have "distinct (map job_Name (stored c @ createdJobs [e]))" by (simp only: map_append distinct_append)
  then have step: "clusterStep E r c (ByPlan e) ?c"
    using Cons.prems(1) by (intro clusterStep.plan_calls) (simp_all only: simp_thms)
  have "(clusterMove E r)\<^sup>*\<^sup>* ?c (?c\<lparr>stored := stored ?c @ createdJobs es, planRun := Some []\<rparr>)"
    by (rule Cons.IH) (use names in \<open>simp_all del: createdJobs.simps map_append distinct_append append_assoc\<close>)
  also have "?c\<lparr>stored := stored ?c @ createdJobs es, planRun := Some []\<rparr> =
      c\<lparr>stored := stored c @ createdJobs (e # es), planRun := Some []\<rparr>"
    unfolding split by (simp del: createdJobs.simps)
  finally show ?case by (rule move_then [OF step])
qed

lemma job_run:
  "jobRuns c = (j, es @ rest) # others \<Longrightarrow> (clusterMove E r)\<^sup>*\<^sup>* c (c\<lparr>jobRuns := (j, rest) # others\<rparr>)"
proof (induction es arbitrary: c)
  case Nil
  then have "c\<lparr>jobRuns := (j, rest) # others\<rparr> = c" by (cases c) simp
  then show ?case by simp
next
  case (Cons e es)
  let ?c = "c\<lparr>jobRuns := (j, es @ rest) # others\<rparr>"
  have "clusterStep E r c (ByJob j e) (c\<lparr>stored := stored c, jobRuns := [] @ (j, es @ rest) # others\<rparr>)"
    by (rule clusterStep.job_calls) (use Cons.prems in simp_all)
  moreover have "c\<lparr>stored := stored c, jobRuns := [] @ (j, es @ rest) # others\<rparr> = ?c" by (cases c) simp
  moreover have "(clusterMove E r)\<^sup>*\<^sup>* ?c (?c\<lparr>jobRuns := (j, rest) # others\<rparr>)" by (rule Cons.IH) simp
  ultimately show ?case using move_then by simp
qed

section \<open>Capacity\<close>


text \<open>
  C24: What a job's reconcile takes away, it takes from its own node, and before it writes the job's status:
  it cordons the job's node as read in the same reconcile, evicts and deletes pods that were listed on that
  node, starts upgrades and changes configurations at the address of that node; none of this comes
  after a write of the status, and no status is written after one that ends the job.
\<close>

theorem disruption_hits_own_node:
  "runs [] (ReconcileJob E name) (\<lambda>_ es. case es of
      EvGetJob _ (Inr j) # rest \<Rightarrow> justified (ownNode j) rest \<and> sorted_wrt inOrder rest
    | _ \<Rightarrow> True)"
proof -
  have own: "runs ([] @ [e]) (reconcilePhase E j) (\<lambda>_ h'. \<exists>es. h' = [e] @ es \<and> justified (ownNode j) es)" for e j
    by (rule runs_frame [OF own_reconcilePhase]) simp
  have read: "r = Inr j \<Longrightarrow> runs ([] @ [EvGetJob name r]) (reconcilePhase E j) (\<lambda>_ es. case es of
      EvGetJob _ (Inr j) # rest \<Rightarrow> justified (ownNode j) rest \<and> sorted_wrt inOrder rest
    | _ \<Rightarrow> True)" for r j
    by (rule runs_mono [OF runs_conj [OF ordered_runs [OF ordered_reconcilePhase] own]]) auto
  show ?thesis unfolding ReconcileJob_def by (intro runs_rules runs_mono [OF read]) auto
qed

lemma firstJob_initialised:
  "(case calls (snd (run_state (ReconcileJob clusterEnv (job_Name firstJob)) fixWorld)) of
      EvGetJob n (Inr j) # es \<Rightarrow> n = job_Name firstJob \<and> j = firstJob \<and> list_ex (storesPhase PatchJobPhasePending) es
    | _ \<Rightarrow> False)"
  by code_simp

lemma pendingJob_disrupts:
  "(case calls (snd (run_state (ReconcileJob clusterEnv (job_Name pendingJob)) pendingWorld)) of
      EvGetJob n (Inr j) # es \<Rightarrow> n = job_Name pendingJob \<and> j = pendingJob \<and> list_ex disrupts es
    | _ \<Rightarrow> False)"
  by code_simp

text \<open>The run of one job's reconcile up to a call of interest, from a cluster that does nothing else.\<close>

lemma reaches_call:
  assumes "case calls (snd (run_state (ReconcileJob E (job_Name j)) w)) of
      EvGetJob n (Inr k) # es \<Rightarrow> n = job_Name j \<and> k = j \<and> list_ex P es
    | _ \<Rightarrow> False" and w: "calls w = []"
  obtains e ys where "P e" and "(clusterMove E r)\<^sup>*\<^sup>* \<lparr>stored = [j], planRun = None, jobRuns = []\<rparr>
    \<lparr>stored = [j], planRun = None, jobRuns = [(j, e # ys)]\<rparr>"
proof -
  obtain es where es: "calls (snd (run_state (ReconcileJob E (job_Name j)) w)) = calls w @ EvGetJob (job_Name j) (Inr j) # es"
    and "list_ex P es"
    using assms by (auto split: list.splits event.splits sum.splits)
  then obtain xs e ys where split: "es = xs @ e # ys" "P e" by (metis list_ex_iff split_list)
  let ?c = "\<lparr>stored = [j], planRun = None, jobRuns = []\<rparr>" and ?d = "\<lparr>stored = [j], planRun = None, jobRuns = [(j, es)]\<rparr>"
  have "clusterStep E r ?c Silent (?c\<lparr>jobRuns := (j, es) # jobRuns ?c\<rparr>)"
    by (rule clusterStep.job_read [OF _ _ es]) simp_all
  then have start: "clusterStep E r ?c Silent ?d" by simp
  have "(clusterMove E r)\<^sup>*\<^sup>* ?d (?d\<lparr>jobRuns := [(j, e # ys)]\<rparr>)"
    by (rule job_run [of _ _ xs]) (simp add: split)
  then have "(clusterMove E r)\<^sup>*\<^sup>* ?d \<lparr>stored = [j], planRun = None, jobRuns = [(j, e # ys)]\<rparr>" by simp
  then show ?thesis using that [OF split(2) move_then [OF start]] by blast
qed

lemma cluster_pending:
  "(clusterMove clusterEnv smallRollout)\<^sup>*\<^sup>* emptyCluster \<lparr>stored = [pendingJob], planRun = None, jobRuns = []\<rparr>"
proof -
  let ?M = "(clusterMove clusterEnv smallRollout)\<^sup>*\<^sup>*"
  let ?first = "\<lparr>stored = [firstJob], planRun = None, jobRuns = []\<rparr>"
  obtain es where es: "calls (snd (run_state (reconcileRollout clusterEnv readyPlan smallRollout) fixWorld)) =
      calls fixWorld @ EvListJobs (plan_Name readyPlan) (Inr []) # es" and created: "createdJobs es = [firstJob]"
    using clusterJob_created
    by (auto simp: fixWorld_def readyPlan_def fixPlan_def split: list.splits event.splits sum.splits)
  let ?c = "emptyCluster\<lparr>planRun := Some es\<rparr>"
  have "clusterStep clusterEnv smallRollout emptyCluster Silent ?c"
    by (rule clusterStep.plan_lists [OF _ es]) (simp_all add: emptyCluster_def)
  moreover have "?M ?c (?c\<lparr>stored := stored ?c @ createdJobs es, planRun := Some []\<rparr>)"
    by (rule plan_run) (simp_all add: created emptyCluster_def)
  ultimately have "?M emptyCluster \<lparr>stored = [firstJob], planRun = Some [], jobRuns = []\<rparr>"
    using move_then by (simp add: created emptyCluster_def)
  moreover have "clusterMove clusterEnv smallRollout \<lparr>stored = [firstJob], planRun = Some [], jobRuns = []\<rparr> ?first"
    using clusterMoveI [OF clusterStep.plan_ends [of _ _ "\<lparr>stored = [firstJob], planRun = Some [], jobRuns = []\<rparr>"]] by simp
  ultimately have "?M emptyCluster ?first" by (rule rtranclp.rtrancl_into_rtrancl)
  moreover obtain e ys where e: "storesPhase PatchJobPhasePending e"
    and "?M ?first \<lparr>stored = [firstJob], planRun = None, jobRuns = [(firstJob, e # ys)]\<rparr>"
    by (rule reaches_call [OF firstJob_initialised]) (simp add: fixWorld_def)
  moreover have "clusterStep clusterEnv smallRollout \<lparr>stored = [firstJob], planRun = None, jobRuns = [(firstJob, e # ys)]\<rparr>
      (ByJob firstJob e) (\<lparr>stored = [firstJob], planRun = None, jobRuns = [(firstJob, e # ys)]\<rparr>
        \<lparr>stored := [pendingJob], jobRuns := [] @ (firstJob, ys) # []\<rparr>)"
  proof (rule clusterStep.job_calls)
    obtain b m rj where "e = EvPatchJobStatus b m rj" "jobPhase m = PatchJobPhasePending" using storesPhaseE [OF e] by blast
    then have "statusWritten e (job_Name firstJob) [firstJob] [pendingJob]"
      unfolding statusWritten_def pendingJob_def
      by (intro exI [of _ b] exI [of _ m] exI [of _ rj] exI [of _ "[]"] exI [of _ firstJob]
          exI [of _ "(job_Status firstJob)\<lparr>js_Phase := PatchJobPhasePending\<rparr>"]) simp
    then show "[pendingJob] = stored \<lparr>stored = [firstJob], planRun = None, jobRuns = [(firstJob, e # ys)]\<rparr> \<or>
      statusWritten e (job_Name firstJob) (stored \<lparr>stored = [firstJob], planRun = None, jobRuns = [(firstJob, e # ys)]\<rparr>) [pendingJob]"
      by simp
  qed simp
  then have "clusterMove clusterEnv smallRollout \<lparr>stored = [firstJob], planRun = None, jobRuns = [(firstJob, e # ys)]\<rparr>
      \<lparr>stored = [pendingJob], planRun = None, jobRuns = [(firstJob, ys)]\<rparr>"
    using clusterMoveI by fastforce
  moreover have "clusterStep clusterEnv smallRollout \<lparr>stored = [pendingJob], planRun = None, jobRuns = [(firstJob, ys)]\<rparr> Silent
      (\<lparr>stored = [pendingJob], planRun = None, jobRuns = [(firstJob, ys)]\<rparr>\<lparr>jobRuns := [] @ []\<rparr>)"
    by (rule clusterStep.job_ends [of _ "[]" "(firstJob, ys)"]) simp
  then have "clusterMove clusterEnv smallRollout \<lparr>stored = [pendingJob], planRun = None, jobRuns = [(firstJob, ys)]\<rparr>
      \<lparr>stored = [pendingJob], planRun = None, jobRuns = []\<rparr>"
    using clusterMoveI by fastforce
  ultimately show ?thesis by (meson rtranclp.rtrancl_into_rtrancl rtranclp_trans)
qed


end
