(* ===== verification/RolloutLife.thy ===== *)
theory RolloutLife imports RolloutMachine PlanProgress begin

text \<open>
  How a rollout goes on: what is left of its promises when finished jobs are deleted at any time, that its
  progress is bounded, and that it does not stand still while nodes wait.
\<close>

section \<open>Deletion at any time\<close>

text \<open>
  As \<open>storeStep\<close>, but a finished job may be deleted (by a user, as the message of a paused plan asks
  for) while others are running.
\<close>

inductive freeStep :: "('v, 's) env \<Rightarrow> rollout \<Rightarrow> patchJob list \<Rightarrow> patchJob list \<Rightarrow> bool" for E r where
  moved: "storeStep E r jobs jobs' \<Longrightarrow> freeStep E r jobs jobs'"
| deleted: "IsTerminal (jobPhase j) \<Longrightarrow> freeStep E r (xs @ j # ys) (xs @ ys)"

text \<open>The abstract machine: a finished node may be put back at any time.\<close>

inductive freeRollout :: "rollout \<Rightarrow> rolloutState \<Rightarrow> rolloutState \<Rightarrow> bool" for r where
  stepped: "rolloutStep r s t \<Longrightarrow> freeRollout r s t"
| forgotten: "s n = Finished \<Longrightarrow> freeRollout r s (s(n := Waiting))"

lemma sound_freeStep:
  assumes sound: "soundStore E r jobs" and step: "freeStep E r jobs jobs'"
  shows "soundStore E r jobs' \<and> (freeRollout r)\<^sup>*\<^sup>* (progressOf jobs) (progressOf jobs')"
  using step
proof (cases rule: freeStep.cases)
  case moved
  have "(rolloutStep r)\<^sup>*\<^sup>* s t \<Longrightarrow> (freeRollout r)\<^sup>*\<^sup>* s t" for s t
    by (induction rule: rtranclp_induct) (auto intro: rtranclp.rtrancl_into_rtrancl freeRollout.stepped)
  then show ?thesis using sound_storeStep [OF sound moved] by blast
next
  case (deleted j xs ys)
  have "distinct (map jobNode (xs @ j # ys))" using sound deleted by (simp add: soundStore_def)
  then have "progressOf jobs (jobNode j) = Finished" using deleted progressOf_at [of jobs j] by simp
  then have "freeRollout r (progressOf jobs) ((progressOf jobs)(jobNode j := Waiting))" by (rule freeRollout.forgotten)
  then show ?thesis using sound deleted removed_step [of E r xs j ys] by auto
qed

interpretation free: refinement "freeStep E r" "soundStore E r" "freeRollout r" progressOf for E r
  by unfold_locales (use sound_freeStep in blast)+

text \<open>What is left: the limit of each group (but not that only one group runs).\<close>

definition withinLimits :: "rollout \<Rightarrow> rolloutState \<Rightarrow> bool" where
  "withinLimits r s \<longleftrightarrow> list_all (\<lambda>g. inProgressIn s g = [] \<or>
     int (length (inProgressIn s g)) \<le> grp_Concurrency g) (rollout_Groups r)"

lemma start_within:
  assumes distinct: "distinct (map node_Name (Nodes r))" and current: "currentGroup r s = Some g"
    and ns: "set ns \<subseteq> node_Name ` set (grp_Nodes g)"
    and room: "int (length (inProgressIn s g)) + int (length ns) \<le> grp_Concurrency g"
    and h: "h \<in> set (rollout_Groups r)" and s: "inProgressIn s h = [] \<or> int (length (inProgressIn s h)) \<le> grp_Concurrency h"
  shows "inProgressIn (\<lambda>n. if n \<in> set ns then InProgress else s n) h = [] \<or>
    int (length (inProgressIn (\<lambda>n. if n \<in> set ns then InProgress else s n) h)) \<le> grp_Concurrency h"
proof (cases "h = g")
  case True
  let ?t = "\<lambda>n. if n \<in> set ns then InProgress else s n"
  have "length (filter (\<lambda>n. node_Name n \<in> set ns) (grp_Nodes h)) \<le> length ns"
    by (rule length_filter_names [OF distinct_in_group [OF distinct [unfolded Nodes_def] h]])
  moreover have "inProgressIn ?t h = filter (\<lambda>n. s (node_Name n) = InProgress \<or> node_Name n \<in> set ns) (grp_Nodes h)"
    unfolding inProgressIn_def by (rule filter_cong) auto
  ultimately have "length (inProgressIn ?t h) \<le> length (inProgressIn s h) + length ns"
    using length_filter_either [of "\<lambda>n. s (node_Name n) = InProgress" "\<lambda>n. node_Name n \<in> set ns" "grp_Nodes h"]
    by (simp add: inProgressIn_def)
  then show ?thesis using room True by simp
next
  case False
  have g: "g \<in> set (rollout_Groups r)" using current by (auto simp: currentGroup_def find_Some_iff)
  have "node_Name n \<notin> set ns" if "n \<in> set (grp_Nodes h)" for n
    using same_group [OF distinct [unfolded Nodes_def] g h] that False ns by (metis (no_types, lifting) image_iff subsetD)
  then have "inProgressIn (\<lambda>n. if n \<in> set ns then InProgress else s n) h = inProgressIn s h"
    unfolding inProgressIn_def by (intro filter_cong) auto
  then show ?thesis using s by simp
qed

lemma fewer_within:
  assumes "withinLimits r s" and "\<And>n. t n = InProgress \<Longrightarrow> s n = InProgress"
  shows "withinLimits r t"
proof -
  have "length (inProgressIn t g) \<le> length (inProgressIn s g)" for g
    unfolding inProgressIn_def using assms(2) by (rule length_filter_mono)
  then have "inProgressIn t g = [] \<or> int (length (inProgressIn t g)) \<le> grp_Concurrency g"
    if "inProgressIn s g = [] \<or> int (length (inProgressIn s g)) \<le> grp_Concurrency g" for g
    using that by (metis le_zero_eq length_0_conv of_nat_le_iff order_trans)
  then show ?thesis using assms(1) by (auto simp: withinLimits_def list_all_iff)
qed

lemma withinLimits_step:
  assumes "distinct (map node_Name (Nodes r))" and "withinLimits r s" and "freeRollout r s t"
  shows "withinLimits r t"
  using assms(3)
proof (cases rule: freeRollout.cases)
  case stepped
  then show ?thesis
  proof (cases rule: rolloutStep.cases)
    case (start g ns)
    then show ?thesis
      using assms(2) start_within [OF assms(1) start(2,3,5)] by (auto simp: withinLimits_def list_all_iff)
  qed (rule fewer_within [OF assms(2)], simp split: if_splits)+
next
  case (forgotten n)
  show ?thesis by (rule fewer_within [OF assms(2)]) (use forgotten in \<open>simp split: if_splits\<close>)
qed

lemma free_withinLimits:
  assumes "ownerOnly E" and "distinct (map node_Name (Nodes r))" and "(freeStep E r)\<^sup>*\<^sup>* [] jobs"
  shows "withinLimits r (progressOf jobs)"
proof (rule free.reach_invariant [where P = "withinLimits r", OF _ _ empty_sound assms(3)])
  show "withinLimits r (progressOf [])" by (simp add: withinLimits_def inProgressIn_def list_all_iff)
qed (use assms withinLimits_step in auto)

section \<open>Bounded progress\<close>

text \<open>
  Without deletions every change of the progress counts: a node moves from waiting to in progress to
  finished, and nodes outside the rollout do not move at all.
\<close>

fun progressRank :: "progress \<Rightarrow> nat" where
  "progressRank Waiting = 0"
| "progressRank InProgress = 1"
| "progressRank Finished = 2"

definition rolloutRank :: "rollout \<Rightarrow> rolloutState \<Rightarrow> nat" where
  "rolloutRank r s = sum_list (map (\<lambda>n. progressRank (s (node_Name n))) (Nodes r))"

definition keepingStep :: "('v, 's) env \<Rightarrow> rollout \<Rightarrow> patchJob list \<Rightarrow> patchJob list \<Rightarrow> bool" where
  "keepingStep E r jobs jobs' \<longleftrightarrow> storeStep E r jobs jobs' \<and> length jobs \<le> length jobs'"

definition progressMove :: "('v, 's) env \<Rightarrow> rollout \<Rightarrow> rolloutState \<Rightarrow> rolloutState \<Rightarrow> bool" where
  "progressMove E r s t \<longleftrightarrow>
     (\<exists>jobs jobs'. soundStore E r jobs \<and> keepingStep E r jobs jobs' \<and> s = progressOf jobs \<and> t = progressOf jobs')"

lemma rank_le: "rolloutRank r s \<le> 2 * Total r"
proof -
  have two: "progressRank p \<le> 2" for p by (cases p) simp_all
  have "sum_list (map (\<lambda>n. progressRank (s (node_Name n))) ns) \<le> 2 * length ns" for ns
    by (induction ns) (use two in \<open>auto intro: order_trans [OF add_mono]\<close>)
  moreover have "length (Nodes r) = Total r" by (simp add: Nodes_def Total_def length_concat comp_def)
  ultimately show ?thesis by (metis rolloutRank_def)
qed

lemma rank_rises:
  assumes "\<And>n. progressRank (s n) \<le> progressRank (t n)" and "m \<in> set (Nodes r)"
    and "s (node_Name m) \<noteq> t (node_Name m)"
  shows "rolloutRank r s < rolloutRank r t"
proof -
  have "progressRank p = progressRank q \<Longrightarrow> p = q" for p q by (cases p; cases q) simp_all
  then have less: "progressRank (s (node_Name m)) < progressRank (t (node_Name m))"
    using assms(1,3) by (metis le_neq_implies_less)
  obtain xs ys where "Nodes r = xs @ m # ys" using assms(2) by (metis split_list)
  moreover have le: "sum_list (map (\<lambda>n. progressRank (s (node_Name n))) zs) \<le> sum_list (map (\<lambda>n. progressRank (t (node_Name n))) zs)" for zs
    by (rule sum_list_mono) (rule assms(1))
  ultimately show ?thesis using less le [of xs] le [of ys] by (simp add: rolloutRank_def)
qed

lemma sound_confined: "soundStore E r jobs \<Longrightarrow> n \<notin> node_Name ` set (Nodes r) \<Longrightarrow> progressOf jobs n = Waiting"
  by (rule progressOf_missing) (force simp: soundStore_def list_all_iff jobInRollout_def Nodes_def)

lemma keeping_grows:
  assumes sound: "soundStore E r jobs" and step: "keepingStep E r jobs jobs'"
  shows "progressRank (progressOf jobs n) \<le> progressRank (progressOf jobs' n)"
proof -
  have d: "distinct (map jobNode jobs)" using sound by (simp add: soundStore_def)
  have sound': "soundStore E r jobs'" using sound_storeStep [OF sound] step by (simp add: keepingStep_def)
  have "storeStep E r jobs jobs'" using step by (simp add: keepingStep_def)
  then show ?thesis
  proof (cases rule: storeStep.cases)
    case (reconciled plan w listed es created)
    have d': "distinct (map jobNode (jobs @ created))" using sound' reconciled(1) by (simp add: soundStore_def)
    show ?thesis
    proof (cases "n \<in> jobNode ` set jobs")
      case True
      then have "progressOf (jobs @ created) n = progressOf jobs n"
        using d' by (intro progressOf_same [OF d d']) (auto simp: rev_image_eqI)
      then show ?thesis by (simp add: reconciled(1))
    qed (simp add: progressOf_missing)
  next
    case (progressed j xs ys st)
    show ?thesis using status_step(2) [of E r xs j ys st] status_step(3) [of E r xs j ys] sound progressed by simp
  next
    case (removed xs j ys)
    then show ?thesis using step by (simp add: keepingStep_def)
  qed
qed

interpretation growing: ranked_machine "progressMove E r" "rolloutRank r" "2 * Total r" for E r
proof
  fix s t
  assume "progressMove E r s t"
  then obtain jobs jobs' where sound: "soundStore E r jobs" and step: "keepingStep E r jobs jobs'"
    and s: "s = progressOf jobs" and t: "t = progressOf jobs'" unfolding progressMove_def by blast
  have sound': "soundStore E r jobs'" using sound_storeStep [OF sound] step by (simp add: keepingStep_def)
  show "s = t \<or> rolloutRank r s < rolloutRank r t"
  proof (cases "s = t")
    case False
    then obtain n where "s n \<noteq> t n" by auto
    then have "n \<in> node_Name ` set (Nodes r)"
      using sound_confined [OF sound, of n] sound_confined [OF sound', of n] s t by metis
    then show ?thesis
      using \<open>s n \<noteq> t n\<close> keeping_grows [OF sound step] unfolding s t by (auto intro: rank_rises)
  qed simp
qed (rule rank_le)

lemma path_progress:
  "isPath (keepingStep E r) (jobs # stores) \<Longrightarrow> soundStore E r jobs \<Longrightarrow>
   isPath (progressMove E r) (map progressOf (jobs # stores))"
proof (induction stores arbitrary: jobs)
  case (Cons jobs' stores)
  then have step: "keepingStep E r jobs jobs'" by simp
  then have "soundStore E r jobs'" using sound_storeStep [OF Cons.prems(2)] by (simp add: keepingStep_def)
  then show ?case using Cons step by (auto simp: progressMove_def)
qed simp

section \<open>A rollout does not stand still\<close>

text \<open>When all jobs have ended no Lease counts, and the first unfinished group has a node without a job.\<close>

lemma ended_leaseCount:
  assumes "list_all (\<lambda>j. IsTerminal (jobPhase j)) jobs" and "distinct (map job_Name jobs)"
  shows "leaseCount r jobs ls g = 0"
proof -
  have "heldBy (indexByName jobs) l = None" for l
  proof (cases "map_of (indexByName jobs) (lease_Name l)")
    case (Some j)
    then have "j \<in> set jobs" using indexByName_map_of [OF assms(2)] by (auto simp: find_Some_iff)
    then show ?thesis using assms(1) Some by (simp add: heldBy_def list_all_iff)
  qed (simp add: heldBy_def)
  moreover have "\<not> needsSlot j" if "j \<in> set jobs" for j using that assms(1) by (simp add: needsSlot_def list_all_iff)
  ultimately show ?thesis by (simp add: leaseCount_def heldIn_def filter_empty_conv)
qed

lemma ended_startable:
  assumes "firstUnfinished r (indexJobs jobs) = Some g" and "list_all (\<lambda>j. IsTerminal (jobPhase j)) jobs"
    and "1 \<le> grp_Concurrency g" and "countOf active (grp_Name g) = 0"
  shows "startable (indexJobs jobs) active g \<noteq> []"
    and "set (startable (indexJobs jobs) active g) \<subseteq> set (grp_Nodes g)"
proof -
  have "\<not> groupFinished (indexJobs jobs) g" using assms(1) by (auto simp: firstUnfinished_def find_Some_iff)
  then obtain n where n: "n \<in> set (grp_Nodes g)"
    "\<not> (case map_of (indexJobs jobs) (node_Name n) of None \<Rightarrow> False | Some job \<Rightarrow> IsTerminal (jobPhase job))"
    by (auto simp: groupFinished_def list_all_iff)
  then have "map_of (indexJobs jobs) (node_Name n) = None"
    using assms(2) indexJobs_Some [of jobs "node_Name n"] by (auto simp: list_all_iff split: option.splits)
  then have "pendingNodes (indexJobs jobs) g \<noteq> []" using n(1) by (auto simp: pendingNodes_def filter_empty_conv)
  then show "startable (indexJobs jobs) active g \<noteq> []" using assms(3,4) by (simp add: startable_def)
  show "set (startable (indexJobs jobs) active g) \<subseteq> set (grp_Nodes g)"
    by (auto simp: startable_def pendingNodes_def dest: in_set_takeD)
qed

text \<open>A worker held back behind a finished control plane means that a control plane node has failed.\<close>

lemma held_back_by_failure:
  assumes first: "CheckControlPlaneFirst r = None" and g: "firstUnfinished r jobsByNode = Some g"
    and n: "n \<in> set (grp_Nodes g)" "\<not> IsControlPlane n" and some: "\<not> allNodesCompleted (ControlPlaneNodes r) jobsByNode"
  shows "\<exists>m\<in>set (ControlPlaneNodes r). \<exists>j. map_of jobsByNode (node_Name m) = Some j \<and> jobPhase j = PatchJobPhaseFailed"
proof -
  obtain m where m: "m \<in> set (ControlPlaneNodes r)"
    "\<not> (case map_of jobsByNode (node_Name m) of None \<Rightarrow> False | Some job \<Rightarrow> jobPhase job = PatchJobPhaseCompleted)"
    using some by (auto simp: allNodesCompleted_def list_all_iff)
  then obtain h where h: "h \<in> set (rollout_Groups r)" "m \<in> set (grp_Nodes h)" "IsControlPlane m"
    by (auto simp: ControlPlaneNodes_def)
  obtain k where k: "k < length (rollout_Groups r)" "g = rollout_Groups r ! k"
    "\<And>i. i < k \<Longrightarrow> groupFinished jobsByNode (rollout_Groups r ! i)"
    using g by (auto simp: firstUnfinished_def find_Some_iff)
  obtain i where i: "i < length (rollout_Groups r)" "h = rollout_Groups r ! i" using h(1) by (metis in_set_conv_nth)
  have "hasControlPlane (rollout_Groups r ! i)" "hasWorker (rollout_Groups r ! k)"
    using h n i k by (auto simp: hasControlPlane_def hasWorker_def list_ex_iff)
  then have "i < k" using first i(1) k(1) unfolding CheckControlPlaneFirst_iff by blast
  then have "groupFinished jobsByNode h" using k(3) i(2) by simp
  then obtain j where "map_of jobsByNode (node_Name m) = Some j" "IsTerminal (jobPhase j)"
    using h(2) by (auto simp: groupFinished_def list_all_iff split: option.splits)
  then show ?thesis using m by (auto simp: IsTerminal_def)
qed

text \<open>
  The part of a reconcile that schedules: Leases first, then the nodes. When all jobs have ended and a node
  waits, it starts something, or has a reason that is not of its own making.
\<close>

definition mayWait :: "patchPlan \<Rightarrow> rollout \<Rightarrow> patchJob list \<Rightarrow> event list \<Rightarrow> bool" where
  "mayWait plan r jobs es \<longleftrightarrow>
     (\<exists>now. EvNow now \<in> set es \<and> now < lastActivity plan (indexJobs jobs) + DelayBetweenNodes (plan_Spec plan)) \<or>
     ((\<exists>p. version plan es p \<and> KubernetesVersion (Target (plan_Spec p)) \<noteq> '''') \<and>
      (case CheckControlPlaneFirst r of
         Some _ \<Rightarrow> True
       | None \<Rightarrow> list_ex (\<lambda>n. list_ex (\<lambda>j. jobNode j = node_Name n \<and> jobPhase j = PatchJobPhaseFailed) jobs)
                   (ControlPlaneNodes r)))"

lemma ended_schedule:
  assumes unfinished: "firstUnfinished r (indexJobs jobs) = Some g" and conc: "1 \<le> grp_Concurrency g"
    and ended: "list_all (\<lambda>j. IsTerminal (jobPhase j)) jobs" and idle: "countOf active (grp_Name g) = 0"
  shows "runs [] (scheduleNodes E plan r (indexJobs jobs) active)
    (\<lambda>res es. snd res \<noteq> None \<or> createdJobs es \<noteq> [] \<or> mayWait plan r jobs es)"
proof -
  let ?m = "indexJobs jobs"
  note ready = ended_startable [OF unfinished ended conc idle]
  have "mayWait plan r jobs es"
    if A: "snd res = None \<longrightarrow> (case firstUnfinished r ?m of
        None \<Rightarrow> createdJobs es = []
      | Some g \<Rightarrow> (\<exists>now. es = [EvNow now] \<and> now < lastActivity plan ?m + DelayBetweenNodes (plan_Spec plan)) \<or>
          startsAll plan r ?m es (startable ?m active g) (length (createdJobs es)))"
      and res: "snd res = None" and none: "createdJobs es = []" for res :: ctrlResult and es
  proof -
    consider now where "es = [EvNow now]" "now < lastActivity plan ?m + DelayBetweenNodes (plan_Spec plan)"
      | "heldBack plan r ?m es (startable ?m active g ! 0)"
      using A res none unfinished ready(1) by (auto simp: startsAll_def)
    then show ?thesis
    proof cases
      case 1
      then show ?thesis by (auto simp: mayWait_def)
    next
      case 2
      have n: "startable ?m active g ! 0 \<in> set (grp_Nodes g)" using ready by (metis length_greater_0_conv nth_mem subsetD)
      obtain p where "version plan es p" "KubernetesVersion (Target (plan_Spec p)) \<noteq> ''''"
        using 2 by (auto simp: heldBack_def)
      moreover have "\<exists>m\<in>set (ControlPlaneNodes r). \<exists>j\<in>set jobs. jobNode j = node_Name m \<and> jobPhase j = PatchJobPhaseFailed"
        if "CheckControlPlaneFirst r = None"
        using held_back_by_failure [OF that unfinished n] 2 indexJobs_Some by (metis heldBack_def)
      ultimately show ?thesis by (auto simp: mayWait_def list_ex_iff split: option.split)
    qed
  qed
  then show ?thesis by (intro runs_mono [OF scheduleNodes_progress]) blast
qed

lemma mayWait_mono:
  assumes "mayWait plan r jobs es" and "set es \<subseteq> set es'"
  shows "mayWait plan r jobs es'"
proof -
  have "version plan es p \<Longrightarrow> version plan es' p" for p using assms(2) by (auto simp: version_def list_ex_iff)
  then show ?thesis using assms unfolding mayWait_def by (auto split: option.splits)
qed

lemma ended_progress:
  assumes unfinished: "firstUnfinished r (indexJobs jobs) = Some g" and conc: "1 \<le> grp_Concurrency g"
    and ended: "list_all (\<lambda>j. IsTerminal (jobPhase j)) jobs" and names: "distinct (map job_Name jobs)"
  shows "runs [] (orReturn (syncLeases E plan r jobs) (\<lambda>active. scheduleNodes E plan r (indexJobs jobs) active))
    (\<lambda>(delay, err) es. case err of Some _ \<Rightarrow> True | None \<Rightarrow> createdJobs es \<noteq> [] \<or> mayWait plan r jobs es)"
proof (rule runs_thenReturn [OF syncLeases_counts], goal_cases)
  case (2 active es)
  have "countOf active (grp_Name g) = 0" using 2 ended_leaseCount [OF ended names] by auto
  from ended_schedule [OF unfinished conc ended this] show ?case
    by (rule runs_frame) (auto elim: mayWait_mono split: prod.split option.split)
qed simp

end
