(* ===== verification/PlanAdvance.thy ===== *)
theory PlanAdvance imports PlanPhases RolloutLife begin

text \<open>
  Progress of a plan: what a reconcile has done or found when all jobs have ended. It starts a node,
  ends the plan, or some condition outside the rollout holds it up.
\<close>

section \<open>What may hold a plan up\<close>

text \<open>A reason not to go on that a version \<open>p\<close> of the plan and the answers of the reconcile give.\<close>

definition heldUp :: "patchPlan \<Rightarrow> rollout \<Rightarrow> patchJob list \<Rightarrow> event list \<Rightarrow> bool" where
  "heldUp p r jobs es \<longleftrightarrow>
     Cancelled (plan_Spec p) \<or> Paused (plan_Spec p) \<or>
     budgetUsed p (failedNodes r (indexJobs jobs)) \<or> awaitsKubeProxy p r (indexJobs jobs) \<or>
     (\<exists>now. EvNow now \<in> set es \<and> \<not> fst (IsInMaintenanceWindow (Maintenance (plan_Spec p)) now)) \<or>
     mayWait p r jobs es"

definition goesOn :: "('v, 'm) klib_scheme \<Rightarrow> patchPlan \<Rightarrow> rollout \<Rightarrow> patchJob list \<Rightarrow> event list \<Rightarrow> bool" where
  "goesOn K plan r jobs es \<longleftrightarrow>
     createdJobs es \<noteq> [] \<or>
     list_all (hasEnded (indexJobs jobs)) (Nodes r) \<and> isCompletedPlan plan es \<or>
     jobs = [] \<and> list_ex (preflightRefused K) es \<or>
     (\<exists>p. version plan es p \<and> heldUp p r jobs es)"

lemma heldUp_mono: "heldUp p r jobs es \<Longrightarrow> set es \<subseteq> set es' \<Longrightarrow> heldUp p r jobs es'"
  unfolding heldUp_def using mayWait_mono by blast

lemma goesOn_after:
  assumes "goesOn K p r jobs es" and v: "version plan h p"
  shows "goesOn K plan r jobs (h @ es)"
proof -
  have "isCompletedPlan p es \<Longrightarrow> isCompletedPlan plan (h @ es)"
    unfolding isCompletedPlan_def using version_trans [OF v] by (metis list_ex_append)
  moreover have "\<exists>q. version plan (h @ es) q \<and> heldUp q r jobs (h @ es)" if "version p es q" "heldUp q r jobs es" for q
    using version_trans [OF v that(1)] heldUp_mono [OF that(2)] by auto
  ultimately show ?thesis using assms(1) unfolding goesOn_def by auto
qed

lemma goesOn_before:
  assumes "goesOn K plan r jobs es"
  shows "goesOn K plan r jobs (es @ es')"
proof -
  have "isCompletedPlan plan es \<Longrightarrow> isCompletedPlan plan (es @ es')"
    by (auto simp: isCompletedPlan_def version_append)
  moreover have "heldUp q r jobs es \<Longrightarrow> heldUp q r jobs (es @ es')" for q by (rule heldUp_mono) auto
  ultimately show ?thesis using assms unfolding goesOn_def by (auto simp: version_append)
qed

lemma goesOn_held: "version plan es p \<Longrightarrow> heldUp p r jobs es \<Longrightarrow> goesOn K plan r jobs es"
  by (auto simp: goesOn_def)

section \<open>When no group has a node left\<close>

text \<open>If no group is unfinished every node has ended.\<close>

lemma finished_ended: "firstUnfinished r jobsByNode = None \<Longrightarrow> list_all (hasEnded jobsByNode) (Nodes r)"
  by (auto simp: firstUnfinished_def find_None_iff groupFinished_def Nodes_def list_all_iff hasEnded_def
        isCompleted_def isFailed_def outcomeOf_def IsTerminal_def split: option.splits)

lemma ended_allDone:
  assumes "c = fst (summarize plan r jobsByNode active)" and "list_all (hasEnded jobsByNode) (Nodes r)"
  shows "allDone c (Total r)"
proof -
  have split: "countWith (isCompleted jobsByNode) (Nodes r) + countWith (isFailed jobsByNode) (Nodes r) =
      countWith (hasEnded jobsByNode) (Nodes r)"
    unfolding hasEnded_def [abs_def] by (rule countWith_split) (auto simp: isCompleted_def isFailed_def split: option.splits)
  have "filter (hasEnded jobsByNode) (Nodes r) = Nodes r" using assms(2) by (simp add: filter_id_conv list_all_iff)
  then have "countWith (hasEnded jobsByNode) (Nodes r) = int (length (Nodes r))" by (simp add: countWith_def)
  then show ?thesis using split assms(1) by (simp add: allDone_def summarize_counts Total_eq_length)
qed

section \<open>The guards\<close>

lemma scheduleInWindow_goesOn:
  assumes "firstUnfinished r (indexJobs jobs) = Some g" and "1 \<le> grp_Concurrency g"
    and "list_all (\<lambda>j. IsTerminal (jobPhase j)) jobs" and "countOf active (grp_Name g) = 0"
  shows "runs [] (scheduleInWindow E plan r (indexJobs jobs) active) (\<lambda>res es. snd res \<noteq> None \<or> goesOn E plan r jobs es)"
  unfolding scheduleInWindow_def
proof (rule runs_bind, rule runs_perform, rule runs_if, goal_cases)
  case (1 now)
  have "goesOn E plan r jobs ([EvNow now] @ es)" for es
    using 1 by (intro goesOn_held [where p = plan]) (auto simp: heldUp_def)
  then show ?case
    unfolding waitForWindow_def
    by (intro runs_emits [where P = "\<lambda>_. True"] emits_rules) simp_all
next
  case (2 now)
  show ?case
  proof (rule runs_frame [OF ended_schedule [OF assms]], elim disjE)
    fix res :: ctrlResult and es
    assume "mayWait plan r jobs es"
    then have "mayWait plan r jobs (([] @ [EvNow now]) @ es)" by (rule mayWait_mono) auto
    then have "heldUp plan r jobs (([] @ [EvNow now]) @ es)" by (simp add: heldUp_def)
    then show "snd res \<noteq> None \<or> goesOn E plan r jobs (([] @ [EvNow now]) @ es)"
      using goesOn_held [OF version_self] by blast
  qed (simp_all add: goesOn_def)
qed

lemma advancePlan_goesOn:
  assumes c: "c = fst (summarize q r (indexJobs jobs) active)"
    and conc: "list_all (\<lambda>g. 1 \<le> grp_Concurrency g) (rollout_Groups r)"
    and ended: "list_all (\<lambda>j. IsTerminal (jobPhase j)) jobs" and idle: "\<And>g. countOf active g = 0"
  shows "runs [] (advancePlan E plan r (indexJobs jobs) active c) (\<lambda>res es. snd res \<noteq> None \<or> goesOn E plan r jobs es)"
proof -
  have failed: "jc_Failed c = failedNodes r (indexJobs jobs)"
    unfolding c by (simp add: summarize_counts failedNodes_def)
  show ?thesis
  proof (rule advancePlan_exits, goal_cases)
    case (2 p es)
    have "goesOn E plan r jobs es"
      using 2(2) allDone_ended [OF c] unfolding mayStop_def goesOn_def heldUp_def failed
      by (auto intro: version_self)
    then show ?case
      by (intro runs_emits [where P = "\<lambda>_. True"] emits_terminalResult) (auto intro: goesOn_before)
  next
    case (3 d es)
    then show ?case
      unfolding mayHold_def goesOn_def heldUp_def by (auto simp: indexJobs_empty)
  next
    case (4 p es)
    then have open_: "\<not> allDone c (Total r)" and v: "version plan es p" by (simp_all add: passedGuards_def)
    have "firstUnfinished r (indexJobs jobs) \<noteq> None" using open_ ended_allDone [OF c finished_ended] by blast
    then obtain g where g: "firstUnfinished r (indexJobs jobs) = Some g" by blast
    then have "1 \<le> grp_Concurrency g" using conc by (auto simp: firstUnfinished_def find_Some_iff list_all_iff)
    from scheduleInWindow_goesOn [OF g this ended idle] show ?case
      by (rule runs_frame) (use goesOn_after v in blast)
  qed simp
qed

section \<open>A reconcile\<close>

lemma reconcileRollout_goesOn:
  assumes conc: "list_all (\<lambda>g. 1 \<le> grp_Concurrency g) (rollout_Groups r)"
  shows "runs [] (reconcileRollout E plan r) (\<lambda>res es. case es of
      EvListJobs _ (Inr jobs) # rest \<Rightarrow>
        distinct (map job_Name jobs) \<longrightarrow> list_all (\<lambda>j. IsTerminal (jobPhase j)) jobs \<longrightarrow>
        snd res \<noteq> None \<or> goesOn E plan r jobs rest
    | _ \<Rightarrow> snd res \<noteq> None)"
proof -
  let ?Q = "\<lambda>(res :: ctrlResult) es. case es of
      EvListJobs _ (Inr jobs) # rest \<Rightarrow>
        distinct (map job_Name jobs) \<longrightarrow> list_all (\<lambda>j. IsTerminal (jobPhase j)) jobs \<longrightarrow>
        snd res \<noteq> None \<or> goesOn E plan r jobs rest
    | _ \<Rightarrow> snd res \<noteq> None"
  have go: "runs (EvListJobs (plan_Name plan) (Inr jobs) # es) (advancePlan E p r (indexJobs jobs) active c) ?Q"
    if c: "summarizePlan plan r (indexJobs jobs) active = (c, counted)" and v: "version plan es p"
      and ls: "\<exists>ls. \<forall>g. countOf active g = int (leaseCount r jobs ls g)" for jobs es p active c counted
  proof (cases "distinct (map job_Name jobs) \<and> list_all (\<lambda>j. IsTerminal (jobPhase j)) jobs")
    case True
    then have "countOf active g = 0" for g using ls ended_leaseCount by fastforce
    then show ?thesis
      using True by (intro runs_frame [OF advancePlan_goesOn [OF summarizePlan_counts [OF c] conc]])
        (auto intro: goesOn_after [OF _ v])
  next
    case False
    have "emits (rolloutEvent E) (advancePlan E p r (indexJobs jobs) active c)" by (rule emits_advancePlan)
    then show ?thesis by (rule runs_emits) (use False in auto)
  qed
  show ?thesis
    by (rule runs_reconcileRollout [OF syncLeases_counts])
       ((rule go)?; auto simp: version_append version_Cons)+
qed


end
