(* ===== verification/ProgressProperties.thy ===== *)
theory ProgressProperties imports PlanAdvance LifeProperties begin

text \<open>
  Properties of how a rollout goes on: with deletions of finished jobs at any time, over its whole length,
  and when nodes wait.
\<close>

section \<open>Concrete inputs\<close>

text \<open>
  An outside whose listing of the jobs shows the first job completed once the server knows a node named
  \<open>done\<close>, and only the job of the worker once it knows one named \<open>worker\<close>.
\<close>

definition doneJob :: patchJob where
  "doneJob = firstJob\<lparr>job_Status := (job_Status firstJob)\<lparr>js_Phase := PatchJobPhaseCompleted, js_CompletionTime := Some 0\<rparr>\<rparr>"

definition workerJob :: patchJob where
  "workerJob = (newPatchJob fixPlan (fixNode ''w1'' False) GroupWorkers)\<lparr>job_Owner := Some ''plan''\<rparr>"

definition freeEnv :: "(fixVersion, fixState) env" where
  "freeEnv = fixEnv\<lparr>op_listJobs := (\<lambda>_ s. (Inr (if s ''done'' \<noteq> None then [doneJob]
     else if s ''worker'' \<noteq> None then [workerJob] else []), s))\<rparr>"

definition knowing :: "string \<Rightarrow> fixState world" where
  "knowing name = fixWorld\<lparr>server := [name \<mapsto> fixNode ''c1'' True]\<rparr>"

lemmas free_world = freeEnv_def knowing_def

lemma listed_jobs:
  "job_Name doneJob = ''plan-c1''" "jobPhase doneJob = PatchJobPhaseCompleted" "jobNode doneJob = ''c1''"
  "job_Group (job_Spec doneJob) = GroupControlPlane" "job_DeletionTimestamp doneJob = None"
  "js_CompletionTime (job_Status doneJob) = Some 0"
  "job_Name workerJob = ''plan-w1''" "jobPhase workerJob = PatchJobPhaseNone" "jobNode workerJob = ''w1''"
  "job_Group (job_Spec workerJob) = GroupWorkers" "job_DeletionTimestamp workerJob = None"
  "js_CompletionTime (job_Status workerJob) = None"
  by (simp_all add: doneJob_def workerJob_def firstJob_def newPatchJob_def emptyJobStatus_def jobNode_def fixNode_def
    fixPlan_def)

lemma freeRollout: "Resolve freeEnv [fixNode ''c1'' True, fixNode ''w1'' False] fixSpec = Inr smallRollout"
  by code_simp

lemma free_ownerOnly: "ownerOnly freeEnv"
  by (auto simp: ownerOnly_def freeEnv_def fix_ops)

lemma listed_facts:
  "laterOf (- (62135596800 * second)) doneJob = 0"
  "laterOf (- (62135596800 * second)) workerJob = - (62135596800 * second)"
  "countOf (increment GroupWorkers []) GroupControlPlane = 0"
  "groupOfJob workerJob r = GroupWorkers" "GroupWorkers \<noteq> GroupControlPlane" "GroupControlPlane \<noteq> GroupWorkers"
  by (simp_all add: laterOf_def listed_jobs groupOfJob_def GroupWorkers_def GroupControlPlane_def duration_units
    countOf_def increment_def)

definition createsJobs :: "patchJob list \<Rightarrow> patchJob list \<Rightarrow> event list \<Rightarrow> bool" where
  "createsJobs listed created es =
     (case es of EvListJobs a (Inr js) # rest \<Rightarrow> a = ''plan'' \<and> js = listed \<and> createdJobs rest = created | _ \<Rightarrow> False)"

lemma free_first:
  "createsJobs [] [firstJob] (calls (snd (run_state (reconcileRollout freeEnv readyPlan smallRollout) fixWorld)))"
  by (simp add: plan_evaluation createsJobs_def free_world)

lemma free_worker:
  "createsJobs [doneJob] [workerJob] (calls (snd (run_state (reconcileRollout freeEnv readyPlan smallRollout) (knowing ''done''))))"
  by (simp add: plan_evaluation createsJobs_def free_world listed_jobs listed_facts workerJob_def)

lemma free_again:
  "createsJobs [workerJob] [firstJob] (calls (snd (run_state (reconcileRollout freeEnv readyPlan smallRollout) (knowing ''worker''))))"
  by (simp add: plan_evaluation createsJobs_def free_world listed_jobs listed_facts)

lemma created_stored:
  assumes "createsJobs jobs created (calls (snd (run_state (reconcileRollout E readyPlan r) w)))"
    and "calls w = []" and "distinct (map job_Name (jobs @ created))"
  shows "storeStep E r jobs (jobs @ created)"
proof -
  obtain es where "calls (snd (run_state (reconcileRollout E readyPlan r) w)) =
      calls w @ EvListJobs (plan_Name readyPlan) (Inr jobs) # es" and "createdJobs es = created"
    using assms(1,2)
    by (auto simp: createsJobs_def readyPlan_def fixPlan_def split: list.splits event.splits sum.splits)
  then show ?thesis using assms(3) by (intro storeStep.reconciled [of E readyPlan r w jobs es]) auto
qed

lemma free_steps:
  "storeStep freeEnv smallRollout [] [firstJob]"
  "storeStep freeEnv smallRollout [firstJob] [doneJob]"
  "storeStep freeEnv smallRollout [doneJob] [doneJob, workerJob]"
  "storeStep freeEnv smallRollout [workerJob] [workerJob, firstJob]"
proof -
  show "storeStep freeEnv smallRollout [] [firstJob]"
    using created_stored [OF free_first] by (simp add: fixWorld_def)
  show "storeStep freeEnv smallRollout [firstJob] [doneJob]"
    using storeStep.progressed [of firstJob freeEnv smallRollout "[]" "[]"] by (auto simp: doneJob_def firstJob_def newPatchJob_def emptyJobStatus_def)
  show "storeStep freeEnv smallRollout [doneJob] [doneJob, workerJob]"
    using created_stored [OF free_worker] by (simp add: knowing_def fixWorld_def doneJob_def workerJob_def firstJob_def newPatchJob_def fixNode_def)
  show "storeStep freeEnv smallRollout [workerJob] [workerJob, firstJob]"
    using created_stored [OF free_again] by (simp add: knowing_def fixWorld_def workerJob_def firstJob_def newPatchJob_def fixNode_def)
qed

section \<open>Deletion of finished jobs\<close>

text \<open>
  C12: The limit of a group survives deletions. Even when finished jobs are deleted at any time, while others
  run, no group ever has more nodes in progress than its concurrency. What does not survive is the order
  of the groups: the example ends with nodes of both groups in progress, because the first group starts
  again when its finished job is deleted.
\<close>

theorem limit_survives_deletions:
  assumes "Resolve E nodes spec = Inr r" and "ownerOnly E" and "(freeStep E r)\<^sup>*\<^sup>* [] jobs"
  shows "list_all (\<lambda>g. int (length (inProgressIn (progressOf jobs) g)) \<le> grp_Concurrency g) (rollout_Groups r)"
proof -
  have "withinLimits r (progressOf jobs)"
    by (rule free_withinLimits [OF assms(2) sched.resolve_distinct [OF assms(1)] assms(3)])
  moreover have "1 \<le> grp_Concurrency g" if "g \<in> set (rollout_Groups r)" for g
    using that Resolve_groups(1,2) [OF assms(1)] by (metis in_set_conv_nth length_map)
  ultimately show ?thesis by (fastforce simp: withinLimits_def list_all_iff)
qed

theorem limit_survives_deletions_witness:
  "(freeStep freeEnv smallRollout)\<^sup>*\<^sup>* [] [workerJob, firstJob] \<and>
   map (\<lambda>g. length (inProgressIn (progressOf [workerJob, firstJob]) g)) (rollout_Groups smallRollout) = [1, 1] \<and>
   list_all (\<lambda>g. int (length (inProgressIn (progressOf [workerJob, firstJob]) g)) \<le> grp_Concurrency g)
     (rollout_Groups smallRollout)"
proof -
  have "freeStep freeEnv smallRollout [doneJob, workerJob] [workerJob]"
    using freeStep.deleted [of doneJob freeEnv smallRollout "[]" "[workerJob]"] by (simp add: listed_jobs)
  then have "(freeStep freeEnv smallRollout)\<^sup>*\<^sup>* [] [workerJob, firstJob]"
    using free_steps [THEN freeStep.moved] by (meson converse_rtranclp_into_rtranclp rtranclp.rtrancl_refl)
  moreover from this have "list_all (\<lambda>g. int (length (inProgressIn (progressOf [workerJob, firstJob]) g)) \<le> grp_Concurrency g)
     (rollout_Groups smallRollout)"
    by (rule limit_survives_deletions [OF freeRollout free_ownerOnly])
  moreover have "map (\<lambda>g. length (inProgressIn (progressOf [workerJob, firstJob]) g)) (rollout_Groups smallRollout) = [1, 1]"
    by code_simp
  ultimately show ?thesis by blast
qed

section \<open>The length of a rollout\<close>

text \<open>
  C9: A rollout comes to an end. Along any sequence of reconciles and job progress, without deletions, the
  progress of the nodes changes at most twice per node of the rollout, and no state of progress is ever
  entered again after it was left.
\<close>

theorem rollout_is_finite:
  assumes "Resolve E nodes spec = Inr r" and "ownerOnly E" and "isPath (keepingStep E r) ([] # stores)"
  shows "length (remdups_adj (map progressOf ([] # stores))) \<le> 2 * Total r + 1 \<and>
    distinct (remdups_adj (map progressOf ([] # stores)))"
proof -
  have "isPath (progressMove E r) (map progressOf ([] # stores))"
    by (rule path_progress [OF assms(3) empty_sound [OF assms(2) sched.resolve_distinct [OF assms(1)]]])
  then have "isPath (progressMove E r) (progressOf [] # map progressOf stores)" by simp
  from growing.changes_bounded [OF this] growing.path_no_return [OF this] show ?thesis by simp
qed

lemma free_path: "isPath (keepingStep freeEnv smallRollout) [[], [firstJob], [doneJob], [doneJob, workerJob]]"
  using free_steps by (simp add: keepingStep_def)

theorem rollout_is_finite_witness:
  "isPath (keepingStep freeEnv smallRollout) [[], [firstJob], [doneJob], [doneJob, workerJob]] \<and>
   distinct (remdups_adj (map progressOf [[], [firstJob], [doneJob], [doneJob, workerJob]])) \<and>
   progressOf [doneJob, workerJob] ''c1'' = Finished"
proof -
  have "progressOf [doneJob, workerJob] ''c1'' = Finished" by code_simp
  then show ?thesis using rollout_is_finite [OF freeRollout free_ownerOnly free_path] free_path by blast
qed

section \<open>A plan does not stand still\<close>



section \<open>Nodes that wait\<close>

text \<open>
  The scheduling part alone: when all jobs stored have ended and a node of the rollout has none,
  a scheduling run that meets no error tries to create a job, unless the delay between nodes has not
  passed; or, when the plan upgrades Kubernetes and preflight accepts the order of the groups, a job of
  a control plane node has failed. A Lease left over from an ended job holds nothing up.
\<close>

theorem rollout_never_stalls:
  assumes "Resolve E nodes spec = Inr r" and "ownerOnly E" and "(storeStep E r)\<^sup>*\<^sup>* [] jobs"
    and "list_all (\<lambda>j. IsTerminal (jobPhase j)) jobs"
    and "list_ex (\<lambda>n. progressOf jobs (node_Name n) = Waiting) (Nodes r)"
  shows "runs [] (orReturn (syncLeases E plan r jobs) (\<lambda>active. scheduleNodes E plan r (indexJobs jobs) active))
    (\<lambda>(delay, err) es. case err of Some _ \<Rightarrow> True | None \<Rightarrow>
      createdJobs es \<noteq> [] \<or>
      (\<exists>now. EvNow now \<in> set es \<and> now < lastActivity plan (indexJobs jobs) + DelayBetweenNodes (plan_Spec plan)) \<or>
      ((\<exists>p. version plan es p \<and> KubernetesVersion (Target (plan_Spec p)) \<noteq> '''') \<and>
       (case CheckControlPlaneFirst r of
          Some _ \<Rightarrow> True
        | None \<Rightarrow> list_ex (\<lambda>n. list_ex (\<lambda>j. jobNode j = node_Name n \<and> jobPhase j = PatchJobPhaseFailed) jobs)
                    (ControlPlaneNodes r))))"
proof -
  have sound: "soundStore E r jobs"
    by (rule rolling.reach_sound [OF assms(3) empty_sound [OF assms(2) sched.resolve_distinct [OF assms(1)]]])
  then have nodes: "distinct (map jobNode jobs)" and names: "distinct (map job_Name jobs)" by (simp_all add: soundStore_def)
  obtain n h where n: "h \<in> set (rollout_Groups r)" "n \<in> set (grp_Nodes h)" "node_Name n \<notin> jobNode ` set jobs"
    using assms(5) by (auto simp: list_ex_iff Nodes_def progressOf_simps [OF nodes])
  then have "\<not> groupFinished (indexJobs jobs) h"
    unfolding indexJobs_None [symmetric] by (auto simp: groupFinished_def list_all_iff intro!: bexI [of _ n])
  then obtain g where g: "firstUnfinished r (indexJobs jobs) = Some g"
    using n(1) by (cases "firstUnfinished r (indexJobs jobs)") (auto simp: firstUnfinished_def find_None_iff)
  then have "g \<in> set (rollout_Groups r)" by (auto simp: firstUnfinished_def find_Some_iff)
  then have "1 \<le> grp_Concurrency g" using Resolve_groups(1,2) [OF assms(1)] by (metis in_set_conv_nth length_map)
  from ended_progress [OF g this assms(4) names, of E plan] show ?thesis unfolding mayWait_def .
qed

theorem rollout_never_stalls_witness:
  "runs [] (orReturn (syncLeases freeEnv fixPlan smallRollout [doneJob])
      (\<lambda>active. scheduleNodes freeEnv fixPlan smallRollout (indexJobs [doneJob]) active))
    (\<lambda>(delay, err) es. case err of Some _ \<Rightarrow> True | None \<Rightarrow> createdJobs es \<noteq> [] \<or>
      (\<exists>now. EvNow now \<in> set es \<and> now < lastActivity fixPlan (indexJobs [doneJob])) \<or>
      (\<exists>p. version fixPlan es p \<and> KubernetesVersion (Target (plan_Spec p)) \<noteq> ''''))"
proof (rule runs_mono [OF rollout_never_stalls [OF freeRollout free_ownerOnly]])
  show "(storeStep freeEnv smallRollout)\<^sup>*\<^sup>* [] [doneJob]"
    using free_steps(1,2) by (blast intro: rtranclp.rtrancl_into_rtrancl)
  show "list_ex (\<lambda>n. progressOf [doneJob] (node_Name n) = Waiting) (Nodes smallRollout)" by code_simp
  have "DelayBetweenNodes (plan_Spec fixPlan) = 0" by (simp add: fixPlan_def fixSpec_def)
  then show "(\<lambda>(delay, err) es. case err of Some _ \<Rightarrow> True | None \<Rightarrow> createdJobs es \<noteq> [] \<or>
      (\<exists>now. EvNow now \<in> set es \<and> now < lastActivity fixPlan (indexJobs [doneJob])) \<or>
      (\<exists>p. version fixPlan es p \<and> KubernetesVersion (Target (plan_Spec p)) \<noteq> '''')) res es"
    if "(\<lambda>(delay, err) es. case err of Some _ \<Rightarrow> True | None \<Rightarrow>
      createdJobs es \<noteq> [] \<or>
      (\<exists>now. EvNow now \<in> set es \<and> now < lastActivity fixPlan (indexJobs [doneJob]) + DelayBetweenNodes (plan_Spec fixPlan)) \<or>
      ((\<exists>p. version fixPlan es p \<and> KubernetesVersion (Target (plan_Spec p)) \<noteq> '''') \<and>
       (case CheckControlPlaneFirst smallRollout of
          Some _ \<Rightarrow> True
        | None \<Rightarrow> list_ex (\<lambda>n. list_ex (\<lambda>j. jobNode j = node_Name n \<and> jobPhase j = PatchJobPhaseFailed) [doneJob])
                    (ControlPlaneNodes smallRollout)))) res es" for res es
    using that by (auto split: option.splits prod.splits)
qed (simp add: listed_jobs)

end
