(* ===== verification/LaggingCache.thy ===== *)
theory LaggingCache imports RolloutMachine PlanProgress begin

text \<open>
  The plan controller reads jobs through a cache that may lag behind the API server. The machine of this
  theory keeps the whole history of the stored jobs, and a reconcile may list any state of it. What the
  code does about it: the API server refuses a second job of the same name, and a creation that fails
  otherwise ends the reconcile.
\<close>

section \<open>The creations of a reconcile\<close>

text \<open>A creation that fails for another reason than that the job exists.\<close>

definition failedCreate :: "event \<Rightarrow> bool" where
  "failedCreate e = (case e of EvCreateJob _ (Inl err) \<Rightarrow> \<not> isAlreadyExists err | _ \<Rightarrow> False)"

fun stopsAtFailure :: "event list \<Rightarrow> bool" where
  "stopsAtFailure [] = True"
| "stopsAtFailure (e # es) = ((failedCreate e \<longrightarrow> createdJobs es = []) \<and> stopsAtFailure es)"

lemma failedCreate_creates: "failedCreate e \<Longrightarrow> creates e"
  by (auto simp: failedCreate_def creates_def split: event.splits)

lemma failedCreate_simps [simp]:
  "failedCreate (EvCreateJob j (Inl err)) \<longleftrightarrow> \<not> isAlreadyExists err" "\<not> failedCreate (EvCreateJob j (Inr c))"
  "\<not> creates e \<Longrightarrow> \<not> failedCreate e"
  using failedCreate_creates by (auto simp: failedCreate_def)

lemma no_failure: "createdJobs es = [] \<Longrightarrow> \<not> list_ex failedCreate es"
  by (auto simp: createdJobs_Nil list_all_iff list_ex_iff dest: failedCreate_creates)

lemma stops_no_failure: "\<not> list_ex failedCreate es \<Longrightarrow> stopsAtFailure es"
  by (induction es) auto

lemma stops_append: "\<not> list_ex failedCreate es \<Longrightarrow> stopsAtFailure (es @ es') = stopsAtFailure es'"
  by (induction es) auto

text \<open>
  The creations of a reconcile of \<open>plan\<close> with the calls \<open>es\<close>: a failure ends them, and every job is made
  from a version of the plan.
\<close>

definition creating :: "('v, 'm) klib_scheme \<Rightarrow> patchPlan \<Rightarrow> event list \<Rightarrow> bool" where
  "creating K plan es \<longleftrightarrow> stopsAtFailure es \<and>
     list_all (\<lambda>j. \<exists>p n grp. version plan es p \<and> setOwnerOfJob K p (newPatchJob p n grp) = Inr j) (createdJobs es)"

lemma creating_quiet: "createdJobs es = [] \<Longrightarrow> creating K plan es"
  by (simp add: creating_def stops_no_failure no_failure)

lemma creating_append:
  assumes "creating K plan h" and "\<not> list_ex failedCreate h" and v: "version plan h p" and "creating K p es"
  shows "creating K plan (h @ es)"
proof -
  have "\<exists>q n grp. version plan (h @ es) q \<and> setOwnerOfJob K q (newPatchJob q n grp) = Inr j"
    if "j \<in> set (createdJobs (h @ es))" for j
    using that assms(1,4) version_trans [OF v] version_append by (fastforce simp: creating_def list_all_iff)
  then show ?thesis
    using assms(1,2,4) unfolding creating_def list_all_iff by (simp add: stops_append)
qed

lemma creating_after:
  "creating K p es \<Longrightarrow> createdJobs h = [] \<Longrightarrow> version plan h p \<Longrightarrow> creating K plan (h @ es)"
  by (rule creating_append [OF creating_quiet no_failure])

lemma createPatchJob_creating:
  "runs [] (createPatchJob E plan n grp) (\<lambda>res es. creating E plan es \<and>
     (case res of Inl _ \<Rightarrow> True | Inr p \<Rightarrow> \<not> list_ex failedCreate es \<and> version plan es p))"
proof -
  let ?Q = "\<lambda>(res :: goerr + patchPlan) es. creating E plan es \<and>
     (case res of Inl _ \<Rightarrow> True | Inr p \<Rightarrow> \<not> list_ex failedCreate es \<and> version plan es p)"
  have start: "creating E plan (EvCreateJob j c # es)"
    if "setOwnerOfJob E plan (newPatchJob plan n grp) = Inr j" "createdJobs es = []" for j c es
    using that by (auto simp: creating_def stops_no_failure no_failure intro!: exI [of _ plan])
  have ok: "\<not> list_ex failedCreate (EvCreateJob j (Inr created) # es)" if "createdJobs es = []" for j created es
    using no_failure [OF that] by simp
  show ?thesis
    unfolding createPatchJob_def
  proof (rule runs_sum, goal_cases)
    case (2 j)
    show ?case
    proof (rule runs_bind, rule runs_perform, rule runs_sum, goal_cases)
      case (1 c err)
      then show ?case using start [OF 2, of "[]" c] by (auto intro!: runs_rules)
    next
      case (2 c created)
      then show ?case
        by (intro runs_thenOk [OF acquireLease_quiet] runs_bind runs_perform runs_updateStatus)
           (auto simp: start [OF \<open>setOwnerOfJob E plan (newPatchJob plan n grp) = Inr j\<close>] ok no_failure version_Cons version_append
              split: sum.split)
    qed
  qed (auto intro!: runs_return creating_quiet)
qed

lemma waitForControlPlane_waits:
  "runs [] (waitForControlPlane E plan r jobsByNode n) (\<lambda>res es. createdJobs es = [] \<and>
     (case res of Inl _ \<Rightarrow> True | Inr (wait, p) \<Rightarrow> 0 < wait \<or> version plan es p))"
  by (rule runs_mono [OF waitForControlPlane_version]) (auto split: sum.splits if_splits)

lemma scheduleLoop_creating: "runs [] (scheduleLoop E plan r jobsByNode grp k ns) (\<lambda>_. creating E plan)"
proof (induction ns arbitrary: plan k)
  case Nil
  show ?case by (auto intro!: runs_return creating_quiet)
next
  case (Cons n ns)
  show ?case
  proof (simp only: scheduleLoop.simps, rule runs_thenReturn [OF waitForControlPlane_waits], simp add: creating_quiet,
      rule runs_prod, rule runs_if, goal_cases)
    case (1 a es wait p)
    then show ?case by (intro runs_return) (simp add: creating_quiet)
  next
    case (2 a es wait p)
    then have es: "createdJobs es = []" "version plan es p" by auto
    show ?case
    proof (rule runs_thenReturn [OF createPatchJob_creating], goal_cases)
      case (1 err es2)
      then show ?case using creating_after [OF _ es, of E es2] by simp
    next
      case (2 p2 es2)
      then have "creating E plan (es @ es2)" "\<not> list_ex failedCreate (es @ es2)" "version plan (es @ es2) p2"
        using creating_after [OF _ es, of E es2] no_failure [OF es(1)] version_trans [OF es(2), of es2 p2]
        by (simp_all del: list_ex_iff)
      from creating_append [OF this] show ?case by (intro runs_frame [OF Cons.IH]) simp
    qed
  qed
qed

lemma scheduleNodes_creating: "runs [] (scheduleNodes E plan r jobsByNode active) (\<lambda>_. creating E plan)"
  unfolding scheduleNodes_def
proof (rule runs_option, goal_cases)
  case (2 g)
  show ?case
    unfolding scheduleGroup_def Let_def
  proof (intro runs_if, goal_cases)
    case 3
    show ?case
    proof (rule runs_seq [OF delayRemaining_due], rule runs_if, goal_cases)
      case (2 wait es)
      show ?case
      proof (rule runs_thenReturn [OF markInProgress_version], goal_cases)
        case (2 p es2)
        then show ?case
          using \<open>createdJobs es = [] \<and> _\<close> creating_after [of E p _ "es @ es2" plan]
          by (intro runs_frame [OF scheduleLoop_creating]) (simp add: version_append)
      qed (use 2 in \<open>simp add: creating_quiet\<close>)
    qed (auto intro!: runs_return creating_quiet)
  qed (auto intro!: runs_return creating_quiet)
qed (auto intro!: runs_return creating_quiet)

lemma scheduleInWindow_creating: "runs [] (scheduleInWindow E plan r jobsByNode active) (\<lambda>_. creating E plan)"
  unfolding scheduleInWindow_def
proof (rule runs_bind, rule runs_perform, rule runs_if, goal_cases)
  case (1 now)
  show ?case by (rule runs_frame [OF waitForWindow_outcome]) (simp add: creating_quiet)
next
  case (2 now)
  show ?case
    by (rule runs_frame [OF scheduleNodes_creating], rule creating_after [where p = plan]) simp_all
qed

lemma advancePlan_creating: "runs [] (advancePlan E plan r jobsByNode active c) (\<lambda>_. creating E plan)"
proof (rule advancePlan_exits, goal_cases)
  case (2 p es)
  show ?case by (rule runs_mono [OF terminalResult_quiet [OF 2(1)]]) (rule creating_quiet)
next
  case (4 p es)
  then show ?case
    by (intro runs_frame [OF scheduleInWindow_creating]) (auto simp: passedGuards_def intro: creating_after)
qed (simp_all add: creating_quiet)

lemma reconcileRollout_creating: "runs [] (reconcileRollout E plan r) (\<lambda>_. creating E plan)"
proof -
  have go: "runs h (advancePlan E p r m active c) (\<lambda>_. creating E plan)"
    if "createdJobs h = []" "version plan h p" for h p m active c
    by (rule runs_frame [OF advancePlan_creating]) (use that creating_after in auto)
  show ?thesis
    by (rule runs_reconcileRollout [OF syncLeases_counts])
       (auto intro!: go creating_quiet simp: version_append version_Cons)
qed

section \<open>What the API server stores\<close>

text \<open>
  \<open>served jobs es new\<close>: when the calls \<open>es\<close> are made while \<open>jobs\<close> are stored, \<open>new\<close> are the jobs they
  store. A job is created only under a name that is not in use; the answer \<open>AlreadyExists\<close> means that the
  name is; after any other error the job may be stored or not (the answer can be what got lost).
\<close>

inductive served :: "patchJob list \<Rightarrow> event list \<Rightarrow> patchJob list \<Rightarrow> bool" where
  no_call: "served jobs [] []"
| other: "\<not> creates e \<Longrightarrow> served jobs es new \<Longrightarrow> served jobs (e # es) new"
| accepted: "job_Name j \<notin> job_Name ` set jobs \<Longrightarrow> (\<And>err. c = Inl err \<Longrightarrow> \<not> isAlreadyExists err) \<Longrightarrow>
    served (jobs @ [j]) es new \<Longrightarrow> served jobs (EvCreateJob j c # es) (j # new)"
| present: "job_Name j \<in> job_Name ` set jobs \<Longrightarrow> isAlreadyExists err \<Longrightarrow>
    served jobs es new \<Longrightarrow> served jobs (EvCreateJob j (Inl err) # es) new"
| refused: "\<not> isAlreadyExists err \<Longrightarrow> served jobs es new \<Longrightarrow> served jobs (EvCreateJob j (Inl err) # es) new"

lemma createdJobs_other: "\<not> creates e \<Longrightarrow> createdJobs (e # es) = createdJobs es"
  by (cases e) (simp_all add: creates_def)

lemma served_nothing: "served jobs es new \<Longrightarrow> createdJobs es = [] \<Longrightarrow> new = []"
  by (induction rule: served.induct) (simp_all add: createdJobs_other del: createdJobs.simps(2), simp_all)

text \<open>
  What is stored are the jobs of a prefix of the creations, without those that were there: a creation
  that fails is the last one, so no job is left out in between.
\<close>

lemma served_prefix:
  assumes "served jobs es new" and "stopsAtFailure es" and "distinct (map job_Name jobs)"
  shows "\<exists>m. subseq new (take m (createdJobs es)) \<and>
    job_Name ` set (take m (createdJobs es)) \<subseteq> job_Name ` set (jobs @ new) \<and> distinct (map job_Name (jobs @ new))"
  using assms
proof (induction rule: served.induct)
  case (no_call jobs)
  then show ?case by (intro exI [of _ 0]) simp
next
  case (other e jobs es new)
  then show ?case by (simp add: createdJobs_other del: createdJobs.simps(2))
next
  case (accepted j jobs c es new)
  then obtain m where "subseq new (take m (createdJobs es))"
    "job_Name ` set (take m (createdJobs es)) \<subseteq> job_Name ` set ((jobs @ [j]) @ new)"
    "distinct (map job_Name ((jobs @ [j]) @ new))" by fastforce
  then show ?case by (intro exI [of _ "Suc m"]) auto
next
  case (present j jobs err es new)
  then obtain m where "subseq new (take m (createdJobs es))"
    "job_Name ` set (take m (createdJobs es)) \<subseteq> job_Name ` set (jobs @ new)" "distinct (map job_Name (jobs @ new))"
    by auto
  moreover have "new = [] \<or> hd new \<noteq> j" using present(1) calculation(3) by (cases new) force+
  ultimately show ?case using present(1) by (intro exI [of _ "Suc m"]) (auto simp: neq_Nil_conv)
next
  case (refused err jobs es new j)
  then have "new = []" using served_nothing by simp
  then show ?case using refused(5) by (intro exI [of _ 0]) simp
qed

section \<open>Jobs in the order of the group\<close>

text \<open>
  What the order of creation leaves behind: in each group a node has a job only if every node before it
  has one.
\<close>

definition inSequence :: "('a \<Rightarrow> bool) \<Rightarrow> 'a list \<Rightarrow> bool" where
  "inSequence P xs \<longleftrightarrow> sorted_wrt (\<lambda>x y. P y \<longrightarrow> P x) xs"

lemma inSequence_cong: "(\<And>x. x \<in> set xs \<Longrightarrow> P x = Q x) \<Longrightarrow> inSequence P xs = inSequence Q xs"
  by (induction xs) (auto simp: inSequence_def)

lemma inSequence_Cons: "inSequence P (x # xs) \<longleftrightarrow> (P x \<or> list_all (\<lambda>y. \<not> P y) xs) \<and> inSequence P xs"
  by (auto simp: inSequence_def list_all_iff)

text \<open>
  Adding the first elements that did not satisfy an earlier predicate keeps the sequence.
\<close>

lemma inSequence_take:
  assumes "inSequence P xs" and "distinct xs" and "\<And>x. Q x \<Longrightarrow> P x"
  shows "inSequence (\<lambda>x. P x \<or> x \<in> set (take k (filter (\<lambda>x. \<not> Q x) xs))) xs"
  using assms
proof (induction xs arbitrary: k)
  case (Cons x xs)
  let ?P = "\<lambda>k y. P y \<or> y \<in> set (take k (filter (\<lambda>x. \<not> Q x) xs))"
  have IH: "inSequence (?P k) xs" for k using Cons by (simp add: inSequence_Cons)
  show ?case
  proof (cases "Q x")
    case True
    then show ?thesis using IH [of k] Cons.prems(3) by (simp add: inSequence_Cons)
  next
    case False
    show ?thesis
    proof (cases k)
      case 0
      then show ?thesis using Cons.prems(1) by simp
    next
      case (Suc i)
      have "inSequence (?P i) xs = inSequence (\<lambda>y. P y \<or> y \<in> set (take k (filter (\<lambda>x. \<not> Q x) (x # xs)))) xs"
        by (rule inSequence_cong) (use Cons.prems(2) False Suc in auto)
      then show ?thesis using IH [of i] False Suc by (simp add: inSequence_Cons)
    qed
  qed
qed (simp add: inSequence_def)

text \<open>When an element is new among the first of an older list, every element that came since is among them.\<close>

lemma inSequence_before:
  assumes "inSequence P xs" and "c \<in> set (take k (filter (\<lambda>x. \<not> Q x) xs))" and "\<not> P c"
    and "x \<in> set xs" and "P x" and "\<not> Q x"
  shows "x \<in> set (take k (filter (\<lambda>x. \<not> Q x) xs))"
  using assms
proof (induction xs arbitrary: k)
  case (Cons y ys)
  show ?case
  proof (cases "Q y")
    case True
    then show ?thesis using Cons by (auto simp: inSequence_Cons)
  next
    case False
    then obtain i where k: "k = Suc i" using Cons.prems(2) by (cases k) auto
    show ?thesis
    proof (cases "x = y")
      case x: False
      then have "P y" using Cons.prems(1,4,5) by (auto simp: inSequence_Cons list_all_iff)
      then have "c \<in> set (take i (filter (\<lambda>x. \<not> Q x) ys))" using Cons.prems(2,3) False k by auto
      then show ?thesis using Cons.IH [of i] Cons.prems x False k by (simp add: inSequence_Cons)
    qed (use False k in simp)
  qed
qed simp

section \<open>The machine\<close>

text \<open>
  The API server answers a write of the plan \<open>nm\<close> with the plan of that name.
\<close>

definition answersFor :: "string \<Rightarrow> event \<Rightarrow> bool" where
  "answersFor nm e = (case e of
      EvPatchPlanStatus _ _ (Inr p) \<Rightarrow> plan_Name p = nm
    | EvPatchPlan _ _ (Inr p) \<Rightarrow> plan_Name p = nm
    | _ \<Rightarrow> True)"

text \<open>
  The history of the stored jobs, the latest first. A reconcile of any version of the plan \<open>nm\<close> lists
  any state of the history, in any order; what it creates is stored as the API server answers. (A node's
  job has a name made of those of plan and node, so a job of another plan may be in the way; the
  machine has the jobs of this plan only, and \<open>AlreadyExists\<close> speaks about them.)
\<close>

inductive lagStep :: "('v, 's) env \<Rightarrow> rollout \<Rightarrow> string \<Rightarrow> patchJob list list \<Rightarrow> patchJob list list \<Rightarrow> bool" for E r nm where
  reconciled: "calls (snd (run_state (reconcileRollout E plan r) w)) =
      calls w @ EvListJobs (plan_Name plan) (Inr listed) # es \<Longrightarrow>
    plan_Name plan = nm \<Longrightarrow> list_all (answersFor nm) es \<Longrightarrow>
    old \<in> set (jobs # past) \<Longrightarrow> mset listed = mset old \<Longrightarrow> served jobs es new \<Longrightarrow>
    lagStep E r nm (jobs # past) ((jobs @ new) # jobs # past)"
| progressed: "\<not> IsTerminal (jobPhase j) \<Longrightarrow>
    lagStep E r nm ((xs @ j # ys) # past) ((xs @ j\<lparr>job_Status := st\<rparr> # ys) # (xs @ j # ys) # past)"

text \<open>Progress is ordered: in a history without deletions it only grows.\<close>

instantiation progress :: linorder
begin

definition less_eq_progress :: "progress \<Rightarrow> progress \<Rightarrow> bool" where
  "p \<le> q \<longleftrightarrow> p = Waiting \<or> p = q \<or> q = Finished"

definition less_progress :: "progress \<Rightarrow> progress \<Rightarrow> bool" where
  "p < q \<longleftrightarrow> p \<le> q \<and> \<not> q \<le> (p :: progress)"

instance
proof
  fix p q s :: progress
  show "p \<le> q \<or> q \<le> p" by (cases p; cases q) (simp_all add: less_eq_progress_def)
qed (auto simp: less_eq_progress_def less_progress_def)

end

definition named :: "string \<Rightarrow> patchJob \<Rightarrow> bool" where
  "named nm j \<longleftrightarrow> job_Name j = nm @ ''-'' @ jobNode j"

definition inOrderOf :: "rollout \<Rightarrow> rolloutState \<Rightarrow> bool" where
  "inOrderOf r s \<longleftrightarrow> list_all (\<lambda>g. inSequence (\<lambda>n. s n \<noteq> Waiting) (map node_Name (grp_Nodes g))) (rollout_Groups r)"

text \<open>The invariant of a history.\<close>

definition lagSound :: "('v, 'm) klib_scheme \<Rightarrow> rollout \<Rightarrow> string \<Rightarrow> patchJob list list \<Rightarrow> bool" where
  "lagSound K r nm h \<longleftrightarrow> (case h of [] \<Rightarrow> False | jobs # past \<Rightarrow>
     list_all (soundStore K r) h \<and> list_all (\<lambda>old. progressOf old \<le> progressOf jobs) past \<and>
     list_all (named nm) jobs \<and> inOrderOf r (progressOf jobs))"

text \<open>Under one plan the names of jobs and of their nodes tell the same.\<close>

lemma named_map: "list_all (named nm) js \<Longrightarrow> map job_Name js = map (\<lambda>n. nm @ ''-'' @ n) (map jobNode js)"
  by (induction js) (simp_all add: named_def)

lemma named_distinct:
  assumes "list_all (named nm) js"
  shows "distinct (map job_Name js) = distinct (map jobNode js)"
  unfolding named_map [OF assms] distinct_map [of _ "map jobNode js"] by (simp add: inj_on_def)

lemma named_subset:
  assumes "list_all (named nm) xs" and "list_all (named nm) ys"
  shows "job_Name ` set xs \<subseteq> job_Name ` set ys \<longleftrightarrow> jobNode ` set xs \<subseteq> jobNode ` set ys"
  unfolding set_map [symmetric] named_map [OF assms(1)] named_map [OF assms(2)]
  by (simp only: set_map) (rule inj_image_subset_iff, simp add: inj_def)

text \<open>The room in a group: what is in progress now was in progress then or is among what was tried.\<close>

lemma room_kept:
  fixes s t :: rolloutState
  assumes "s \<le> t" and seq: "inSequence (\<lambda>n. t n \<noteq> Waiting) ns" and "distinct ns"
    and new: "set new \<subseteq> set (take k (filter (\<lambda>n. s n = Waiting) ns))" "\<And>n. n \<in> set new \<Longrightarrow> t n = Waiting"
    and "distinct new" and "new \<noteq> []"
  shows "length (filter (\<lambda>n. t n = InProgress) ns) + length new \<le> length (filter (\<lambda>n. s n = InProgress) ns) + k"
proof -
  let ?now = "set (filter (\<lambda>n. t n = InProgress) ns)" and ?then = "set (filter (\<lambda>n. s n = InProgress) ns)"
    and ?tried = "set (take k (filter (\<lambda>n. s n = Waiting) ns))"
  obtain c where c: "c \<in> set new" using \<open>new \<noteq> []\<close> by (cases new) auto
  have "n \<in> ?then \<union> ?tried" if n: "n \<in> ?now" for n
  proof (cases "s n = Waiting")
    case True
    have "c \<in> set (take k (filter (\<lambda>x. \<not> s x \<noteq> Waiting) ns))" using c new(1) by auto
    from inSequence_before [OF seq this] show ?thesis using n True new(2) [OF c] by simp
  next
    case False
    moreover have "s n \<le> InProgress" using \<open>s \<le> t\<close> n by (auto simp: le_fun_def dest!: spec [of _ n])
    ultimately show ?thesis using n by (auto simp: less_eq_progress_def)
  qed
  then have "card (?now \<union> set new) \<le> card (?then \<union> ?tried)" using new(1) by (intro card_mono) auto
  also have "\<dots> \<le> card ?then + card ?tried" by (rule card_Un_le)
  also have "\<dots> \<le> length (filter (\<lambda>n. s n = InProgress) ns) + k"
    by (intro add_mono card_length order_trans [OF card_length]) simp
  finally have "card (?now \<union> set new) \<le> length (filter (\<lambda>n. s n = InProgress) ns) + k" .
  moreover have "?now \<inter> set new = {}" using new(2) by fastforce
  ultimately show ?thesis
    using \<open>distinct ns\<close> \<open>distinct new\<close> by (simp add: card_Un_disjoint distinct_card flip: set_filter)
qed

text \<open>
  What an older state of progress says about the latest one: the group it starts nodes of is still the first
  unfinished one and has room for them, and the nodes of every group are started in order.
\<close>

lemma stale_room:
  fixes s t :: rolloutState
  assumes grows: "s \<le> t" and seq: "inOrderOf r t" and g: "currentGroup r s = Some g"
    and groups: "distinct (map node_Name (concat (map grp_Nodes (rollout_Groups r))))"
    and new: "set new \<subseteq> set (take k (filter (\<lambda>n. s n = Waiting) (map node_Name (grp_Nodes g))))"
      "\<And>n. n \<in> set new \<Longrightarrow> t n = Waiting" "distinct new" "new \<noteq> []"
    and limit: "int (length (inProgressIn s g)) + int k \<le> grp_Concurrency g"
  shows "currentGroup r t = Some g" and "int (length (inProgressIn t g)) + int (length new) \<le> grp_Concurrency g"
proof -
  let ?ns = "map node_Name (grp_Nodes g)"
  have inr: "g \<in> set (rollout_Groups r)" using g by (auto simp: currentGroup_def find_Some_iff)
  have finished: "t n = Finished" if "s n = Finished" for n
    using grows that by (auto simp: le_fun_def less_eq_progress_def dest!: spec [of _ n])
  obtain c where c: "c \<in> set new" using new(4) by (cases new) auto
  then have "c \<in> set ?ns" "t c = Waiting" using new(1,2) by (auto dest!: in_set_takeD)
  then have open_g: "\<not> list_all (\<lambda>n. t (node_Name n) = Finished) (grp_Nodes g)" by (force simp: list_all_iff)
  show "currentGroup r t = Some g"
    unfolding currentGroup_def
    by (rule find_keeps [where Q = "\<lambda>h. \<not> list_all (\<lambda>n. t (node_Name n) = Finished) (grp_Nodes h)",
          OF g [unfolded currentGroup_def] _ open_g])
       (use finished in \<open>fastforce simp: list_all_iff\<close>)
  have "length (filter (\<lambda>n. t n = InProgress) ?ns) + length new \<le> length (filter (\<lambda>n. s n = InProgress) ?ns) + k"
    by (rule room_kept [OF grows _ distinct_in_group [OF groups inr] new(1,2)])
       (use seq inr new(3,4) in \<open>simp_all add: inOrderOf_def list_all_iff\<close>)
  then show "int (length (inProgressIn t g)) + int (length new) \<le> grp_Concurrency g"
    using limit by (simp add: inProgressIn_def filter_map comp_def)
qed

lemma stale_order:
  fixes s t u :: rolloutState
  assumes grows: "s \<le> t" and seq: "inOrderOf r t" and inr: "g \<in> set (rollout_Groups r)"
    and groups: "distinct (map node_Name (concat (map grp_Nodes (rollout_Groups r))))"
    and tried: "tried = take k (filter (\<lambda>n. s n = Waiting) (map node_Name (grp_Nodes g)))"
    and new: "set new \<subseteq> set tried" and after: "\<And>n. u n = Waiting \<longleftrightarrow> t n = Waiting \<and> n \<notin> set new"
    and stored: "\<And>n. n \<in> set tried \<Longrightarrow> u n \<noteq> Waiting"
  shows "inOrderOf r u"
proof -
  have "inSequence (\<lambda>n. u n \<noteq> Waiting) (map node_Name (grp_Nodes h))" if h: "h \<in> set (rollout_Groups r)" for h
  proof (cases "h = g")
    case True
    let ?ns = "map node_Name (grp_Nodes g)"
    have "inSequence (\<lambda>n. t n \<noteq> Waiting \<or> n \<in> set (take k (filter (\<lambda>n. \<not> s n \<noteq> Waiting) ?ns))) ?ns"
      by (rule inSequence_take [OF _ distinct_in_group [OF groups inr]])
         (use seq inr grows in \<open>auto simp: inOrderOf_def list_all_iff le_fun_def less_eq_progress_def\<close>)
    moreover have "(t n \<noteq> Waiting \<or> n \<in> set tried) = (u n \<noteq> Waiting)" for n
      using stored [of n] new by (auto simp: after)
    ultimately show ?thesis using True tried by simp
  next
    case False
    have "u n = Waiting \<longleftrightarrow> t n = Waiting" if "n \<in> node_Name ` set (grp_Nodes h)" for n
    proof -
      have "n \<notin> node_Name ` set (grp_Nodes g)" using same_group [OF groups h inr] that False by (metis imageE)
      then have "n \<notin> set tried" unfolding tried by (auto dest!: in_set_takeD)
      then show ?thesis using new by (auto simp: after)
    qed
    then show ?thesis using seq h by (subst inSequence_cong) (auto simp: inOrderOf_def list_all_iff)
  qed
  then show ?thesis by (simp add: inOrderOf_def list_all_iff)
qed

text \<open>
  A reconcile that has read an older store: what it adds may be added to the latest one, and keeps the
  order of the nodes.
\<close>

lemma stale_created:
  assumes old: "soundStore K r old" and cur: "soundStore K r jobs" and grows: "progressOf old \<le> progressOf jobs"
    and seq: "inOrderOf r (progressOf jobs)"
    and listed: "mset listed = mset old" and within: "withinLimit K r listed tried"
    and all_named: "list_all (named nm) jobs" "list_all (named nm) tried"
    and sub: "subseq new (take m tried)" and stored: "job_Name ` set (take m tried) \<subseteq> job_Name ` set (jobs @ new)"
    and unique: "distinct (map job_Name (jobs @ new))" and "new \<noteq> []"
  shows "mayCreate r jobs new \<and> inOrderOf r (progressOf (jobs @ new))"
proof -
  let ?s = "progressOf old" and ?t = "progressOf jobs"
  obtain g where g: "currentGroup r ?s = Some g"
    and tried: "map jobNode tried = take (length tried)
      (map node_Name (filter (\<lambda>n. ?s (node_Name n) = Waiting) (grp_Nodes g)))"
    and limit: "int (length (inProgressIn ?s g)) + int (length tried) \<le> grp_Concurrency g"
    and fresh: "list_all (\<lambda>j. job_Group (job_Spec j) = grp_Name g \<and> job_DeletionTimestamp j = None \<and>
      jobPhase j = PatchJobPhaseNone) tried"
    by (rule within_tried [OF old listed within])
  let ?k = "min m (length tried)"
  let ?X = "take ?k (filter (\<lambda>n. ?s n = Waiting) (map node_Name (grp_Nodes g)))"
  have X: "map jobNode (take m tried) = ?X"
    using tried by (simp add: take_map [symmetric] filter_map comp_def min.commute)
  have inr: "g \<in> set (rollout_Groups r)" using g by (auto simp: currentGroup_def find_Some_iff)
  have groups: "distinct (map node_Name (concat (map grp_Nodes (rollout_Groups r))))"
    and nodes: "distinct (map jobNode jobs)" using cur by (simp_all add: soundStore_def Nodes_def)
  have new: "set new \<subseteq> set tried" using list_emb_set [OF sub] by (metis in_set_takeD subsetI)
  then have named_new: "list_all (named nm) (jobs @ new)" using all_named by (auto simp: list_all_iff)
  then have dn: "distinct (map jobNode (jobs @ new))" using named_distinct unique by blast
  then have waits: "?t n = Waiting" if "n \<in> set (map jobNode new)" for n
    using that by (force simp: progressOf_simps [OF nodes])
  have newX: "set (map jobNode new) \<subseteq> set ?X"
    using list_emb_set [OF subseq_map [OF sub, of jobNode]] X by auto
  have hasX: "n \<in> jobNode ` set (jobs @ new)" if "n \<in> set ?X" for n
  proof -
    have "list_all (named nm) (take m tried)" using all_named(2) by (auto simp: list_all_iff dest: in_set_takeD)
    then have "jobNode ` set (take m tried) \<subseteq> jobNode ` set (jobs @ new)" using stored named_subset [OF _ named_new] by blast
    then show ?thesis using that X by (metis set_map subsetD)
  qed
  have made: "list_all (\<lambda>j. job_Group (job_Spec j) = grp_Name g \<and> job_DeletionTimestamp j = None \<and>
      jobPhase j = PatchJobPhaseNone) new" using fresh new by (auto simp: list_all_iff)
  then have quiet: "list_all (\<lambda>j. jobPhase j = PatchJobPhaseNone) new" by (simp add: list_all_iff)
  have here: "currentGroup r ?t = Some g" "int (length (inProgressIn ?t g)) + int (length (map jobNode new)) \<le> grp_Concurrency g"
    by (rule stale_room [OF grows seq g groups newX waits]; use dn \<open>new \<noteq> []\<close> limit in \<open>simp; fail\<close>)+
  have "set (map jobNode new) \<subseteq> node_Name ` set (grp_Nodes g)"
    by (rule order_trans [OF newX]) (auto dest!: in_set_takeD)
  then have "mayCreate r jobs new"
    unfolding mayCreate_def using here made dn waits by (intro exI [of _ g]) (simp add: list_all_iff)
  moreover have "inOrderOf r (progressOf (jobs @ new))"
    by (rule stale_order [OF grows seq inr groups refl newX])
       (use hasX progressOf_simps(3) [OF nodes] in \<open>auto simp: progressOf_append [OF dn quiet]\<close>)
  ultimately show ?thesis ..
qed

section \<open>The history refines the rollout\<close>

lemma version_named:
  "version plan es p \<Longrightarrow> list_all (answersFor (plan_Name plan)) es \<Longrightarrow> plan_Name p = plan_Name plan"
proof -
  have "answered e p \<Longrightarrow> answersFor nm e \<Longrightarrow> plan_Name p = nm" for e nm
    by (cases e) (auto simp: answered_def answersFor_def split: sum.splits)
  then show "version plan es p \<Longrightarrow> list_all (answersFor (plan_Name plan)) es \<Longrightarrow> plan_Name p = plan_Name plan"
    by (auto simp: version_def list_ex_iff list_all_iff)
qed

lemma creating_named:
  assumes "creating K plan es" and "list_all (answersFor (plan_Name plan)) es" and "ownerOnly K"
  shows "list_all (named (plan_Name plan)) (createdJobs es)"
proof -
  have "named (plan_Name plan) j" if made: "version plan es p" "setOwnerOfJob K p (newPatchJob p n grp) = Inr j" for p n grp j
  proof -
    obtain ow where "j = (newPatchJob p n grp)\<lparr>job_Owner := ow\<rparr>" using made(2) assms(3) unfolding ownerOnly_def by blast
    then show ?thesis using version_named [OF made(1) assms(2)] by (simp add: named_def newPatchJob_def jobNode_def)
  qed
  then show ?thesis using assms(1) by (auto simp: creating_def list_all_iff)
qed

lemma rollout_calls:
  assumes "calls (snd (run_state (reconcileRollout E plan r) w)) = calls w @ EvListJobs (plan_Name plan) (Inr listed) # es"
    and "list_all (answersFor (plan_Name plan)) es" and "ownerOnly E"
  shows "stopsAtFailure es" and "list_all (named (plan_Name plan)) (createdJobs es)"
proof -
  let ?es = "EvListJobs (plan_Name plan) (Inr listed) # es"
  have "creating E plan ?es" using runsE [OF reconcileRollout_creating, of E plan r w] assms(1) by auto
  then show "stopsAtFailure es" "list_all (named (plan_Name plan)) (createdJobs es)"
    using creating_named [of E plan ?es] assms(2,3) by (auto simp: creating_def answersFor_def)
qed

text \<open>A status write lets progress grow, or leaves it.\<close>

lemma status_grows:
  assumes "soundStore E r (xs @ j # ys)" and "\<not> IsTerminal (jobPhase j)"
  shows "progressOf (xs @ j # ys) \<le> progressOf (xs @ j\<lparr>job_Status := st\<rparr> # ys)"
    and "progressOf (xs @ j\<lparr>job_Status := st\<rparr> # ys) n = Waiting \<longleftrightarrow> progressOf (xs @ j # ys) n = Waiting"
  using status_step(3) [OF assms] unfolding status_step(2) [OF assms]
  by (auto simp: le_fun_def less_eq_progress_def)

lemma inOrderOf_cong: "(\<And>n. t n = Waiting \<longleftrightarrow> s n = Waiting) \<Longrightarrow> inOrderOf r t = inOrderOf r s"
  by (simp add: inOrderOf_def)

lemma lagSound_Cons:
  assumes "lagSound K r nm (jobs # past)" and "soundStore K r jobs'" and "progressOf jobs \<le> progressOf jobs'"
    and "list_all (named nm) jobs'" and "inOrderOf r (progressOf jobs')"
  shows "lagSound K r nm (jobs' # jobs # past)"
  using assms order_trans [OF _ assms(3)] by (auto simp: lagSound_def list_all_iff)

lemma lag_keeps:
  assumes sound: "lagSound E r nm h" and step: "lagStep E r nm h h'"
  shows "lagSound E r nm h' \<and> (rolloutStep r)\<^sup>*\<^sup>* (progressOf (hd h)) (progressOf (hd h'))"
  using step
proof (cases rule: lagStep.cases)
  case (reconciled plan w listed es old jobs past new)
  note calls = reconciled(3) and nm = reconciled(4)
  have cur: "soundStore E r jobs" "soundStore E r old" "progressOf old \<le> progressOf jobs"
    "list_all (named nm) jobs" "inOrderOf r (progressOf jobs)" "distinct (map job_Name jobs)" "ownerOnly E"
    using sound reconciled(1,6) by (auto simp: lagSound_def list_all_iff soundStore_def)
  have stops: "stopsAtFailure es" and tried: "list_all (named nm) (createdJobs es)"
    using rollout_calls [OF calls] reconciled(5) cur(7) nm by auto
  obtain m where m: "subseq new (take m (createdJobs es))"
    "job_Name ` set (take m (createdJobs es)) \<subseteq> job_Name ` set (jobs @ new)" "distinct (map job_Name (jobs @ new))"
    using served_prefix [OF reconciled(8) stops cur(6)] by blast
  show ?thesis
  proof (cases "new = []")
    case True
    then show ?thesis using reconciled sound cur lagSound_Cons [OF sound [unfolded reconciled(1)] cur(1) _ cur(4,5)] by simp
  next
    case False
    then have "createdJobs es \<noteq> []" using m(1) by auto
    then have "withinLimit E r listed (createdJobs es)" using tried_within [OF calls] by simp
    from stale_created [OF cur(2,1,3,5) reconciled(7) this cur(4) tried m False]
    have may: "mayCreate r jobs new" and seq: "inOrderOf r (progressOf (jobs @ new))" by simp_all
    have dn: "distinct (map jobNode (jobs @ new))" and quiet: "list_all (\<lambda>j. jobPhase j = PatchJobPhaseNone) new"
      and waits: "list_all (\<lambda>n. progressOf jobs n = Waiting) (map jobNode new)"
      using may by (auto simp: mayCreate_def list_all_iff)
    have "progressOf jobs \<le> progressOf (jobs @ new)"
      using waits unfolding progressOf_append [OF dn quiet] by (auto simp: le_fun_def less_eq_progress_def list_all_iff)
    moreover have "list_all (named nm) (jobs @ new)"
      using cur(4) tried list_emb_set [OF m(1)] by (auto simp: list_all_iff dest!: in_set_takeD)
    ultimately have "lagSound E r nm ((jobs @ new) # jobs # past)"
      using created_step(1) [OF cur(1) may m(3)] seq by (intro lagSound_Cons [OF sound [unfolded reconciled(1)]])
    then show ?thesis using created_step(2) [OF cur(1) may m(3)] reconciled(1,2) by auto
  qed
next
  case (progressed j xs ys past st)
  let ?jobs = "xs @ j # ys" and ?jobs' = "xs @ j\<lparr>job_Status := st\<rparr> # ys"
  have cur: "soundStore E r ?jobs" "list_all (named nm) ?jobs" "inOrderOf r (progressOf ?jobs)"
    using sound progressed(1) by (simp_all add: lagSound_def)
  note grows = status_grows [OF cur(1) progressed(3), of st]
  have "list_all (named nm) ?jobs'" using cur(2) by (auto simp: list_all_iff named_def jobNode_def)
  moreover have "inOrderOf r (progressOf ?jobs')" using cur(3) inOrderOf_cong [OF grows(2)] by simp
  ultimately have "lagSound E r nm (?jobs' # ?jobs # past)"
    using status_step(1) [OF cur(1) progressed(3)] grows(1) by (intro lagSound_Cons [OF sound [unfolded progressed(1)]])
  then show ?thesis using status_simulated [OF cur(1) progressed(3)] progressed(1,2) by simp
qed

interpretation lagging: refinement "lagStep E r nm" "lagSound E r nm" "rolloutStep r" "\<lambda>h. progressOf (hd h)" for E r nm
  by unfold_locales (use lag_keeps in blast)+

lemma empty_lagSound: "ownerOnly E \<Longrightarrow> distinct (map node_Name (Nodes r)) \<Longrightarrow> lagSound E r nm [[]]"
  by (auto simp: lagSound_def empty_sound inOrderOf_def list_all_iff inSequence_def intro: sorted_wrt_true)

lemma lagging_sound:
  assumes "ownerOnly E" and "distinct (map node_Name (Nodes r))" and "(lagStep E r nm)\<^sup>*\<^sup>* [[]] (jobs # past)"
  shows "lagSound E r nm (jobs # past)" and "orderly r (progressOf jobs)"
proof -
  note sound = empty_lagSound [OF assms(1,2), of nm]
  show "lagSound E r nm (jobs # past)" by (rule lagging.reach_sound [OF assms(3) sound])
  show "orderly r (progressOf jobs)"
    using lagging.reach_invariant [where P = "orderly r", OF _ _ sound assms(3)] orderly_step [OF assms(2)]
    by (simp add: orderly_def inProgressIn_def list_all_iff)
qed

text \<open>Only the creations of a reconcile matter for what is stored.\<close>

lemma served_creations: "served jobs (filter creates es) new \<Longrightarrow> served jobs es new"
proof (induction es arbitrary: jobs new)
  case (Cons e es)
  show ?case
  proof (cases "creates e")
    case True
    then show ?thesis using Cons.prems
      by (auto elim!: served.cases [of jobs "e # filter creates es" new] intro: served.intros Cons.IH)
  qed (use Cons in \<open>auto intro: served.other\<close>)
qed simp


end
