(* ===== verification/CacheProperties.thy ===== *)
theory CacheProperties imports LaggingCache ProgressProperties begin

text \<open>The property of a plan controller whose cache lags behind the API server.\<close>

section \<open>Concrete inputs\<close>

text \<open>
  An outside like \<open>freeEnv\<close>, in which the creation of a job is refused with \<open>AlreadyExists\<close> once the
  server knows a node named \<open>exists\<close>.
\<close>

definition staleEnv :: "(fixVersion, fixState) env" where
  "staleEnv = freeEnv\<lparr>op_createJob := (\<lambda>j s. (if s ''exists'' \<noteq> None then Inl (ApiError AlreadyExists ''exists'') else Inr j, s))\<rparr>"

lemma stale_ownerOnly: "ownerOnly staleEnv"
  by (auto simp: ownerOnly_def staleEnv_def freeEnv_def fix_ops)

lemma staleRollout: "Resolve staleEnv [fixNode ''c1'' True, fixNode ''w1'' False] fixSpec = Inr smallRollout"
  by code_simp

definition tries :: "patchJob list \<Rightarrow> event list \<Rightarrow> event list \<Rightarrow> bool" where
  "tries listed creations es =
     (case es of EvListJobs a (Inr js) # rest \<Rightarrow>
        a = ''plan'' \<and> js = listed \<and> filter creates rest = creations \<and> list_all (answersFor ''plan'') rest
      | _ \<Rightarrow> False)"

lemma answersFor_simps [simp]:
  "answersFor nm (EvPatchPlanStatus b m (Inr p)) \<longleftrightarrow> plan_Name p = nm" "answersFor nm (EvNow t)"
  "answersFor nm (EvListLeases ns owner ls)" "answersFor nm (EvCreateJob j rj)" "answersFor nm (EvCreateLease l rl)"
  by (simp_all add: answersFor_def)

lemma stale_fresh:
  "tries [] [EvCreateJob firstJob (Inr firstJob)] (calls (snd (run_state (reconcileRollout staleEnv readyPlan smallRollout) fixWorld)))"
  by (simp add: plan_evaluation tries_def free_world staleEnv_def)

lemma stale_again:
  "tries [] [EvCreateJob firstJob (Inl (ApiError AlreadyExists ''exists''))]
     (calls (snd (run_state (reconcileRollout staleEnv readyPlan smallRollout) (knowing ''exists''))))"
  by (simp add: plan_evaluation tries_def free_world staleEnv_def)

lemma stale_worker:
  "tries [doneJob] [EvCreateJob workerJob (Inr workerJob)]
     (calls (snd (run_state (reconcileRollout staleEnv readyPlan smallRollout) (knowing ''done''))))"
  by (simp add: plan_evaluation tries_def free_world staleEnv_def listed_jobs listed_facts workerJob_def)

lemma tried_step:
  assumes "tries listed creations (calls (snd (run_state (reconcileRollout E readyPlan r) w)))" and "calls w = []"
    and "listed \<in> set (jobs # past)" and "served jobs creations new"
  shows "lagStep E r ''plan'' (jobs # past) ((jobs @ new) # jobs # past)"
proof -
  have name: "plan_Name readyPlan = ''plan''" by (simp add: readyPlan_def fixPlan_def)
  obtain es where es: "calls (snd (run_state (reconcileRollout E readyPlan r) w)) = calls w @ EvListJobs (plan_Name readyPlan) (Inr listed) # es"
    "filter creates es = creations" "list_all (answersFor ''plan'') es"
    using assms(1,2) name by (auto simp: tries_def split: list.splits event.splits sum.splits)
  then have "served jobs es new" using assms(4) served_creations by simp
  then show ?thesis by (rule lagStep.reconciled [OF es(1) name es(3) assms(3) refl])
qed

lemma stale_steps:
  "lagStep staleEnv smallRollout ''plan'' [[]] [[firstJob], []]"
  "lagStep staleEnv smallRollout ''plan'' [[firstJob], []] [[firstJob], [firstJob], []]"
  "lagStep staleEnv smallRollout ''plan'' [[firstJob], [firstJob], []] [[doneJob], [firstJob], [firstJob], []]"
  "lagStep staleEnv smallRollout ''plan'' [[doneJob], [firstJob], [firstJob], []]
     [[doneJob, workerJob], [doneJob], [firstJob], [firstJob], []]"
proof -
  have one: "served [] [EvCreateJob firstJob (Inr firstJob)] [firstJob]"
    by (rule served.accepted) (auto intro: served.no_call)
  show "lagStep staleEnv smallRollout ''plan'' [[]] [[firstJob], []]"
    using tried_step [OF stale_fresh _ _ one, of "[]"] by (simp add: fixWorld_def)
  have "served [firstJob] [EvCreateJob firstJob (Inl (ApiError AlreadyExists ''exists''))] []"
    by (rule served.present) (auto intro: served.no_call)
  from tried_step [OF stale_again _ _ this, of "[[]]"]
  show "lagStep staleEnv smallRollout ''plan'' [[firstJob], []] [[firstJob], [firstJob], []]"
    by (simp add: knowing_def fixWorld_def)
  show "lagStep staleEnv smallRollout ''plan'' [[firstJob], [firstJob], []] [[doneJob], [firstJob], [firstJob], []]"
    using lagStep.progressed [of firstJob staleEnv smallRollout "''plan''" "[]" "[]"]
    by (auto simp: doneJob_def firstJob_def newPatchJob_def emptyJobStatus_def)
  have "served [doneJob] [EvCreateJob workerJob (Inr workerJob)] [workerJob]"
    by (rule served.accepted) (auto simp: listed_jobs intro: served.no_call)
  from tried_step [OF stale_worker _ _ this, of "[[firstJob], [firstJob], []]"]
  show "lagStep staleEnv smallRollout ''plan'' [[doneJob], [firstJob], [firstJob], []]
     [[doneJob, workerJob], [doneJob], [firstJob], [firstJob], []]"
    by (simp add: knowing_def fixWorld_def)
qed

section \<open>A lagging cache\<close>

text \<open>
  C13: A cache that lags does no harm. Although every reconcile may list the jobs as they were at any earlier
  moment, no node ever gets a second job, no group has more nodes in progress than its concurrency, and
  the progress of the nodes is a state the abstract rollout can reach. The API server's answer
  \<open>AlreadyExists\<close> and the end of a reconcile at any other failed creation are what this rests on.
\<close>

theorem lagging_cache_is_harmless:
  assumes "Resolve E nodes spec = Inr r" and "ownerOnly E" and "(lagStep E r nm)\<^sup>*\<^sup>* [[]] (jobs # past)"
  shows "distinct (map jobNode jobs) \<and>
    list_all (\<lambda>g. int (length (inProgressIn (progressOf jobs) g)) \<le> grp_Concurrency g) (rollout_Groups r) \<and>
    (rolloutStep r)\<^sup>*\<^sup>* (\<lambda>_. Waiting) (progressOf jobs)"
proof -
  have d: "distinct (map node_Name (Nodes r))" by (rule sched.resolve_distinct [OF assms(1)])
  have "distinct (map jobNode jobs)"
    using lagging_sound(1) [OF assms(2) d assms(3)] by (simp add: lagSound_def soundStore_def)
  moreover have "keepsQuorum r (progressOf jobs)"
    by (rule orderly_keepsQuorum [OF assms(1) lagging_sound(2) [OF assms(2) d assms(3)]])
  moreover have "(rolloutStep r)\<^sup>*\<^sup>* (\<lambda>_. Waiting) (progressOf jobs)"
    using lagging.reach_simulated [OF assms(3) empty_lagSound [OF assms(2) d]] by simp
  ultimately show ?thesis by (simp add: keepsQuorum_def)
qed

theorem lagging_cache_is_harmless_witness:
  "(lagStep staleEnv smallRollout ''plan'')\<^sup>*\<^sup>* [[]] [[doneJob, workerJob], [doneJob], [firstJob], [firstJob], []] \<and>
   distinct (map jobNode [doneJob, workerJob]) \<and>
   (rolloutStep smallRollout)\<^sup>*\<^sup>* (\<lambda>_. Waiting) (progressOf [doneJob, workerJob]) \<and>
   progressOf [doneJob, workerJob] ''w1'' = InProgress"
proof -
  have reach: "(lagStep staleEnv smallRollout ''plan'')\<^sup>*\<^sup>* [[]] [[doneJob, workerJob], [doneJob], [firstJob], [firstJob], []]"
    using stale_steps by (meson converse_rtranclp_into_rtranclp rtranclp.rtrancl_refl)
  moreover have "progressOf [doneJob, workerJob] ''w1'' = InProgress" by code_simp
  ultimately show ?thesis using lagging_cache_is_harmless [OF staleRollout stale_ownerOnly reach] by blast
qed


end
