(* ===== verification/Manager.thy ===== *)
theory Manager imports PatchJob begin

text \<open>
  \<open>cmd/manager/main.go\<close> and the two \<open>SetupWithManager\<close>: the options of the process, the order in which it
  is put together, the field index of the jobs, and which reconciles an event on an object asks for. The
  manager itself is controller-runtime; each call of it is a step whose answer is a parameter. Schemes,
  the logger and the HTTP servers are left out.
\<close>

section \<open>Registration of the controllers\<close>

datatype objectKind = PatchPlanKind | PatchJobKind | LeaseKind | SecretKind | DaemonSetKind | PodKind

text \<open>The index \<open>spec.patchPlanRef\<close> that the plan controller registers for the jobs.\<close>

definition patchPlanRefIndex :: "patchJob \<Rightarrow> string list" where
  "patchPlanRefIndex patchJob =
     (if PatchPlanRef (job_Spec patchJob) = '''' then [] else [PatchPlanRef (job_Spec patchJob)])"

record controllerSpec =
  For :: objectKind
  Owns :: "objectKind list"
  MaxConcurrentReconciles :: nat

definition maxConcurrentReconciles :: nat where "maxConcurrentReconciles = 4"

definition planController :: controllerSpec where
  "planController = \<lparr>For = PatchPlanKind, Owns = [PatchPlanKind, PatchJobKind],
     MaxConcurrentReconciles = maxConcurrentReconciles\<rparr>"

definition jobController :: controllerSpec where
  "jobController = \<lparr>For = PatchJobKind, Owns = [], MaxConcurrentReconciles = maxConcurrentReconciles\<rparr>"

text \<open>
  What the framework does with such a specification: an event on an object of the kind \<open>For\<close> asks for a
  reconcile of the object, one on an object of a kind in \<open>Owns\<close> for one of its controlling owner. (All owners
  in this program are plans.)
\<close>

datatype apiObject = PlanObject patchPlan | JobObject patchJob

fun kindOf :: "apiObject \<Rightarrow> objectKind" where
  "kindOf (PlanObject p) = PatchPlanKind"
| "kindOf (JobObject j) = PatchJobKind"

fun objectName :: "apiObject \<Rightarrow> string" where
  "objectName (PlanObject p) = plan_Name p"
| "objectName (JobObject j) = job_Name j"

fun ownerName :: "apiObject \<Rightarrow> string option" where
  "ownerName (PlanObject p) = plan_Owner p"
| "ownerName (JobObject j) = job_Owner j"

definition requests :: "controllerSpec \<Rightarrow> apiObject \<Rightarrow> string list" where
  "requests c x =
     (if kindOf x = For c then [objectName x] else []) @
     (if kindOf x \<in> set (Owns c) then (case ownerName x of None \<Rightarrow> [] | Some owner \<Rightarrow> [owner]) else [])"

lemma requests_simps [simp]:
  "requests planController (JobObject j) = (case job_Owner j of None \<Rightarrow> [] | Some p \<Rightarrow> [p])"
  "requests jobController (JobObject j) = [job_Name j]"
  "requests planController (PlanObject p) = plan_Name p # (case plan_Owner p of None \<Rightarrow> [] | Some q \<Rightarrow> [q])"
  "requests jobController (PlanObject p) = []"
  by (simp_all add: requests_def planController_def jobController_def)

section \<open>The process\<close>

record flags =
  metricsAddr :: string
  probeAddr :: string
  enableLeaderElection :: bool

definition defaultFlags :: flags where
  "defaultFlags = \<lparr>metricsAddr = '':8080'', probeAddr = '':8081'', enableLeaderElection = False\<rparr>"

text \<open>The environment variable \<open>POD_NAMESPACE\<close>; it is empty when not set.\<close>

definition namespaceOf :: "string \<Rightarrow> string" where
  "namespaceOf podNamespace = (if podNamespace = '''' then ''default'' else podNamespace)"

record managerOptions =
  CacheNamespaces :: "(objectKind \<times> string list) list"
  DisableFor :: "objectKind list"
  MetricsBindAddress :: string
  HealthProbeBindAddress :: string
  LeaderElection :: bool
  LeaderElectionID :: string
  LeaderElectionReleaseOnCancel :: bool

definition optionsFor :: "flags \<Rightarrow> string \<Rightarrow> managerOptions" where
  "optionsFor f operatorNs =
     \<lparr>CacheNamespaces = [(LeaseKind, [operatorNs])],
      DisableFor = [SecretKind, DaemonSetKind, PodKind],
      MetricsBindAddress = metricsAddr f,
      HealthProbeBindAddress = probeAddr f,
      LeaderElection = enableLeaderElection f,
      LeaderElectionID = ''kangalpatch.ozalp.dk'',
      LeaderElectionReleaseOnCancel = True\<rparr>"

text \<open>
  The steps of \<open>main\<close> that may fail: the plan controller gets the operator's namespace and the timeout of its
  release fetcher, the job controller the namespace.
\<close>

datatype startStep =
    NewManager managerOptions
  | NewDiscoveryClient
  | IndexField objectKind string
  | CompletePlanController controllerSpec string duration
  | CompleteJobController controllerSpec string
  | AddHealthzCheck string
  | AddReadyzCheck string
  | StartManager

definition releaseTimeout :: duration where "releaseTimeout = 30 * second"

text \<open>The two \<open>SetupWithManager\<close>: the index is registered before the plan controller is completed.\<close>

definition setupPlanController :: "string \<Rightarrow> startStep list" where
  "setupPlanController operatorNs =
     [IndexField PatchJobKind ''spec.patchPlanRef'', CompletePlanController planController operatorNs releaseTimeout]"

definition setupJobController :: "string \<Rightarrow> startStep list" where
  "setupJobController operatorNs = [CompleteJobController jobController operatorNs]"

definition startSteps :: "flags \<Rightarrow> string \<Rightarrow> startStep list" where
  "startSteps f podNamespace =
     (let operatorNs = namespaceOf podNamespace in
      [NewManager (optionsFor f operatorNs), NewDiscoveryClient]
      @ setupPlanController operatorNs @ setupJobController operatorNs
      @ [AddHealthzCheck ''healthz'', AddReadyzCheck ''readyz'', StartManager])"

text \<open>The steps are taken in order; the first error ends the process with exit code 1.\<close>

fun takeSteps :: "(startStep \<Rightarrow> goerr option) \<Rightarrow> startStep list \<Rightarrow> startStep list \<times> nat" where
  "takeSteps answer [] = ([], 0)"
| "takeSteps answer (s # ss) =
     (case answer s of
        Some _ \<Rightarrow> ([s], 1)
      | None \<Rightarrow> (case takeSteps answer ss of (taken, code) \<Rightarrow> (s # taken, code)))"

definition main :: "(startStep \<Rightarrow> goerr option) \<Rightarrow> flags \<Rightarrow> string \<Rightarrow> startStep list \<times> nat" where
  "main answer f podNamespace = takeSteps answer (startSteps f podNamespace)"

section \<open>The start\<close>

text \<open>Every step but the last one taken has succeeded, and the last one too if the exit code is 0.\<close>

lemma takeSteps_prefix:
  "takeSteps answer ss = (taken, code) \<Longrightarrow>
     taken = take (length taken) ss \<and> list_all (\<lambda>s. answer s = None) (butlast taken) \<and>
     (if code = 0 then taken = ss \<and> list_all (\<lambda>s. answer s = None) ss
      else code = 1 \<and> taken \<noteq> [] \<and> answer (last taken) \<noteq> None)"
proof (induction ss arbitrary: taken)
  case (Cons s ss)
  then show ?case by (fastforce split: option.splits prod.splits if_splits)
qed simp

text \<open>
  The manager starts only when both controllers are registered and the index is in place, and both work in
  the same namespace, that of the Leases in the cache.
\<close>

lemma main_starts_complete:
  assumes "main answer f podNamespace = (taken, code)" and "StartManager \<in> set taken"
  shows "taken = startSteps f podNamespace"
    and "list_all (\<lambda>s. answer s = None \<or> s = StartManager) taken"
proof -
  let ?ss = "startSteps f podNamespace"
  have prefix: "taken = take (length taken) ?ss" "list_all (\<lambda>s. answer s = None) (butlast taken)"
    using takeSteps_prefix [of answer ?ss taken code] assms(1) by (simp_all add: main_def)
  have "StartManager \<notin> set (take k ?ss)" if "k < length ?ss" for k
    using that by (auto simp: startSteps_def setupPlanController_def setupJobController_def Let_def
      take_Cons' split: if_splits)
  then have "length ?ss \<le> length taken" using prefix(1) assms(2) by (metis not_le)
  then show all: "taken = ?ss" using prefix(1) by simp
  have "?ss = butlast ?ss @ [StartManager]"
    by (simp add: startSteps_def setupPlanController_def setupJobController_def Let_def)
  then show "list_all (\<lambda>s. answer s = None \<or> s = StartManager) taken"
    using prefix(2) unfolding all by (metis (mono_tags, lifting) list_all_append list.pred_inject list.pred_mono_strong)
qed

lemma main_one_namespace:
  "LeaseKind \<in> fst ` set (CacheNamespaces (optionsFor f (namespaceOf ns))) \<and>
   CompletePlanController planController (namespaceOf ns) releaseTimeout \<in> set (startSteps f ns) \<and>
   CompleteJobController jobController (namespaceOf ns) \<in> set (startSteps f ns)"
  by (simp add: optionsFor_def startSteps_def setupPlanController_def setupJobController_def Let_def)

end
