(* ===== verification/ManyPlans.thy ===== *)
theory ManyPlans imports Manager LaggingCache begin

text \<open>
  All plans together. The stored jobs of every plan are in one store, names are unique over all of them,
  and a reconcile of a plan sees those that the field index files under its name. The jobs of one plan
  then change as if the other plans were not there.
\<close>

section \<open>Whose jobs\<close>

definition refersTo :: "string \<Rightarrow> patchJob \<Rightarrow> bool" where
  "refersTo nm j \<longleftrightarrow> nm \<in> set (patchPlanRefIndex j)"

definition jobsOf :: "string \<Rightarrow> patchJob list \<Rightarrow> patchJob list" where
  "jobsOf nm jobs = filter (refersTo nm) jobs"

lemma refersTo_iff: "refersTo nm j \<longleftrightarrow> PatchPlanRef (job_Spec j) = nm \<and> nm \<noteq> ''''"
  by (auto simp: refersTo_def patchPlanRefIndex_def)

lemma jobsOf_simps [simp]:
  "jobsOf nm [] = []" "jobsOf nm (js @ js') = jobsOf nm js @ jobsOf nm js'"
  "jobsOf nm (j # js) = (if refersTo nm j then j # jobsOf nm js else jobsOf nm js)"
  by (simp_all add: jobsOf_def)

lemma refersTo_status [simp]: "refersTo nm (j\<lparr>job_Status := st\<rparr>) = refersTo nm j"
  by (simp add: refersTo_iff)

section \<open>What a created job is tied to\<close>

text \<open>What \<open>SetControllerReference\<close> promises: the plan becomes the controlling owner, nothing else changes.\<close>

definition ownerSet :: "('v, 'm) klib_scheme \<Rightarrow> bool" where
  "ownerSet K \<longleftrightarrow> (\<forall>p j j'. setOwnerOfJob K p j = Inr j' \<longrightarrow> j' = j\<lparr>job_Owner := Some (plan_Name p)\<rparr>)"

lemma ownerSet_only: "ownerSet K \<Longrightarrow> ownerOnly K"
  unfolding ownerSet_def ownerOnly_def by blast

lemma creating_refers:
  assumes "creating K plan es" and "list_all (answersFor (plan_Name plan)) es" and "ownerOnly K"
  shows "list_all (\<lambda>j. PatchPlanRef (job_Spec j) = plan_Name plan) (createdJobs es)"
proof -
  have "PatchPlanRef (job_Spec j) = plan_Name plan"
    if made: "version plan es p" "setOwnerOfJob K p (newPatchJob p n grp) = Inr j" for p n grp j
  proof -
    obtain ow where "j = (newPatchJob p n grp)\<lparr>job_Owner := ow\<rparr>" using made(2) assms(3) unfolding ownerOnly_def by blast
    then show ?thesis using version_named [OF made(1) assms(2)] by (simp add: newPatchJob_def)
  qed
  then show ?thesis using assms(1) by (auto simp: creating_def list_all_iff)
qed

lemma creating_owned:
  assumes "creating K plan es" and "list_all (answersFor (plan_Name plan)) es" and "ownerSet K"
  shows "list_all (\<lambda>j. job_Owner j = Some (plan_Name plan)) (createdJobs es)"
proof -
  have "job_Owner j = Some (plan_Name plan)"
    if made: "version plan es p" "setOwnerOfJob K p (newPatchJob p n grp) = Inr j" for p n grp j
  proof -
    have "j = (newPatchJob p n grp)\<lparr>job_Owner := Some (plan_Name p)\<rparr>" using made(2) assms(3) unfolding ownerSet_def by blast
    then show ?thesis using version_named [OF made(1) assms(2)] by simp
  qed
  then show ?thesis using assms(1) by (auto simp: creating_def list_all_iff)
qed

section \<open>The machine of all plans\<close>

text \<open>
  \<open>R\<close> gives every plan its rollout. A reconcile of any version of a plan lists the jobs filed under its
  name; some of what it tries to create is stored, names being unique over all plans. A job that is not
  terminal changes its status. And once no job of its plan is unfinished, a job may be deleted.
\<close>

inductive plansStep :: "('v, 's) env \<Rightarrow> (string \<Rightarrow> rollout option) \<Rightarrow> patchJob list \<Rightarrow> patchJob list \<Rightarrow> bool" for E R where
  reconciled: "calls (snd (run_state (reconcileRollout E plan r) w)) =
      calls w @ EvListJobs (plan_Name plan) (Inr listed) # es \<Longrightarrow>
    R (plan_Name plan) = Some r \<Longrightarrow> list_all (answersFor (plan_Name plan)) es \<Longrightarrow>
    mset listed = mset (jobsOf (plan_Name plan) jobs) \<Longrightarrow> subseq created (createdJobs es) \<Longrightarrow>
    distinct (map job_Name (jobs @ created)) \<Longrightarrow> plansStep E R jobs (jobs @ created)"
| progressed: "\<not> IsTerminal (jobPhase j) \<Longrightarrow>
    plansStep E R (xs @ j # ys) (xs @ j\<lparr>job_Status := st\<rparr> # ys)"
| removed: "list_all (\<lambda>j. IsTerminal (jobPhase j)) (jobsOf (PatchPlanRef (job_Spec j)) (xs @ j # ys)) \<Longrightarrow>
    plansStep E R (xs @ j # ys) (xs @ ys)"

lemma created_refer:
  assumes "calls (snd (run_state (reconcileRollout E plan r) w)) =
      calls w @ EvListJobs (plan_Name plan) (Inr listed) # es"
    and "list_all (answersFor (plan_Name plan)) es" and "ownerOnly E" and "subseq created (createdJobs es)"
  shows "list_all (\<lambda>j. PatchPlanRef (job_Spec j) = plan_Name plan) created"
proof -
  let ?es = "EvListJobs (plan_Name plan) (Inr listed) # es"
  have "creating E plan ?es" using runsE [OF reconcileRollout_creating, of E plan r w] assms(1) by auto
  then have "list_all (\<lambda>j. PatchPlanRef (job_Spec j) = plan_Name plan) (createdJobs es)"
    using creating_refers [of E plan ?es] assms(2,3) by (auto simp: answersFor_def)
  then show ?thesis using list_emb_set [OF assms(4)] by (fastforce simp: list_all_iff)
qed

lemma filter_by_ref:
  assumes "list_all (\<lambda>j. PatchPlanRef (job_Spec j) = nm) js" and "m \<noteq> ''''"
  shows "jobsOf m js = (if m = nm then js else [])"
  using assms by (induction js) (auto simp: refersTo_iff split: if_splits)

lemma map_jobsOf_distinct: "distinct (map job_Name jobs) \<Longrightarrow> distinct (map job_Name (jobsOf nm jobs))"
  unfolding jobsOf_def by (induction jobs) auto

text \<open>Seen from one plan, a step is a step of its own machine or none at all.\<close>

lemma plansStep_projects:
  assumes "plansStep E R jobs jobs'" and "ownerOnly E" and own: "R nm = Some r" "nm \<noteq> ''''"
  shows "jobsOf nm jobs' = jobsOf nm jobs \<or> storeStep E r (jobsOf nm jobs) (jobsOf nm jobs')"
  using assms(1)
proof (cases rule: plansStep.cases)
  case (reconciled plan r' w listed es created)
  have refer: "list_all (\<lambda>j. PatchPlanRef (job_Spec j) = plan_Name plan) created"
    by (rule created_refer [OF reconciled(2,4) assms(2) reconciled(6)])
  show ?thesis
  proof (cases "plan_Name plan = nm")
    case True
    then have mine: "r' = r" "jobsOf nm created = created" using reconciled(3) own filter_by_ref [OF refer own(2)] by simp_all
    have "distinct (map job_Name (jobsOf nm jobs @ created))"
      using map_jobsOf_distinct [OF reconciled(7), of nm] mine(2) by simp
    then have "storeStep E r (jobsOf nm jobs) (jobsOf nm jobs @ created)"
      using reconciled(2,5,6) True mine(1)
      by (intro storeStep.reconciled [where plan = plan and w = w and listed = listed and es = es]) auto
    then show ?thesis using reconciled(1) mine(2) by simp
  next
    case False
    then show ?thesis using reconciled(1) filter_by_ref [OF refer own(2)] by simp
  qed
next
  case (progressed j xs ys st)
  then show ?thesis using storeStep.progressed [of j E r "jobsOf nm xs" "jobsOf nm ys" st] by simp
next
  case (removed j xs ys)
  show ?thesis
  proof (cases "refersTo nm j")
    case True
    then have "PatchPlanRef (job_Spec j) = nm" by (simp add: refersTo_iff)
    then show ?thesis
      using removed True storeStep.removed [of "jobsOf nm xs" j "jobsOf nm ys" E r] by simp
  qed (use removed in simp)
qed

definition plansSound :: "('v, 'm) klib_scheme \<Rightarrow> (string \<Rightarrow> rollout option) \<Rightarrow> string \<Rightarrow> rollout \<Rightarrow> bool" where
  "plansSound K R nm r \<longleftrightarrow> ownerOnly K \<and> R nm = Some r \<and> nm \<noteq> ''''"

interpretation plans: refinement "plansStep E R" "\<lambda>_. plansSound E R nm r" "storeStep E r" "jobsOf nm" for E R nm r
proof (unfold_locales, assumption)
  fix s t
  assume "plansSound E R nm r" "plansStep E R s t"
  then have "jobsOf nm t = jobsOf nm s \<or> storeStep E r (jobsOf nm s) (jobsOf nm t)"
    using plansStep_projects unfolding plansSound_def by blast
  then show "(storeStep E r)\<^sup>*\<^sup>* (jobsOf nm s) (jobsOf nm t)" by auto
qed

lemma plan_alone:
  assumes "(plansStep E R)\<^sup>*\<^sup>* [] jobs" and "ownerOnly E" and "R nm = Some r" and "nm \<noteq> ''''"
  shows "(storeStep E r)\<^sup>*\<^sup>* [] (jobsOf nm jobs)"
  using plans.reach_simulated [OF assms(1), of nm r] assms(2-4) by (simp add: plansSound_def)

section \<open>A reconcile ties its jobs to its plan\<close>

definition tiedTo :: "string \<Rightarrow> patchJob \<Rightarrow> bool" where
  "tiedTo nm j \<longleftrightarrow> patchPlanRefIndex j = [nm] \<and> requests planController (JobObject j) = [nm] \<and>
     requests jobController (JobObject j) = [job_Name j]"

lemma reconcileRollout_ties:
  assumes "ownerSet E" and "plan_Name plan \<noteq> ''''"
  shows "runs [] (reconcileRollout E plan r) (\<lambda>_ es. list_all (answersFor (plan_Name plan)) es \<longrightarrow>
    list_all (tiedTo (plan_Name plan)) (createdJobs es))"
proof (rule runs_mono [OF reconcileRollout_creating], rule impI)
  fix es
  assume c: "creating E plan es" and a: "list_all (answersFor (plan_Name plan)) es"
  show "list_all (tiedTo (plan_Name plan)) (createdJobs es)"
    using creating_refers [OF c a ownerSet_only [OF assms(1)]] creating_owned [OF c a assms(1)] assms(2)
    by (auto simp: list_all_iff tiedTo_def patchPlanRefIndex_def)
qed

end
