(* ===== verification/PlansProperties.thy ===== *)
theory PlansProperties imports ManyPlans CacheProperties begin

text \<open>Properties of all plans together, and of the ties between a plan and its jobs.\<close>

section \<open>Concrete inputs\<close>

text \<open>A second plan on the same nodes, and its first job.\<close>

definition otherPlan :: patchPlan where
  "otherPlan = readyPlan\<lparr>plan_Name := ''other''\<rparr>"

definition otherJob :: patchJob where
  "otherJob = (newPatchJob otherPlan (fixNode ''c1'' True) GroupControlPlane)\<lparr>job_Owner := Some ''other''\<rparr>"

definition twoPlans :: "string \<Rightarrow> rollout option" where
  "twoPlans = [''plan'' \<mapsto> smallRollout, ''other'' \<mapsto> smallRollout]"

definition lists :: "string \<Rightarrow> patchJob list \<Rightarrow> event list \<Rightarrow> bool" where
  "lists nm created es =
     (case es of EvListJobs a (Inr js) # rest \<Rightarrow>
        a = nm \<and> js = [] \<and> createdJobs rest = created \<and> list_all (answersFor nm) rest
      | _ \<Rightarrow> False)"

lemma plan_lists:
  "lists ''plan'' [firstJob] (calls (snd (run_state (reconcileRollout freeEnv readyPlan smallRollout) fixWorld)))"
  by (simp add: plan_evaluation lists_def free_world)

lemma other_lists:
  "lists ''other'' [otherJob] (calls (snd (run_state (reconcileRollout freeEnv otherPlan smallRollout) fixWorld)))"
  by (simp add: plan_evaluation lists_def free_world otherPlan_def otherJob_def)

lemma listed_step:
  assumes "lists (plan_Name plan) created (calls (snd (run_state (reconcileRollout E plan r) w)))" and "calls w = []"
    and "R (plan_Name plan) = Some r" and "jobsOf (plan_Name plan) jobs = []" and "distinct (map job_Name (jobs @ created))"
  shows "plansStep E R jobs (jobs @ created)"
proof -
  obtain es where "calls (snd (run_state (reconcileRollout E plan r) w)) = calls w @ EvListJobs (plan_Name plan) (Inr []) # es"
    and "createdJobs es = created" and "list_all (answersFor (plan_Name plan)) es"
    using assms(1,2) by (auto simp: lists_def split: list.splits event.splits sum.splits)
  then show ?thesis
    using assms(3-5) by (intro plansStep.reconciled [where plan = plan and w = w and listed = "[]" and es = es]) auto
qed

lemma two_plans_reach: "(plansStep freeEnv twoPlans)\<^sup>*\<^sup>* [] [firstJob, otherJob]"
proof -
  have names: "plan_Name readyPlan = ''plan''" "plan_Name otherPlan = ''other''"
    by (simp_all add: readyPlan_def otherPlan_def fixPlan_def)
  have jobs: "\<not> refersTo ''other'' firstJob" "job_Name firstJob = ''plan-c1''" "job_Name otherJob = ''other-c1''"
    by (simp_all add: refersTo_iff firstJob_def otherJob_def newPatchJob_def names fixNode_def fixPlan_def)
  have "plansStep freeEnv twoPlans [] ([] @ [firstJob])"
    using plan_lists by (intro listed_step [where plan = readyPlan and w = fixWorld])
      (simp_all add: names twoPlans_def fixWorld_def)
  moreover have "plansStep freeEnv twoPlans [firstJob] ([firstJob] @ [otherJob])"
    using other_lists by (intro listed_step [where plan = otherPlan and w = fixWorld])
      (simp_all add: names jobs twoPlans_def fixWorld_def)
  ultimately show ?thesis by (simp add: converse_rtranclp_into_rtranclp)
qed

section \<open>Plans beside each other\<close>



section \<open>A plan and its jobs\<close>



end
