(* ===== verification/Spec2Isabelle.thy ===== *)
theory Spec2Isabelle imports RolloutProperties JobProperties PlanProperties LifeProperties UpkeepProperties
  ClusterProperties ProgressProperties CacheProperties PlansProperties begin

text \<open>
  A model of kangal-patch, a Kubernetes operator that upgrades Talos Linux nodes, and the properties
  that make it correct.

  The program. A \<open>PatchPlan\<close> names target versions, nodes and a rollout strategy. The plan controller
  (\<open>controllers/patchplan_controller.go\<close>) resolves the strategy into groups of nodes, checks the
  preconditions (preflight), waits for a maintenance window and creates one \<open>PatchJob\<close> per node, group
  by group, no more at a time than the group's concurrency. Concurrency is counted by Leases. The job
  controller (\<open>controllers/patchjob_controller.go\<close>) takes each job through its phases: cordon and
  drain the node, start the Talos upgrade, wait for the reboot, upgrade Kubernetes, uncordon. A plan
  with \<open>target.autoUpdate\<close> is a template: it watches the Talos releases and creates child plans.

  The two controllers share nothing but the API server: the plan controller reads the phases of the jobs
  and creates and deletes jobs; the job controller writes their status. So they are joined here where
  the code joins them, in the stored objects: theory Cluster lets the calls of a reconcile of the plan and
  of reconciles of any jobs interleave on them.

  \<^bold>\<open>How the code is modelled.\<close> Structs are records, Go's string enums datatypes, errors values of
  \<open>goerr\<close> in a sum type, maps association lists. A function that calls the outside is a state monad
  over \<open>world\<close> (theory Effects): an arbitrary outside state, the list of the calls made so far with
  their answers, and the only state the process keeps (\<open>transientSince\<close>). Every call may answer
  anything and change the outside in any way, so stale caches, conflicts, other writers and failures are
  covered. \<open>runs [] m Q\<close> states \<open>Q\<close> of the result and of the calls of \<open>m\<close> for every
  outside; \<open>emits P m\<close> states \<open>P\<close> of every single call.

  \<^bold>\<open>Theories and sources.\<close>
  \<^item> Prelude: error values, Go strings and ordering, sorting, the locale \<open>comparator\<close>.
  \<^item> GoTime: instants and durations in nanoseconds, the calendar, RFC 3339.
  \<^item> ApiTypes: \<open>api/v1alpha1/patchplan_types.go\<close>, \<open>patchjob_types.go\<close> and the fields of
    Kubernetes objects the controllers use.
  \<^item> Effects: the calls to the outside and the rules to reason about them.
  \<^item> NodeUtil, Scheduling, Maintenance, Versions, Images, TalosClient, Drain:
    \<open>internal/nodeutil\<close>, \<open>internal/scheduling\<close>, \<open>internal/maintenance\<close>,
    \<open>internal/release\<close> with \<open>internal/supportmatrix\<close>, \<open>internal/patchutil/version.go\<close>
    with \<open>internal/registry\<close>, \<open>internal/talos\<close>, \<open>internal/drain\<close>.
  \<^item> TalosAccess: \<open>controllers/talosconfig.go\<close>.
  \<^item> PatchJob: \<open>controllers/patchjob_controller.go\<close>, one definition per handler.
  \<^item> PlanState, PatchPlan: \<open>controllers/patchplan_controller.go\<close>; Leases: \<open>controllers/leases.go\<close>;
    Scheduler: \<open>controllers/scheduler.go\<close>; Preflight: \<open>controllers/preflight.go\<close>;
    Retention: \<open>controllers/retention.go\<close>; AutoUpdate: \<open>controllers/autoupdate.go\<close>.
  \<^item> Machine: the contracts of state machines, the locales \<open>ranked_machine\<close> (a rank that never
    falls bounds every path) and \<open>refinement\<close> (a concrete machine whose sound states simulate an
    abstract one).
  \<^item> Manager: \<open>cmd/manager/main.go\<close> (namespace, options, order of the start) and the two
    \<open>SetupWithManager\<close> (the field index of the jobs, and which reconciles an event asks for).
  \<^item> JobMachine, JobTraces, JobLife, JobTyping, JobDeadlines, JobOrder, JobTargets, JobUpgrades: the phases of
    a job as a step relation and the calls allowed in each; what has been established when a phase is left; the
    phases of a whole life; the timestamps each phase needs; the time each phase has; the order of the calls of a
    reconcile (what takes capacity away before the status is written); the nodes, pods and machines they concern;
    the upgrades accepted in a whole life, whose reconciles may be cut off at any call (\<open>jobHistory\<close>).
  \<^item> PlanCalls, PlanTraces, PlanProgress, PlanCounts, PlanPhases, LeaseCounts, PreflightFacts, PlanOutcomes,
    UpdateOutcomes: the calls of the plan controller; what holds when it creates a job and when it does
    not, changes its phase, counts, passes preflight, purges the history, and creates a child plan.
  \<^item> RolloutMachine: the abstract rollout, the machine on stored jobs, and the refinement.
  \<^item> RolloutLife: what is kept when finished jobs are deleted at any time (the machine
    \<open>freeStep\<close>), the rank that bounds a rollout, and scheduling when all jobs have ended.
  \<^item> PlanAdvance: what a whole reconcile does when all jobs have ended, through every guard: it goes on, ends
    the plan, or is held up from outside.
  \<^item> LaggingCache: the machine on the history of the stored jobs (\<open>lagStep\<close>), in which a
    reconcile lists the jobs of any earlier moment and its creations are answered as the API server does
    (\<open>served\<close>: a name in use is refused); its invariant (jobs in the order of the group, progress that
    only grows) and the refinement of the same abstract rollout.
  \<^item> ManyPlans: the machine of all plans on one store (\<open>plansStep\<close>). Each reconcile lists what the field
    index files under its plan, and names are unique over all plans; seen from one plan it refines
    \<open>storeStep\<close>.
  \<^item> Cluster: the machine of both controllers. Its state holds the stored jobs and, for every running
    reconcile, the calls it has still to make; a step is one call, the start of a reconcile (which reads
    its object or lists the jobs), its end at any point, or the deletion of a job. It refines the same
    abstract rollout.
  \<^item> Fixture: a concrete outside for the witnesses.

  \<^bold>\<open>What is shown.\<close>
  \<^item> RolloutProperties (pure parts): every selected node is in exactly one group, the first that
    matches, however the nodes are listed; a strategy is accepted exactly when it is valid; a rollout
    that passes the quorum check keeps a majority of the control plane whichever group runs; a
    maintenance window is open exactly when a window covers the time and the next one announced is the
    earliest; a release is selected exactly when it is the newest eligible one, at most one minor ahead;
    image references come apart again.
  \<^item> JobProperties: the footprint of a reconcile in each phase; a reboot or a Kubernetes rollout is
    completed only when verified; the upgrade is requested once per reconcile in the phase for it;
    evictions follow the cordon and spare other pods; errors are retried for five minutes; an unfinished
    job is revisited; uncordon undoes cordon.
  \<^item> PlanProperties: the footprint of a reconcile; the guards behind which jobs are created; the limit
    of a group; Leases count every unfinished job; workers and kube-proxy wait for the control plane; what
    a passed preflight has seen; the grounds of each phase and the counts in the status; every node that may start is started.
  \<^item> LifeProperties: over any sequence of reconciles, job progress and deletions the stored jobs refine
    the abstract rollout (groups in order, the concurrency kept), so the etcd quorum holds throughout;
    the life of a job changes its phase at most seven times and never goes back; stored statuses conform
    to their phase; no job stays in a phase beyond its timeout; a node is upgraded once, and again only when
    no status write after the upgrade was acknowledged.
  \<^item> ClusterProperties: however the calls of both controllers interleave, capacity is taken away only by
    the reconcile of an unfinished job, from its own node, before it writes its status, and within
    the limits of the groups and the quorum.
  \<^item> ProgressProperties: the limit of a group survives deletions at any time (the order of the groups
    does not: the example shows two groups at once); a rollout changes its progress at most twice per node;
    a plan whose jobs have ended does not stand still: it starts a node, completes, or names what holds it up.
  \<^item> CacheProperties: a cache that lags does no harm: no second job for a node, the limits kept, the
    abstract rollout refined.
  \<^item> PlansProperties: plans do not disturb each other's rollout; a created job is found by the next listing
    of its plan and wakes it.
  \<^item> UpkeepProperties: the purge of the history, the child plans, and that a plan is looked at again.

  \<^bold>\<open>Bounds and termination.\<close> No definition uses fuel. Loops over lists are structural; the retry
  of a status write is bounded by the parameter \<open>retrySteps\<close> (the client library's default backoff);
  the search for a free day goes through the 366 days the code looks at. All functions are total, so a
  reconcile always returns. Instants and durations are unbounded integers of nanoseconds. In Go a duration
  has 64 bits: the parser refuses longer ones (about 292 years), the code adds durations to instants
  only, and the difference of two instants, which saturates at that length, is only compared with
  durations (theory GoTime).

  \<^bold>\<open>Parameters.\<close> The library functions the code calls (label selectors, the version parser, status
  conditions, owner references, certificates, machine configuration patches, URL and JSON decoding) are
  the fields of \<open>klib\<close>. Three of their documented behaviours are hypotheses: \<open>lawfulVersions\<close>
  (the version order is a strict weak order), \<open>ownerOnly\<close> (setting the owner of a job
  changes nothing else of it) and \<open>ownerSet\<close> (and makes the plan its controlling owner). Each is shown to
  hold of the fixture.

  \<^bold>\<open>Choices.\<close> In RolloutMachine the stored jobs change by whole reconciles of one plan that read
  the jobs as stored, by status writes on jobs that are not terminal, and by removals of jobs while none is
  unfinished; job names being unique is what the API server guarantees. In LaggingCache a reconcile reads any state of
  the history but nothing is deleted, and the answer \<open>AlreadyExists\<close> speaks of a job of this plan (that
  a job of another plan can have the same name is one of the findings; the store of ManyPlans refuses it).
  In \<open>jobHistory\<close> a reconcile reads the phase that is stored; a write answered with an error may have been
  carried out or not (what a cache that lags behind the acknowledged write does is one of the findings).
  In Cluster reads are as fresh as
  the store at the moment of the read, a status write that is carried out reaches the job the reconcile
  has read, and at most one reconcile per object runs at a time, as the framework has it. The node probes of preflight run
  concurrently in the code, which collects their results in node order; the model makes them in that
  order. A context timeout shows as a failing call. The spec pointer of \<open>reconcileAutoUpdate\<close> is the
  one read with the plan.

  \<^bold>\<open>Not modelled.\<close> Of \<open>cmd/manager/main.go\<close> the scheme, the logger and the parsing of the
  command line; \<open>groupversion_info.go\<close> (registration of the types);
  \<open>zz_generated.deepcopy.go\<close> (generated; values are immutable here), \<open>PatchStatus\<close> in
  \<open>internal/patchutil/status.go\<close> (hands the patch to the client: the calls \<open>patchJobStatus\<close> and
  \<open>patchPlanStatus\<close>), logging, and the Helm chart. Concurrent reconciles of one object do not occur:
  the framework serialises them per object.
\<close>

end
